(* ===== verification/Prelude.thy ===== *)
theory Prelude
  imports Main
begin

text \<open>
  Shared vocabulary of the development: error values, fallible results, stateful
  actions that may fail, and the fact collections the component theories fill.

  Fallible code of the program returns \<open>anyhow::Result\<close>.  An \<open>anyhow::Error\<close> is a
  message with the messages of its causes below it: \<open>bail!\<close>/\<open>anyhow!\<close> make one
  without causes, \<open>.context(c)\<close> puts a new message on top, \<open>to_string()\<close> shows the
  top message only and \<open>{:#}\<close> shows the whole chain.  A stateful operation is a
  function from the state to a result \<^emph>\<open>and\<close> the state it leaves, so what an
  operation has already done when it fails stays visible.
\<close>

section \<open>Errors and results\<close>

datatype anyhow = Anyhow (err_msg: string) (err_causes: "string list")

type_synonym 'a result = "anyhow + 'a"

definition anyhow_msg :: "string \<Rightarrow> anyhow" where
  "anyhow_msg m = Anyhow m []"

definition bail :: "string \<Rightarrow> 'a result" where
  "bail m = Inl (anyhow_msg m)"

definition add_context :: "string \<Rightarrow> anyhow \<Rightarrow> anyhow" where
  "add_context c e = Anyhow c (err_msg e # err_causes e)"

definition err_to_string :: "anyhow \<Rightarrow> string" where
  "err_to_string e = err_msg e"

definition err_alternate :: "anyhow \<Rightarrow> string" where
  "err_alternate e = err_msg e @ concat (map (\<lambda>c. '': '' @ c) (err_causes e))"

text \<open>\<open>?\<close> on a foreign error (a plain message) and \<open>.context(c)?\<close> on either kind.\<close>

definition lift_err :: "string + 'a \<Rightarrow> 'a result" where
  "lift_err r = (case r of Inl m \<Rightarrow> Inl (anyhow_msg m) | Inr a \<Rightarrow> Inr a)"

definition ctx :: "string \<Rightarrow> 'a result \<Rightarrow> 'a result" where
  "ctx c r = (case r of Inl e \<Rightarrow> Inl (add_context c e) | Inr a \<Rightarrow> Inr a)"

definition ctxs :: "string \<Rightarrow> string + 'a \<Rightarrow> 'a result" where
  "ctxs c r = ctx c (lift_err r)"

definition opt_ctx :: "string \<Rightarrow> 'a option \<Rightarrow> 'a result" where
  "opt_ctx m v = (case v of None \<Rightarrow> bail m | Some a \<Rightarrow> Inr a)"

definition bindR :: "'a result \<Rightarrow> ('a \<Rightarrow> 'b result) \<Rightarrow> 'b result" where
  "bindR r f = (case r of Inl e \<Rightarrow> Inl e | Inr a \<Rightarrow> f a)"

text \<open>\<open>Option<Result<T>>::transpose\<close> after a \<open>map\<close>.\<close>

definition transpose_map :: "('a \<Rightarrow> 'b result) \<Rightarrow> 'a option \<Rightarrow> 'b option result" where
  "transpose_map f v = (case v of None \<Rightarrow> Inr None | Some a \<Rightarrow> bindR (f a) (\<lambda>b. Inr (Some b)))"

text \<open>\<open>iter().collect::<Result<Vec<_>>>()\<close>: the first error wins.\<close>

fun collectR :: "'a result list \<Rightarrow> 'a list result" where
  "collectR [] = Inr []"
| "collectR (r # rs) = bindR r (\<lambda>a. bindR (collectR rs) (\<lambda>as. Inr (a # as)))"

definition is_ok :: "'a result \<Rightarrow> bool" where
  "is_ok r = (case r of Inl _ \<Rightarrow> False | Inr _ \<Rightarrow> True)"

definition unwrap_or :: "'a result \<Rightarrow> 'a \<Rightarrow> 'a" where
  "unwrap_or r d = (case r of Inl _ \<Rightarrow> d | Inr a \<Rightarrow> a)"

definition ok_option :: "'a result \<Rightarrow> 'a option" where
  "ok_option r = (case r of Inl _ \<Rightarrow> None | Inr a \<Rightarrow> Some a)"

section \<open>Fact collections\<close>

named_theorems result_simps \<open>computing with results\<close>
named_theorems act_simps \<open>computing with stateful actions\<close>
named_theorems spec_intros \<open>composition rules of the event discipline\<close>

lemma bail_neq [simp]: "bail m \<noteq> Inr a" "Inr a \<noteq> bail m"
  by (simp_all add: bail_def)

lemma bindR_simps [simp]: "bindR (Inl e) f = Inl e" "bindR (Inr a) f = f a" "bindR (bail m) f = bail m"
  by (simp_all add: bindR_def bail_def)

lemma bindR_Inr: "bindR r f = Inr b \<longleftrightarrow> (\<exists>a. r = Inr a \<and> f a = Inr b)"
  by (cases r) simp_all

lemma bindR_assoc: "bindR (bindR r f) g = bindR r (\<lambda>a. bindR (f a) g)"
  by (cases r) simp_all

lemma ctx_simps [simp]: "ctx c (Inr a) = Inr a" "ctx c (Inl e) = Inl (add_context c e)"
  by (simp_all add: ctx_def)

lemma ctxs_simps [simp]: "ctxs c (Inr a) = Inr a" "ctxs c (Inl m) = Inl (Anyhow c [m])"
  by (simp_all add: ctxs_def lift_err_def add_context_def anyhow_msg_def)

lemma ctx_Inr [simp]: "ctx c r = Inr a \<longleftrightarrow> r = Inr a"
  by (cases r) simp_all

lemma ctxs_Inr [simp]: "ctxs c r = Inr a \<longleftrightarrow> r = Inr a"
  by (cases r) simp_all

lemma lift_err_simps [simp]: "lift_err (Inr a) = Inr a" "lift_err (Inl m) = Inl (anyhow_msg m)"
  by (simp_all add: lift_err_def)

lemma lift_err_Inr [simp]: "lift_err r = Inr a \<longleftrightarrow> r = Inr a"
  by (cases r) simp_all

lemma opt_ctx_simps [simp]: "opt_ctx m None = bail m" "opt_ctx m (Some a) = Inr a"
  by (simp_all add: opt_ctx_def)

lemma unwrap_or_simps [simp]: "unwrap_or (Inr a) d = a" "unwrap_or (Inl e) d = d"
  by (simp_all add: unwrap_or_def)

lemma ok_option_simps [simp]: "ok_option (Inr a) = Some a" "ok_option (Inl e) = None"
  by (simp_all add: ok_option_def)

lemma is_ok_simps [simp]: "is_ok (Inr a)" "\<not> is_ok (Inl e)"
  by (simp_all add: is_ok_def)

lemma is_okE: "is_ok r \<Longrightarrow> (\<And>a. r = Inr a \<Longrightarrow> P) \<Longrightarrow> P"
  by (cases r) auto

lemma transpose_map_simps [simp]:
  "transpose_map f None = Inr None"
  "transpose_map f (Some a) = bindR (f a) (\<lambda>b. Inr (Some b))"
  by (simp_all add: transpose_map_def)

lemma collectR_Inr: "collectR rs = Inr as \<longleftrightarrow> rs = map Inr as"
  by (induction rs arbitrary: as) (auto simp: bindR_Inr)

lemma map_Inr_eq: "map Inr xs = map Inr ys \<longleftrightarrow> xs = ys"
  by (simp add: inj_map_eq_map)

lemmas result_basics [result_simps] =
  bindR_Inr collectR_Inr bail_def anyhow_msg_def add_context_def

section \<open>Stateful actions\<close>

type_synonym ('s, 'a) act = "'s \<Rightarrow> 'a result \<times> 's"

definition ret :: "'a \<Rightarrow> ('s, 'a) act" where
  "ret a s = (Inr a, s)"

definition fail :: "anyhow \<Rightarrow> ('s, 'a) act" where
  "fail e s = (Inl e, s)"

definition bindA :: "('s, 'a) act \<Rightarrow> ('a \<Rightarrow> ('s, 'b) act) \<Rightarrow> ('s, 'b) act" where
  "bindA m f s = (case m s of (Inl e, s') \<Rightarrow> (Inl e, s') | (Inr a, s') \<Rightarrow> f a s')"

definition thenA :: "('s, 'a) act \<Rightarrow> ('s, 'b) act \<Rightarrow> ('s, 'b) act" where
  "thenA m n = bindA m (\<lambda>_. n)"

text \<open>Reading the state, a fallible pure step, a fallible update that keeps the old
  state when it fails, and an update that cannot fail.\<close>

definition getA :: "('s \<Rightarrow> 'a) \<Rightarrow> ('s, 'a) act" where
  "getA f s = (Inr (f s), s)"

definition liftA :: "'a result \<Rightarrow> ('s, 'a) act" where
  "liftA r s = (r, s)"

definition modA :: "('s \<Rightarrow> 's) \<Rightarrow> ('s, unit) act" where
  "modA f s = (Inr (), f s)"

definition updA :: "('s \<Rightarrow> 's result) \<Rightarrow> ('s, unit) act" where
  "updA f s = (case f s of Inl e \<Rightarrow> (Inl e, s) | Inr s' \<Rightarrow> (Inr (), s'))"

text \<open>A read-only query that may fail, and a step that returns a value with the new state.\<close>

definition queryA :: "('s \<Rightarrow> 'a result) \<Rightarrow> ('s, 'a) act" where
  "queryA f s = (f s, s)"

definition stepA :: "('s \<Rightarrow> ('a \<times> 's) result) \<Rightarrow> ('s, 'a) act" where
  "stepA f s = (case f s of Inl e \<Rightarrow> (Inl e, s) | Inr (a, s') \<Rightarrow> (Inr a, s'))"

fun forA :: "'a list \<Rightarrow> ('a \<Rightarrow> ('s, unit) act) \<Rightarrow> ('s, unit) act" where
  "forA [] f = ret ()"
| "forA (x # xs) f = thenA (f x) (forA xs f)"

definition ctxA :: "string \<Rightarrow> ('s, 'a) act \<Rightarrow> ('s, 'a) act" where
  "ctxA c m s = (case m s of (r, s') \<Rightarrow> (ctx c r, s'))"

lemma act_apply [act_simps]:
  "ret a s = (Inr a, s)" "fail e s = (Inl e, s)" "getA g s = (Inr (g s), s)"
  "liftA r s = (r, s)" "modA h s = (Inr (), h s)"
  by (simp_all add: ret_def fail_def getA_def liftA_def modA_def)

lemma bindA_eq_Inr:
  "bindA m f s = (Inr b, s'') \<longleftrightarrow> (\<exists>a s'. m s = (Inr a, s') \<and> f a s' = (Inr b, s''))"
  by (auto simp: bindA_def split: prod.splits sum.splits)

lemma bindA_eq_Inl:
  "bindA m f s = (Inl e, s'') \<longleftrightarrow>
     m s = (Inl e, s'') \<or> (\<exists>a s'. m s = (Inr a, s') \<and> f a s' = (Inl e, s''))"
  by (auto simp: bindA_def split: prod.splits sum.splits)

lemma bindA_run [act_simps]:
  "m s = (Inr a, s') \<Longrightarrow> bindA m f s = f a s'"
  "m s = (Inl e, s') \<Longrightarrow> bindA m f s = (Inl e, s')"
  by (simp_all add: bindA_def)

lemma bindA_step [act_simps]:
  "bindA (ret a) f s = f a s" "bindA (fail e) f s = (Inl e, s)"
  "bindA (getA g) f s = f (g s) s" "bindA (modA h) f s = f () (h s)"
  "bindA (liftA (Inr a)) f s = f a s" "bindA (liftA (Inl e)) f s = (Inl e, s)"
  by (simp_all add: bindA_def act_simps)

lemma bindA_getA: "bindA (getA g) f s = f (g s) s"
  by (simp add: bindA_def act_apply)

lemma thenA_run [act_simps]:
  "m s = (Inr a, s') \<Longrightarrow> thenA m n s = n s'"
  "m s = (Inl e, s') \<Longrightarrow> thenA m n s = (Inl e, s')"
  by (simp_all add: thenA_def act_simps)

lemma thenA_step [act_simps]:
  "thenA (ret a) n s = n s" "thenA (fail e) n s = (Inl e, s)"
  "thenA (modA h) n s = n (h s)"
  by (simp_all add: thenA_def act_simps)

lemma updA_run [act_simps]:
  "f s = Inr s' \<Longrightarrow> updA f s = (Inr (), s')"
  "f s = Inl e \<Longrightarrow> updA f s = (Inl e, s)"
  by (simp_all add: updA_def)

lemma ctxA_run [act_simps]: "m s = (r, s') \<Longrightarrow> ctxA c m s = (ctx c r, s')"
  by (simp add: ctxA_def)

lemma bindA_ctxA: "m s = (Inr a, s') \<Longrightarrow> bindA (ctxA c m) f s = f a s'"
  by (simp add: bindA_def ctxA_def)

lemma queryA_run [act_simps]: "queryA f s = (f s, s)"
  by (simp add: queryA_def)

lemma stepA_run [act_simps]:
  "f s = Inr (a, s') \<Longrightarrow> stepA f s = (Inr a, s')"
  "f s = Inl e \<Longrightarrow> stepA f s = (Inl e, s)"
  by (simp_all add: stepA_def)

lemma updA_Inr: "updA f s = (Inr a, s') \<longleftrightarrow> f s = Inr s'"
  by (auto simp: updA_def split: sum.splits)

lemma updA_Inl: "updA f s = (Inl e, s') \<longleftrightarrow> f s = Inl e \<and> s' = s"
  by (auto simp: updA_def split: sum.splits)

lemma stepA_Inr: "stepA f s = (Inr a, s') \<longleftrightarrow> f s = Inr (a, s')"
  by (auto simp: stepA_def split: sum.splits)

lemma thenA_eq_Inr:
  "thenA m n s = (Inr b, s'') \<longleftrightarrow> (\<exists>a s'. m s = (Inr a, s') \<and> n s' = (Inr b, s''))"
  by (simp add: thenA_def bindA_eq_Inr)

lemmas act_Inr = bindA_eq_Inr thenA_eq_Inr updA_Inr stepA_Inr queryA_run act_apply

lemma forA_append: "forA (xs @ ys) f s = thenA (forA xs f) (forA ys f) s"
  by (induction xs arbitrary: s)
    (auto simp: thenA_def bindA_def ret_def split: prod.splits sum.splits)

section \<open>Relations an action stays in\<close>

text \<open>Many facts about an action say that the state it leaves is related to the state it
  found by a fixed preorder, whether it succeeds or fails.  The locale proves once how
  such facts compose; each relation of interest is an interpretation.\<close>

definition stays :: "('s \<Rightarrow> 's \<Rightarrow> bool) \<Rightarrow> ('s, 'a) act \<Rightarrow> bool" where
  "stays rel m \<longleftrightarrow> (\<forall>s. rel s (snd (m s)))"

locale act_preorder =
  fixes rel :: "'s \<Rightarrow> 's \<Rightarrow> bool"
  assumes rel_refl: "rel s s"
    and rel_trans: "rel s t \<Longrightarrow> rel t u \<Longrightarrow> rel s u"
begin

lemma stays_pure: "stays rel (ret a)" "stays rel (fail e)" "stays rel (liftA r)"
  "stays rel (getA f)" "stays rel (queryA g)"
  by (simp_all add: stays_def act_apply queryA_def rel_refl)

lemma rel_bind:
  assumes "rel s (snd (m s))" "\<And>a t. m s = (Inr a, t) \<Longrightarrow> rel t (snd (f a t))"
  shows "rel s (snd (bindA m f s))"
  using assms rel_trans by (cases "m s"; cases "fst (m s)") (fastforce simp: bindA_def)+

lemma rel_then:
  "rel s (snd (m s)) \<Longrightarrow> (\<And>a t. m s = (Inr a, t) \<Longrightarrow> rel t (snd (n t))) \<Longrightarrow> rel s (snd (thenA m n s))"
  unfolding thenA_def by (rule rel_bind)

lemma stays_bind: "stays rel m \<Longrightarrow> (\<And>a. stays rel (f a)) \<Longrightarrow> stays rel (bindA m f)"
  by (simp add: stays_def rel_bind)

lemma stays_rel: "stays rel m \<Longrightarrow> rel s (snd (m s))"
  by (simp add: stays_def)

lemma stays_then: "stays rel m \<Longrightarrow> stays rel n \<Longrightarrow> stays rel (thenA m n)"
  unfolding thenA_def by (rule stays_bind)

lemma stays_split:
  "(b \<Longrightarrow> stays rel m) \<Longrightarrow> (\<not> b \<Longrightarrow> stays rel n) \<Longrightarrow> stays rel (if b then m else n)"
  "(\<And>x y. stays rel (g x y)) \<Longrightarrow> stays rel (case pr of (x, y) \<Rightarrow> g x y)"
  "stays rel n0 \<Longrightarrow> (\<And>x. stays rel (h x)) \<Longrightarrow> stays rel (case v of None \<Rightarrow> n0 | Some x \<Rightarrow> h x)"
  "stays rel n0 \<Longrightarrow> (\<And>x xs. stays rel (k x xs)) \<Longrightarrow> stays rel (case l of [] \<Rightarrow> n0 | x # xs \<Rightarrow> k x xs)"
  by (auto split: prod.split option.split list.split)

lemma stays_let: "(\<And>x. stays rel (f x)) \<Longrightarrow> stays rel (let x = t in f x)"
  by simp

lemma stays_for: "(\<And>x. x \<in> set xs \<Longrightarrow> stays rel (f x)) \<Longrightarrow> stays rel (forA xs f)"
  by (induction xs) (auto intro: stays_pure stays_then)

lemma stays_bind_lift: "(\<And>a. r = Inr a \<Longrightarrow> stays rel (f a)) \<Longrightarrow> stays rel (bindA (liftA r) f)"
  by (cases r) (simp_all add: stays_def bindA_def act_apply rel_refl)

lemmas stays_rules = stays_pure stays_bind stays_then stays_split stays_let stays_for

lemma stays_state: "stays rel m \<Longrightarrow> m s = (r, t) \<Longrightarrow> rel s t"
  unfolding stays_def by (metis snd_conv)

end

section \<open>Lists and strings\<close>

text \<open>\<open>Iterator::position\<close>, \<open>slice::join\<close>.\<close>

fun position :: "('a \<Rightarrow> bool) \<Rightarrow> 'a list \<Rightarrow> nat option" where
  "position P [] = None"
| "position P (x # xs) = (if P x then Some 0 else map_option Suc (position P xs))"

lemma position_append_hit:
  "(\<forall>x \<in> set xs. \<not> P x) \<Longrightarrow> P y \<Longrightarrow> position P (xs @ y # ys) = Some (length xs)"
  by (induction xs) auto

lemma position_Some:
  "position P xs = Some i \<Longrightarrow> i < length xs \<and> P (xs ! i) \<and> (\<forall>j < i. \<not> P (xs ! j))"
proof (induction xs arbitrary: i)
  case Nil
  then show ?case by simp
next
  case (Cons x xs)
  show ?case
  proof (cases "P x")
    case True
    with Cons.prems show ?thesis by simp
  next
    case False
    with Cons.prems obtain k where k: "position P xs = Some k" "i = Suc k" by auto
    have "\<not> P ((x # xs) ! j)" if "j < i" for j
      using that k Cons.IH[OF k(1)] False by (cases j) auto
    with Cons.IH[OF k(1)] k(2) show ?thesis by auto
  qed
qed

fun join_str :: "string \<Rightarrow> string list \<Rightarrow> string" where
  "join_str sep [] = []"
| "join_str sep [s] = s"
| "join_str sep (s # t # ts) = s @ sep @ join_str sep (t # ts)"

text \<open>The dash that the program's messages use, in UTF-8.\<close>

definition em_dash :: string where
  "em_dash = [CHR 0xE2, CHR 0x80, CHR 0x94]"

definition quoted :: "string \<Rightarrow> string" where
  "quoted s = [CHR 0x27] @ s @ [CHR 0x27]"

end
