(* ===== verification/Bytes.thy ===== *)
theory Bytes
  imports Prelude "HOL-Library.Word"
begin

text \<open>
  Machine integers and byte arrays: \<open>u8\<close>, \<open>u16\<close>, \<open>u32\<close>, \<open>u64\<close> as words,
  \<open>to_le_bytes\<close>/\<open>from_le_bytes\<close>, the 32-byte arrays that name peers and blobs (an
  \<open>[u8; 32]\<close> is a 256-bit word, so its length is in the type), and \<open>read_exact\<close> on a
  byte stream.
\<close>

unbundle bit_operations_syntax

type_synonym byte = "8 word"
type_synonym u16 = "16 word"
type_synonym u32 = "32 word"
type_synonym u64 = "64 word"
type_synonym usize = "64 word"
type_synonym bytes32 = "256 word"

fun le_bytes :: "nat \<Rightarrow> 'a::len word \<Rightarrow> byte list" where
  "le_bytes 0 w = []"
| "le_bytes (Suc n) w = ucast w # le_bytes n (drop_bit 8 w)"

fun le_word :: "byte list \<Rightarrow> 'a::len word" where
  "le_word [] = 0"
| "le_word (b # bs) = ucast b OR push_bit 8 (le_word bs)"

lemma length_le_bytes [simp]: "length (le_bytes n w) = n"
  by (induction n arbitrary: w) auto

lemma le_word_le_bytes_take: "(le_word (le_bytes n w) :: 'a::len word) = take_bit (8 * n) (w :: 'a word)"
proof (induction n arbitrary: w)
  case 0
  show ?case by simp
next
  case (Suc n)
  show ?case
    by (rule bit_eqI)
      (auto simp: Suc bit_or_iff bit_push_bit_iff bit_take_bit_iff bit_ucast_iff bit_drop_bit_eq
        dest: bit_imp_le_length)
qed

lemma le_word_le_bytes:
  "LENGTH('a) \<le> 8 * n \<Longrightarrow> le_word (le_bytes n w) = (w :: 'a::len word)"
  by (simp add: le_word_le_bytes_take take_bit_word_eq_self)

lemma le_bytes_le_word:
  "8 * length bs \<le> LENGTH('a) \<Longrightarrow> le_bytes (length bs) (le_word bs :: 'a::len word) = bs"
proof (induction bs)
  case Nil
  show ?case by simp
next
  case (Cons b bs)
  let ?v = "le_word bs :: 'a word"
  from Cons.prems have len: "8 + 8 * length bs \<le> LENGTH('a)" by simp
  have low: "ucast (ucast b OR push_bit 8 ?v) = b"
    using len by (intro bit_eqI)
      (auto simp: bit_or_iff bit_push_bit_iff bit_ucast_iff dest: bit_imp_le_length)
  have "le_bytes (length bs) (drop_bit 8 (ucast b OR push_bit 8 ?v)) = bs"
  proof -
    have high: "take_bit (8 * length bs) (drop_bit 8 (ucast b OR push_bit 8 ?v))
        = take_bit (8 * length bs) ?v"
      using len by (intro bit_eqI)
        (auto simp: bit_or_iff bit_push_bit_iff bit_ucast_iff bit_take_bit_iff bit_drop_bit_eq
          dest: bit_imp_le_length)
    have le_take: "le_bytes n u = le_bytes n (take_bit (8 * n) u)" for n and u :: "'a word"
    proof (induction n arbitrary: u)
      case 0
      show ?case by simp
    next
      case (Suc n)
      have "ucast (take_bit (8 * Suc n) u) = (ucast u :: byte)"
        by (intro bit_eqI) (auto simp: bit_ucast_iff bit_take_bit_iff dest: bit_imp_le_length)
      moreover have "drop_bit 8 (take_bit (8 * Suc n) u) = take_bit (8 * n) (drop_bit 8 u)"
        by (simp add: drop_bit_take_bit)
      ultimately show ?case
        using Suc[of "drop_bit 8 u"] Suc[of "drop_bit 8 (take_bit (8 * Suc n) u)"] by simp
    qed
    show ?thesis
      using Cons.IH len le_take[of "length bs" "drop_bit 8 (ucast b OR push_bit 8 ?v)"]
        le_take[of "length bs" ?v] high by simp
  qed
  with low show ?case by simp
qed

section \<open>Integers at their width\<close>

definition u64_max :: nat where
  "u64_max = 2 ^ 64 - 1"

text \<open>\<open>u16::try_from(usize)\<close> and \<open>u64::checked_mul\<close>.\<close>

definition u16_try_from :: "nat \<Rightarrow> u16 option" where
  "u16_try_from n = (if n < 2 ^ 16 then Some (of_nat n) else None)"

definition checked_mul_u64 :: "nat \<Rightarrow> nat \<Rightarrow> nat option" where
  "checked_mul_u64 a b = (if a * b < 2 ^ 64 then Some (a * b) else None)"

lemma u16_try_from_Some: "u16_try_from n = Some w \<longleftrightarrow> n < 65536 \<and> w = of_nat n"
  by (auto simp: u16_try_from_def)

lemma unat_u16_try_from: "u16_try_from n = Some w \<Longrightarrow> unat w = n"
  by (auto simp: u16_try_from_def unat_of_nat split: if_splits)

section \<open>Fixed arrays of 32 bytes\<close>

definition as_bytes :: "bytes32 \<Rightarrow> byte list" where
  "as_bytes w = le_bytes 32 w"

definition from_bytes :: "byte list \<Rightarrow> bytes32 option" where
  "from_bytes bs = (if length bs = 32 then Some (le_word bs) else None)"

lemma length_as_bytes [simp]: "length (as_bytes w) = 32"
  by (simp add: as_bytes_def)

lemma from_bytes_as_bytes [simp]: "from_bytes (as_bytes w) = Some w"
proof -
  have "le_word (le_bytes 32 w) = w" by (rule le_word_le_bytes) simp
  then show ?thesis by (simp add: from_bytes_def as_bytes_def)
qed

lemma from_bytes_Some: "from_bytes bs = Some w \<longleftrightarrow> bs = as_bytes w"
proof
  assume "from_bytes bs = Some w"
  then have len: "length bs = 32" and w: "w = le_word bs"
    by (auto simp: from_bytes_def split: if_splits)
  have "le_bytes (length bs) (le_word bs :: bytes32) = bs"
    by (rule le_bytes_le_word) (simp add: len)
  then show "bs = as_bytes w" by (simp add: as_bytes_def len w)
next
  assume "bs = as_bytes w"
  then show "from_bytes bs = Some w" by simp
qed

lemma as_bytes_inject [simp]: "as_bytes v = as_bytes w \<longleftrightarrow> v = w"
  by (metis from_bytes_Some option.inject)

text \<open>The identities the program passes around: an \<open>EndpointId\<close> (an Ed25519 public key)
  names a peer, a BLAKE3 \<open>Hash\<close> names a blob.\<close>

datatype endpoint_id = EndpointId (id_word: bytes32)
datatype blob_hash = Hash (hash_word: bytes32)

definition id_bytes :: "endpoint_id \<Rightarrow> byte list" where
  "id_bytes p = as_bytes (id_word p)"

definition hash_bytes :: "blob_hash \<Rightarrow> byte list" where
  "hash_bytes h = as_bytes (hash_word h)"

lemma length_id_bytes [simp]: "length (id_bytes p) = 32"
  by (simp add: id_bytes_def)

lemma length_hash_bytes [simp]: "length (hash_bytes h) = 32"
  by (simp add: hash_bytes_def)

lemma id_bytes_inject [simp]: "id_bytes p = id_bytes q \<longleftrightarrow> p = q"
  by (cases p; cases q) (simp add: id_bytes_def)

lemma hash_bytes_inject [simp]: "hash_bytes h = hash_bytes g \<longleftrightarrow> h = g"
  by (cases h; cases g) (simp add: hash_bytes_def)

section \<open>Reading from a byte stream\<close>

text \<open>\<open>read_exact\<close> fills its buffer or fails when the stream ends first.  The state of
  the action is what is left of the stream.\<close>

definition read_exact :: "nat \<Rightarrow> (byte list, byte list) act" where
  "read_exact n bs = (if length bs < n then (bail ''early eof'', [])
     else (Inr (take n bs), drop n bs))"

lemma read_exact_append [simp]:
  "length xs = n \<Longrightarrow> read_exact n (xs @ ys) = (Inr xs, ys)"
  by (simp add: read_exact_def)

lemma read_exact_rest: "read_exact n bs = (r, rest) \<Longrightarrow> length rest \<le> length bs"
  by (auto simp: read_exact_def split: if_splits)

end
