(* ===== verification/Protocol.thy ===== *)
theory Protocol
  imports Bytes
begin

text \<open>
  \<open>src/src/daemon/protocol.rs\<close>: the requests of the command line client and the events
  the daemon streams back.  The event discipline that the file documents (every request
  is answered by events with its id, the last one and only the last one is \<open>Done\<close> or
  \<open>Error\<close>) is the predicate \<open>complete_reply\<close>; it is proved of every operation in the
  theory \<open>Server\<close>.
\<close>

type_synonym uuid = "128 word"

definition uuid_nil :: uuid where "uuid_nil = 0"

text \<open>A \<open>serde_json::Value\<close>, as far as the program builds one.\<close>

datatype json = JNull | JBool bool | JNum nat | JStr string | JArr "json list" | JObj "(string \<times> json) list"

definition json_opt :: "('a \<Rightarrow> json) \<Rightarrow> 'a option \<Rightarrow> json" where
  "json_opt f v = (case v of None \<Rightarrow> JNull | Some a \<Rightarrow> f a)"

datatype op =
    NodeId bool
  | Import string "string list" bool
  | OpBlobList "string option" "string list option"
  | BlobRemove string
  | BlobAttach string "string list" bool
  | BlobDetach string "string list" bool bool
  | RingNew string
  | RingList
  | RingAdd string string "u64 option"
  | RingRemove string string
  | RingMembers string
  | Receive string "string option" bool
  | OpGrant string string
  | OpRevoke string string
  | OpGrants "string option" "string option"
  | RemoteBlobList string
  | PeerAdd string "string option"
  | PeerList
  | PeerRemove string
  | Shutdown

record request =
  rq_req_id :: uuid
  rq_op :: op

datatype event_kind =
    Line string
  | Progress u64 u64
  | FileProgress usize usize string u64 u64
  | Done
  | Error string
  | Record json

record event =
  ev_req_id :: uuid
  ev_kind :: event_kind

definition event_line :: "uuid \<Rightarrow> string \<Rightarrow> event" where
  "event_line req_id txt = \<lparr>ev_req_id = req_id, ev_kind = Line txt\<rparr>"

definition event_blank :: "uuid \<Rightarrow> event" where
  "event_blank req_id = event_line req_id []"

definition event_progress :: "uuid \<Rightarrow> u64 \<Rightarrow> u64 \<Rightarrow> event" where
  "event_progress req_id n tot = \<lparr>ev_req_id = req_id, ev_kind = Progress n tot\<rparr>"

definition event_done :: "uuid \<Rightarrow> event" where
  "event_done req_id = \<lparr>ev_req_id = req_id, ev_kind = Done\<rparr>"

definition event_error :: "uuid \<Rightarrow> string \<Rightarrow> event" where
  "event_error req_id msg = \<lparr>ev_req_id = req_id, ev_kind = Error msg\<rparr>"

definition event_record :: "uuid \<Rightarrow> json \<Rightarrow> event" where
  "event_record req_id value = \<lparr>ev_req_id = req_id, ev_kind = Record value\<rparr>"

definition event_file_progress :: "uuid \<Rightarrow> usize \<Rightarrow> usize \<Rightarrow> string \<Rightarrow> u64 \<Rightarrow> u64 \<Rightarrow> event" where
  "event_file_progress req_id file_index file_total file_name n tot =
     \<lparr>ev_req_id = req_id, ev_kind = FileProgress file_index file_total file_name n tot\<rparr>"

section \<open>The event discipline\<close>

fun terminal_kind :: "event_kind \<Rightarrow> bool" where
  "terminal_kind Done = True"
| "terminal_kind (Error _) = True"
| "terminal_kind _ = False"

definition is_eos :: "event \<Rightarrow> bool" where
  "is_eos e \<longleftrightarrow> terminal_kind (ev_kind e)"

text \<open>Events that may precede the end of a reply, and a whole reply.\<close>

definition body_events :: "uuid \<Rightarrow> event list \<Rightarrow> bool" where
  "body_events req_id es \<longleftrightarrow> (\<forall>e \<in> set es. ev_req_id e = req_id \<and> \<not> is_eos e)"

definition complete_reply :: "uuid \<Rightarrow> event list \<Rightarrow> bool" where
  "complete_reply req_id es \<longleftrightarrow>
     (\<exists>body e. es = body @ [e] \<and> body_events req_id body \<and> ev_req_id e = req_id \<and> is_eos e)"

lemma event_simps [simp]:
  "ev_req_id (event_line q t) = q" "\<not> is_eos (event_line q t)"
  "ev_req_id (event_blank q) = q" "\<not> is_eos (event_blank q)"
  "ev_req_id (event_progress q n m) = q" "\<not> is_eos (event_progress q n m)"
  "ev_req_id (event_record q v) = q" "\<not> is_eos (event_record q v)"
  "ev_req_id (event_file_progress q i k f n m) = q" "\<not> is_eos (event_file_progress q i k f n m)"
  "ev_req_id (event_done q) = q" "is_eos (event_done q)"
  "ev_req_id (event_error q t) = q" "is_eos (event_error q t)"
  by (simp_all add: event_line_def event_blank_def event_progress_def event_record_def
      event_file_progress_def event_done_def event_error_def is_eos_def)

lemma body_events_simps [simp]:
  "body_events q []"
  "body_events q (e # es) \<longleftrightarrow> ev_req_id e = q \<and> \<not> is_eos e \<and> body_events q es"
  "body_events q (es @ fs) \<longleftrightarrow> body_events q es \<and> body_events q fs"
  by (auto simp: body_events_def)

lemma complete_replyI:
  "body_events q body \<Longrightarrow> ev_req_id e = q \<Longrightarrow> is_eos e \<Longrightarrow> complete_reply q (body @ [e])"
  unfolding complete_reply_def by blast

lemma complete_reply_unique:
  assumes "complete_reply q es"
  shows "\<exists>!i. i < length es \<and> is_eos (es ! i)"
proof -
  from assms obtain body e where es: "es = body @ [e]" and b: "body_events q body" and e: "is_eos e"
    by (auto simp: complete_reply_def)
  show ?thesis
  proof (rule ex1I[of _ "length body"])
    fix i assume i: "i < length es \<and> is_eos (es ! i)"
    show "i = length body"
    proof (rule ccontr)
      assume "i \<noteq> length body"
      with i es have "i < length body" by simp
      with es have "es ! i \<in> set body" by (simp add: nth_append)
      with b i show False by (auto simp: body_events_def)
    qed
  qed (simp add: es e)
qed

end
