(* ===== verification/Strings.thy ===== *)
theory Strings
  imports Bytes
begin

text \<open>
  Rust strings.  A \<open>String\<close> is its UTF-8 encoding, one \<open>char\<close> of HOL per byte, so
  \<open>length\<close> is \<open>str::len\<close> and \<open>as_bytes\<close> is a renaming.  The theory defines the
  parts of the standard library the program uses: decimal printing and parsing,
  \<open>trim\<close>, the check of \<open>String::from_utf8\<close>, and \<open>String::from_utf8_lossy\<close>.
\<close>

section \<open>Bytes of a string\<close>

definition byte_of_char :: "char \<Rightarrow> byte" where
  "byte_of_char c = word_of_nat (of_char c)"

definition char_of_byte :: "byte \<Rightarrow> char" where
  "char_of_byte b = char_of (unat b)"

definition str_bytes :: "string \<Rightarrow> byte list" where
  "str_bytes s = map byte_of_char s"

definition bytes_str :: "byte list \<Rightarrow> string" where
  "bytes_str bs = map char_of_byte bs"

lemma of_char_less: "(of_char c :: nat) < 256"
  by (metis char_of_char of_char_of mod_less_divisor zero_less_numeral)

lemma char_of_byte_of_char [simp]: "char_of_byte (byte_of_char c) = c"
  using of_char_less[of c]
  by (simp add: char_of_byte_def byte_of_char_def unat_of_nat)

lemma byte_of_char_of_byte [simp]: "byte_of_char (char_of_byte b) = b"
proof -
  have "unat b < 256" using unsigned_less[of b] by simp
  then show ?thesis by (simp add: char_of_byte_def byte_of_char_def)
qed

lemma bytes_str_str_bytes [simp]: "bytes_str (str_bytes s) = s"
  by (induction s) (simp_all add: bytes_str_def str_bytes_def)

lemma str_bytes_bytes_str [simp]: "str_bytes (bytes_str bs) = bs"
  by (induction bs) (simp_all add: bytes_str_def str_bytes_def)

lemma length_str_bytes [simp]: "length (str_bytes s) = length s"
  by (simp add: str_bytes_def)

lemma length_bytes_str [simp]: "length (bytes_str s) = length s"
  by (simp add: bytes_str_def)

lemma str_bytes_inject [simp]: "str_bytes s = str_bytes t \<longleftrightarrow> s = t"
  by (metis bytes_str_str_bytes)

lemma str_bytes_append [simp]: "str_bytes (s @ t) = str_bytes s @ str_bytes t"
  by (simp add: str_bytes_def)

section \<open>UTF-8\<close>

definition cont_byte :: "byte \<Rightarrow> bool" where
  "cont_byte b \<longleftrightarrow> 0x80 \<le> b \<and> b \<le> 0xBF"

text \<open>The admissible second byte after a given lead byte (Unicode, table 3-7).\<close>

definition second_ok :: "byte \<Rightarrow> byte \<Rightarrow> bool" where
  "second_ok a b =
     (if a = 0xE0 then 0xA0 \<le> b \<and> b \<le> 0xBF
      else if a = 0xED then 0x80 \<le> b \<and> b \<le> 0x9F
      else if a = 0xF0 then 0x90 \<le> b \<and> b \<le> 0xBF
      else if a = 0xF4 then 0x80 \<le> b \<and> b \<le> 0x8F
      else cont_byte b)"

definition seq_len :: "byte \<Rightarrow> nat" where
  "seq_len a = (if a \<le> 0x7F then 1
     else if 0xC2 \<le> a \<and> a \<le> 0xDF then 2
     else if 0xE0 \<le> a \<and> a \<le> 0xEF then 3
     else if 0xF0 \<le> a \<and> a \<le> 0xF4 then 4 else 0)"

text \<open>One step over a byte sequence: whether a well-formed character starts here, and
  how many bytes it (or the maximal ill-formed prefix) takes.\<close>

definition utf8_next :: "byte \<Rightarrow> byte list \<Rightarrow> bool \<times> nat" where
  "utf8_next a rest =
     (let n = seq_len a in
      if n = 0 then (False, 1)
      else if n = 1 then (True, 1)
      else (case rest of [] \<Rightarrow> (False, 1)
        | b # rest2 \<Rightarrow>
          if \<not> second_ok a b then (False, 1)
          else if n = 2 then (True, 2)
          else (case rest2 of [] \<Rightarrow> (False, 2)
            | c # rest3 \<Rightarrow>
              if \<not> cont_byte c then (False, 2)
              else if n = 3 then (True, 3)
              else (case rest3 of [] \<Rightarrow> (False, 3)
                | d # _ \<Rightarrow> if cont_byte d then (True, 4) else (False, 3)))))"

lemma utf8_next_pos: "utf8_next a rest = (ok, n) \<Longrightarrow> 0 < n"
  by (auto simp: utf8_next_def Let_def split: if_splits list.splits)

function utf8_valid :: "byte list \<Rightarrow> bool" where
  "utf8_valid [] = True"
| "utf8_valid (a # rest) =
     (case utf8_next a rest of (ok, n) \<Rightarrow> ok \<and> utf8_valid (drop (n - 1) rest))"
  by pat_completeness auto
termination by (relation "measure length") auto

function utf8_lossy_bytes :: "byte list \<Rightarrow> byte list" where
  "utf8_lossy_bytes [] = []"
| "utf8_lossy_bytes (a # rest) =
     (case utf8_next a rest of (ok, n) \<Rightarrow>
       (if ok then take n (a # rest) else [0xEF, 0xBF, 0xBD])
       @ utf8_lossy_bytes (drop (n - 1) rest))"
  by pat_completeness auto
termination by (relation "measure length") auto

definition from_utf8 :: "byte list \<Rightarrow> string + string" where
  "from_utf8 bs = (if utf8_valid bs then Inr (bytes_str bs) else Inl ''invalid utf-8 sequence'')"

definition from_utf8_lossy :: "byte list \<Rightarrow> string" where
  "from_utf8_lossy bs = bytes_str (utf8_lossy_bytes bs)"

lemma utf8_lossy_valid: "utf8_valid bs \<Longrightarrow> utf8_lossy_bytes bs = bs"
proof (induction bs rule: utf8_valid.induct)
  case 1
  show ?case by simp
next
  case (2 a rest)
  obtain ok n where on: "utf8_next a rest = (ok, n)" by (cases "utf8_next a rest")
  then have pos: "0 < n" by (rule utf8_next_pos)
  then obtain m where m: "n = Suc m" by (cases n) auto
  show ?case using 2 on m by simp
qed

lemma from_utf8_lossy_valid: "utf8_valid (str_bytes s) \<Longrightarrow> from_utf8_lossy (str_bytes s) = s"
  by (simp add: from_utf8_lossy_def utf8_lossy_valid)

lemma from_utf8_str [simp]: "utf8_valid (str_bytes s) \<Longrightarrow> from_utf8 (str_bytes s) = Inr s"
  by (simp add: from_utf8_def)

lemma from_utf8_Inr: "from_utf8 bs = Inr s \<longleftrightarrow> utf8_valid bs \<and> bs = str_bytes s"
  by (auto simp: from_utf8_def)

text \<open>A lossy conversion always ends in valid UTF-8.\<close>

lemma utf8_next_prefix:
  "utf8_next a rest = (True, n) \<Longrightarrow> utf8_next a (take (n - 1) rest @ xs) = (True, n)"
  by (auto simp: utf8_next_def Let_def split: if_splits list.splits)

lemma utf8_next_length: "utf8_next a rest = (True, n) \<Longrightarrow> n \<le> Suc (length rest)"
  by (auto simp: utf8_next_def Let_def split: if_splits list.splits)

lemma utf8_replacement: "utf8_valid ([0xEF, 0xBF, 0xBD] @ bs) = utf8_valid bs"
  by (simp add: utf8_next_def seq_len_def second_ok_def cont_byte_def)

lemma utf8_valid_lossy [simp]: "utf8_valid (utf8_lossy_bytes bs)"
proof (induction bs rule: utf8_lossy_bytes.induct)
  case 1
  show ?case by simp
next
  case (2 a rest)
  obtain ok n where on: "utf8_next a rest = (ok, n)" by (cases "utf8_next a rest")
  note ih = 2[OF on[symmetric]]
  show ?case
  proof (cases ok)
    case False
    with on ih show ?thesis using utf8_replacement by simp
  next
    case True
    with on have tr: "utf8_next a rest = (True, n)" by simp
    then obtain m where m: "n = Suc m" using utf8_next_pos by (cases n) auto
    have len: "m \<le> length rest" using utf8_next_length[OF tr] m by simp
    have "utf8_next a (take m rest @ utf8_lossy_bytes (drop m rest)) = (True, Suc m)"
      using utf8_next_prefix[OF tr, of "utf8_lossy_bytes (drop m rest)"] m by simp
    with tr m len ih show ?thesis by simp
  qed
qed

lemma from_utf8_lossy_utf8 [simp]: "utf8_valid (str_bytes (from_utf8_lossy bs))"
  by (simp add: from_utf8_lossy_def)

definition ascii :: "string \<Rightarrow> bool" where
  "ascii s \<longleftrightarrow> (\<forall>c \<in> set s. (of_char c :: nat) < 128)"

lemma ascii_utf8: "ascii s \<Longrightarrow> utf8_valid (str_bytes s)"
proof (induction s)
  case Nil
  show ?case by (simp add: str_bytes_def)
next
  case (Cons c s)
  then have "(of_char c :: nat) < 128" and "ascii s" by (simp_all add: ascii_def)
  then have "byte_of_char c \<le> 0x7F"
    by (simp add: byte_of_char_def word_le_nat_alt unat_of_nat)
  then have "utf8_next (byte_of_char c) (map byte_of_char s) = (True, 1)"
    by (simp add: utf8_next_def seq_len_def)
  with Cons.IH \<open>ascii s\<close> show ?case by (simp add: str_bytes_def)
qed

section \<open>Decimal numbers\<close>

definition digit_char :: "nat \<Rightarrow> char" where
  "digit_char d = char_of (48 + d)"

definition is_digit :: "char \<Rightarrow> bool" where
  "is_digit c \<longleftrightarrow> 48 \<le> (of_char c :: nat) \<and> (of_char c :: nat) \<le> 57"

definition digit_val :: "char \<Rightarrow> nat" where
  "digit_val c = of_char c - 48"

fun show_nat :: "nat \<Rightarrow> string" where
  "show_nat n = (if n < 10 then [digit_char n] else show_nat (n div 10) @ [digit_char (n mod 10)])"

declare show_nat.simps [simp del]

definition dec_val :: "string \<Rightarrow> nat" where
  "dec_val s = foldl (\<lambda>v c. 10 * v + digit_val c) 0 s"

text \<open>\<open>str::parse::<u64>\<close> on a string of digits: empty input and overflow are errors.\<close>

definition parse_u64 :: "string \<Rightarrow> nat option" where
  "parse_u64 s = (if s \<noteq> [] \<and> (\<forall>c \<in> set s. is_digit c) \<and> dec_val s < 2 ^ 64
     then Some (dec_val s) else None)"

lemma digit_char_props:
  "d < 10 \<Longrightarrow> is_digit (digit_char d)" "d < 10 \<Longrightarrow> digit_val (digit_char d) = d"
  by (simp_all add: is_digit_def digit_val_def digit_char_def)

lemma show_nat_digits: "c \<in> set (show_nat n) \<Longrightarrow> is_digit c"
proof (induction n rule: show_nat.induct)
  case (1 n)
  then show ?case
    by (auto simp: show_nat.simps[of n] digit_char_props split: if_splits)
qed

lemma show_nat_nonempty [simp]: "show_nat n \<noteq> []"
  by (subst show_nat.simps) simp

lemma length_show_nat: "length (show_nat n) \<le> n + 1"
proof (induction n rule: show_nat.induct)
  case (1 n)
  show ?case
  proof (cases "n < 10")
    case False
    then have "n div 10 + 2 \<le> n + 1" by simp
    with 1[OF False] False show ?thesis by (simp add: show_nat.simps[of n])
  qed (simp add: show_nat.simps[of n])
qed

lemma dec_val_show_nat [simp]: "dec_val (show_nat n) = n"
proof (induction n rule: show_nat.induct)
  case (1 n)
  show ?case
  proof (cases "n < 10")
    case True
    then show ?thesis
      by (simp add: show_nat.simps[of n] dec_val_def digit_char_props)
  next
    case False
    with 1 show ?thesis
      by (simp add: show_nat.simps[of n] dec_val_def digit_char_props)
  qed
qed

lemma parse_u64_show_nat [simp]: "n < 2 ^ 64 \<Longrightarrow> parse_u64 (show_nat n) = Some n"
  by (auto simp: parse_u64_def dest: show_nat_digits)

lemma show_nat_inject [simp]: "show_nat m = show_nat n \<longleftrightarrow> m = n"
  by (metis dec_val_show_nat)

section \<open>Whitespace\<close>

text \<open>The characters with the property \<open>White_Space\<close>, as UTF-8 sequences.\<close>

definition white_space :: "string list" where
  "white_space = map (\<lambda>n. [char_of (n::nat)]) [9, 10, 11, 12, 13, 32]
     @ map (map (char_of :: nat \<Rightarrow> char))
        ([[0xC2, 0x85], [0xC2, 0xA0], [0xE1, 0x9A, 0x80],
         [0xE2, 0x80, 0xA8], [0xE2, 0x80, 0xA9], [0xE2, 0x80, 0xAF],
         [0xE2, 0x81, 0x9F], [0xE3, 0x80, 0x80]]
         @ map (\<lambda>i. [0xE2, 0x80, 0x80 + i]) [0..<11])"

fun strip_any :: "string list \<Rightarrow> string \<Rightarrow> string option" where
  "strip_any [] s = None"
| "strip_any (w # ws) s =
     (if w \<noteq> [] \<and> take (length w) s = w then Some (drop (length w) s) else strip_any ws s)"

lemma strip_any_shorter: "strip_any ws s = Some t \<Longrightarrow> length t < length s"
proof (induction ws)
  case Nil
  then show ?case by simp
next
  case (Cons w ws)
  show ?case
  proof (cases "w \<noteq> [] \<and> take (length w) s = w")
    case True
    then have "length w \<le> length s" "0 < length w"
      by (metis length_take min.cobounded1, simp)
    with True Cons.prems show ?thesis by (cases s) auto
  next
    case False
    with Cons show ?thesis by auto
  qed
qed

function trim_with :: "string list \<Rightarrow> string \<Rightarrow> string" where
  "trim_with ws s = (case strip_any ws s of None \<Rightarrow> s | Some t \<Rightarrow> trim_with ws t)"
  by pat_completeness auto
termination
  by (relation "measure (\<lambda>(ws, s). length s)") (auto dest: strip_any_shorter)

declare trim_with.simps [simp del]

definition trim :: "string \<Rightarrow> string" where
  "trim s = rev (trim_with (map rev white_space) (rev (trim_with white_space s)))"

lemma trim_with_id: "strip_any ws s = None \<Longrightarrow> trim_with ws s = s"
  by (simp add: trim_with.simps[of ws s])

lemma strip_any_None:
  "(\<And>w. w \<in> set ws \<Longrightarrow> w = [] \<or> take (length w) s \<noteq> w) \<Longrightarrow> strip_any ws s = None"
  by (induction ws) auto

lemma strip_any_first:
  assumes "s = c # t" and "\<And>w. w \<in> set ws \<Longrightarrow> w \<noteq> [] \<and> hd w \<noteq> c"
  shows "strip_any ws s = None"
proof (rule strip_any_None)
  fix w assume "w \<in> set ws"
  with assms(2) have "w \<noteq> []" "hd w \<noteq> c" by auto
  then show "w = [] \<or> take (length w) s \<noteq> w"
    using assms(1) by (cases w) auto
qed

text \<open>A string that starts with a digit and ends in a visible ASCII character is not
  changed by \<open>trim\<close>.\<close>

definition graphic :: "char \<Rightarrow> bool" where
  "graphic c \<longleftrightarrow> 33 \<le> (of_char c :: nat) \<and> (of_char c :: nat) \<le> 126"

lemma white_space_heads: "w \<in> set white_space \<Longrightarrow> w \<noteq> [] \<and> \<not> graphic (hd w) \<and> \<not> graphic (last w)"
  by (auto simp: white_space_def graphic_def upt_rec)

lemma trim_graphic:
  assumes "s \<noteq> []" "graphic (hd s)" "graphic (last s)"
  shows "trim s = s"
proof -
  from assms(1) obtain c t where s: "s = c # t" by (cases s) auto
  have "strip_any white_space s = None"
    using assms(2) s by (intro strip_any_first[OF s]) (auto dest: white_space_heads)
  then have front: "trim_with white_space s = s" by (rule trim_with_id)
  from assms(1) obtain c' t' where r: "rev s = c' # t'" by (cases "rev s") auto
  then have "c' = last s" by (metis assms(1) hd_rev list.sel(1))
  have "strip_any (map rev white_space) (rev s) = None"
  proof (rule strip_any_first[OF r])
    fix w assume "w \<in> set (map rev white_space)"
    then obtain v where "v \<in> set white_space" "w = rev v" by auto
    then show "w \<noteq> [] \<and> hd w \<noteq> c'"
      using white_space_heads[of v] assms(3) \<open>c' = last s\<close> by (auto simp: hd_rev)
  qed
  then have "trim_with (map rev white_space) (rev s) = rev s" by (rule trim_with_id)
  with front show ?thesis by (simp add: trim_def)
qed

end
