(* ===== verification/Iroh.thy ===== *)
theory Iroh
  imports Strings
begin

text \<open>
  The identities of the networking crates (\<open>iroh\<close>, \<open>iroh-blobs\<close>): printing and parsing
  of peer ids and blob hashes and the check that 32 bytes are an Ed25519 public key are
  outside the repository and a parameter (the record \<open>iroh\<close>).  The locale
  \<open>iroh_ids\<close> states what the program relies on: printing and parsing agree, and
  a parsed id is a valid key.  A node address is a data type of its own: the peer, its
  relay URLs and its direct addresses.
\<close>

record iroh =
  ir_parse_id :: "string \<Rightarrow> string + endpoint_id"
  ir_show_id :: "endpoint_id \<Rightarrow> string"
  ir_key :: "bytes32 \<Rightarrow> string + endpoint_id"
  ir_parse_hash :: "string \<Rightarrow> string + blob_hash"
  ir_show_hash :: "blob_hash \<Rightarrow> string"

definition valid_id :: "iroh \<Rightarrow> endpoint_id \<Rightarrow> bool" where
  "valid_id I p \<longleftrightarrow> ir_key I (id_word p) = Inr p"

locale iroh_ids =
  fixes I :: iroh
  assumes parse_valid: "ir_parse_id I s = Inr p \<Longrightarrow> valid_id I p"
    and parse_show_id: "valid_id I p \<Longrightarrow> ir_parse_id I (ir_show_id I p) = Inr p"
    and key_word: "ir_key I w = Inr p \<Longrightarrow> id_word p = w"
    and parse_show_hash: "ir_parse_hash I (ir_show_hash I h) = Inr h"
begin

lemma key_valid: "ir_key I w = Inr p \<Longrightarrow> valid_id I p"
  by (metis key_word valid_id_def)

lemma show_id_inject:
  assumes "valid_id I p" "valid_id I q" "ir_show_id I p = ir_show_id I q"
  shows "p = q"
  by (metis assms parse_show_id sum.inject(2))

lemma show_hash_inject: "ir_show_hash I g = ir_show_hash I h \<Longrightarrow> g = h"
  by (metis parse_show_hash sum.inject(2))

end

section \<open>Node addresses\<close>

record endpoint_addr =
  ea_id :: endpoint_id
  ea_relays :: "string list"
  ea_direct :: "string list"

definition addr_new :: "endpoint_id \<Rightarrow> endpoint_addr" where
  "addr_new p = \<lparr>ea_id = p, ea_relays = [], ea_direct = []\<rparr>"

text \<open>The addresses form a set: adding a relay URL twice adds it once.\<close>

definition with_relay_url :: "endpoint_addr \<Rightarrow> string \<Rightarrow> endpoint_addr" where
  "with_relay_url a u = (if u \<in> set (ea_relays a) then a else a\<lparr>ea_relays := ea_relays a @ [u]\<rparr>)"

section \<open>A reference instance: 64 hexadecimal digits\<close>

definition hex_digit :: "nat \<Rightarrow> char" where
  "hex_digit d = (if d < 10 then char_of (48 + d) else char_of (87 + d))"

definition hex_val :: "char \<Rightarrow> nat option" where
  "hex_val c = (let n = of_char c in
     if 48 \<le> n \<and> n \<le> 57 then Some (n - 48)
     else if 97 \<le> n \<and> n \<le> 102 then Some (n - 87) else None)"

fun hex_encode :: "byte list \<Rightarrow> string" where
  "hex_encode [] = []"
| "hex_encode (b # bs) = hex_digit (unat b div 16) # hex_digit (unat b mod 16) # hex_encode bs"

fun hex_decode :: "string \<Rightarrow> byte list option" where
  "hex_decode [] = Some []"
| "hex_decode [c] = None"
| "hex_decode (c # d # s) =
     (case (hex_val c, hex_val d, hex_decode s) of
       (Some x, Some y, Some bs) \<Rightarrow> Some (of_nat (16 * x + y) # bs)
     | _ \<Rightarrow> None)"

lemma hex_val_digit: "d < 16 \<Longrightarrow> hex_val (hex_digit d) = Some d"
  by (simp add: hex_val_def hex_digit_def Let_def)

lemma hex_decode_encode [simp]: "hex_decode (hex_encode bs) = Some bs"
proof (induction bs)
  case Nil
  show ?case by simp
next
  case (Cons b bs)
  have "unat b < 256" using unsigned_less[of b] by simp
  then have "unat b div 16 < 16" by simp
  with Cons show ?case by (simp add: hex_val_digit)
qed

lemma length_hex_encode [simp]: "length (hex_encode bs) = 2 * length bs"
  by (induction bs) auto

definition hex_word :: "string \<Rightarrow> string + bytes32" where
  "hex_word s = (case hex_decode s of None \<Rightarrow> Inl ''invalid hex''
     | Some bs \<Rightarrow> (case from_bytes bs of None \<Rightarrow> Inl ''invalid length'' | Some w \<Rightarrow> Inr w))"

definition hex_iroh :: iroh where
  "hex_iroh = \<lparr>
     ir_parse_id = (\<lambda>s. map_sum id EndpointId (hex_word s)),
     ir_show_id = (\<lambda>p. hex_encode (id_bytes p)),
     ir_key = (\<lambda>w. Inr (EndpointId w)),
     ir_parse_hash = (\<lambda>s. map_sum id Hash (hex_word s)),
     ir_show_hash = (\<lambda>h. hex_encode (hash_bytes h)) \<rparr>"

lemma hex_iroh_simps [simp]:
  "ir_parse_id hex_iroh s = map_sum id EndpointId (hex_word s)"
  "ir_show_id hex_iroh p = hex_encode (id_bytes p)"
  "ir_key hex_iroh w = Inr (EndpointId w)"
  "ir_parse_hash hex_iroh s = map_sum id Hash (hex_word s)"
  "ir_show_hash hex_iroh h = hex_encode (hash_bytes h)"
  by (simp_all add: hex_iroh_def)

lemma hex_word_encode [simp]: "hex_word (hex_encode (as_bytes w)) = Inr w"
  by (simp add: hex_word_def)

lemma valid_hex_id [simp]: "valid_id hex_iroh p"
  by (cases p) (simp add: valid_id_def)

interpretation hex: iroh_ids hex_iroh
proof unfold_locales
  fix p show "ir_parse_id hex_iroh (ir_show_id hex_iroh p) = Inr p"
    by (cases p) (simp add: id_bytes_def)
next
  fix h show "ir_parse_hash hex_iroh (ir_show_hash hex_iroh h) = Inr h"
    by (cases h) (simp add: hash_bytes_def)
qed auto

end
