(* ===== verification/Util.thy ===== *)
theory Util
  imports Iroh
begin

text \<open>
  \<open>src/src/util.rs\<close>: argument parsers and display helpers shared by the daemon and the
  command line.  Durations are seconds and nanoseconds; \<open>u64\<close> values are naturals with
  the checks the code makes written out; \<open>f64\<close> is modelled as far as \<open>format_size\<close>
  uses it (rounding of a \<open>u64\<close> to 53 significant bits, exact division by a power of two,
  printing with one decimal, ties to even).
\<close>

record duration =
  d_secs :: nat
  d_nanos :: nat

definition from_secs :: "nat \<Rightarrow> duration" where
  "from_secs n = \<lparr>d_secs = n, d_nanos = 0\<rparr>"

section \<open>Identities and addresses\<close>

definition parse_peer_id :: "iroh \<Rightarrow> string \<Rightarrow> endpoint_id result" where
  "parse_peer_id I s = (case ir_parse_id I s of
     Inl e \<Rightarrow> bail (''invalid peer id: '' @ e) | Inr p \<Rightarrow> Inr p)"

definition parse_hash :: "iroh \<Rightarrow> string \<Rightarrow> blob_hash result" where
  "parse_hash I s = (case ir_parse_hash I s of
     Inl e \<Rightarrow> bail (''invalid hash: '' @ e) | Inr h \<Rightarrow> Inr h)"

definition relay_only_addr :: "endpoint_addr \<Rightarrow> endpoint_addr" where
  "relay_only_addr full = foldl with_relay_url (addr_new (ea_id full)) (ea_relays full)"

definition format_peer_entry :: "iroh \<Rightarrow> endpoint_id \<Rightarrow> string option \<Rightarrow> string" where
  "format_peer_entry I peer nick = (case nick of
     Some n \<Rightarrow> ir_show_id I peer @ ''  ('' @ n @ '')''
   | None \<Rightarrow> ir_show_id I peer)"

lemma parse_peer_id_Inr [simp]: "parse_peer_id I s = Inr p \<longleftrightarrow> ir_parse_id I s = Inr p"
  by (auto simp: parse_peer_id_def split: sum.splits)

lemma parse_hash_Inr [simp]: "parse_hash I s = Inr h \<longleftrightarrow> ir_parse_hash I s = Inr h"
  by (auto simp: parse_hash_def split: sum.splits)

lemma foldl_with_relay_url:
  "ea_id (foldl with_relay_url a us) = ea_id a
   \<and> ea_direct (foldl with_relay_url a us) = ea_direct a
   \<and> set (ea_relays (foldl with_relay_url a us)) = set (ea_relays a) \<union> set us"
  by (induction us arbitrary: a) (auto simp: with_relay_url_def)

lemma foldl_with_relay_url_distinct:
  "distinct (ea_relays a @ us) \<Longrightarrow> ea_relays (foldl with_relay_url a us) = ea_relays a @ us"
  by (induction us arbitrary: a) (auto simp: with_relay_url_def)

lemma relay_only_addr_fields [simp]:
  "ea_id (relay_only_addr a) = ea_id a" "ea_direct (relay_only_addr a) = []"
  "set (ea_relays (relay_only_addr a)) = set (ea_relays a)"
  by (simp_all add: relay_only_addr_def foldl_with_relay_url addr_new_def)

section \<open>Durations\<close>

definition duration_units :: "(string \<times> nat) list" where
  "duration_units = [(''s'', 1), (''m'', 60), (''h'', 3600), (''d'', 86400), (''w'', 604800)]"

definition parse_duration :: "string \<Rightarrow> duration result" where
  "parse_duration s0 =
     (let s = trim s0; number = takeWhile is_digit s; unit = dropWhile is_digit s in
      if unit = [] then bail (''missing unit in '' @ quoted s @ '' (use s, m, h, d or w)'')
      else (case parse_u64 number of
        None \<Rightarrow> bail (''invalid duration '' @ quoted s @ '': expected e.g. 30m, 12h, 7d'')
      | Some value \<Rightarrow>
          if value = 0 then bail ''duration must be greater than zero''
          else (case map_of duration_units unit of
            None \<Rightarrow> bail (''unknown duration unit '' @ quoted unit @ '' (use s, m, h, d or w)'')
          | Some unit_secs \<Rightarrow>
              (case checked_mul_u64 value unit_secs of
                None \<Rightarrow> bail (''duration '' @ quoted s @ '' is too large'')
              | Some secs \<Rightarrow> Inr (from_secs secs)))))"

definition remaining_units :: "(nat \<times> string) list" where
  "remaining_units = [(86400, ''d''), (3600, ''h''), (60, ''m''), (1, ''s'')]"

definition format_remaining :: "duration \<Rightarrow> string" where
  "format_remaining remaining =
     (let secs = d_secs remaining in
      case position (\<lambda>(unit_secs, _). unit_secs \<le> secs) remaining_units of
        None \<Rightarrow> ''0s''
      | Some major \<Rightarrow>
          (let (major_secs, major_suffix) = remaining_units ! major;
               major_part = show_nat (secs div major_secs) @ major_suffix in
           if major + 1 < length remaining_units then
             (let (minor_secs, minor_suffix) = remaining_units ! (major + 1) in
              if 0 < (secs mod major_secs) div minor_secs
              then major_part @ '' '' @ show_nat ((secs mod major_secs) div minor_secs) @ minor_suffix
              else major_part)
           else major_part))"

text \<open>What a rendered duration says, in seconds.\<close>

definition renders :: "string \<Rightarrow> nat \<Rightarrow> bool" where
  "renders t v \<longleftrightarrow> t = ''0s'' \<and> v = 0
     \<or> (\<exists>a u. (\<exists>us. (us, u) \<in> set remaining_units \<and> t = show_nat a @ u \<and> v = a * us))
     \<or> (\<exists>a u b w us ws. (us, u) \<in> set remaining_units \<and> (ws, w) \<in> set remaining_units
          \<and> ws < us \<and> b * ws < us \<and> t = show_nat a @ u @ '' '' @ show_nat b @ w \<and> v = a * us + b * ws)"

lemma duration_units_heads:
  "map_of duration_units u = Some k \<Longrightarrow>
     0 < k \<and> u \<noteq> [] \<and> graphic (last u) \<and> \<not> is_digit (hd u)"
  by (auto simp: duration_units_def graphic_def is_digit_def split: if_splits)

lemma digit_graphic: "is_digit c \<Longrightarrow> graphic c"
  by (simp add: is_digit_def graphic_def)

lemma takeWhile_split:
  assumes "\<forall>c \<in> set ds. P c" "u \<noteq> []" "\<not> P (hd u)"
  shows "takeWhile P (ds @ u) = ds" "dropWhile P (ds @ u) = u"
  using assms by (cases u; simp)+

lemma parse_duration_iff:
  "parse_duration s = Inr d \<longleftrightarrow>
     (\<exists>ds u k. trim s = ds @ u \<and> ds \<noteq> [] \<and> (\<forall>c \<in> set ds. is_digit c)
        \<and> map_of duration_units u = Some k
        \<and> 0 < dec_val ds \<and> dec_val ds * k < 2 ^ 64 \<and> d = from_secs (dec_val ds * k))"
  (is "?l \<longleftrightarrow> ?r")
proof
  assume ?l
  then show ?r
    by (intro exI[of _ "takeWhile is_digit (trim s)"] exI[of _ "dropWhile is_digit (trim s)"])
      (auto simp: parse_duration_def Let_def parse_u64_def checked_mul_u64_def
        split: if_splits option.splits dest: set_takeWhileD)
next
  assume ?r
  then obtain ds u k where t: "trim s = ds @ u" and ds: "ds \<noteq> []" "\<forall>c \<in> set ds. is_digit c"
    and u: "map_of duration_units u = Some k" and v: "0 < dec_val ds" "dec_val ds * k < 2 ^ 64"
    and d: "d = from_secs (dec_val ds * k)" by blast
  note h = duration_units_heads[OF u]
  have "dec_val ds \<le> dec_val ds * k" using h by simp
  then have "dec_val ds < 2 ^ 64" using v(2) by (rule le_less_trans)
  then have "parse_u64 ds = Some (dec_val ds)" using ds by (simp add: parse_u64_def)
  with takeWhile_split[OF ds(2), of u] h t u v d show ?l
    by (simp add: parse_duration_def Let_def checked_mul_u64_def
        del: dropWhile_eq_Nil_conv dropWhile_append takeWhile_append)
qed

lemma parse_duration_show:
  assumes "map_of duration_units u = Some k" "0 < n" "n * k < 2 ^ 64"
  shows "parse_duration (show_nat n @ u) = Inr (from_secs (n * k))"
proof -
  note h = duration_units_heads[OF assms(1)]
  have "is_digit (hd (show_nat n))"
    using hd_in_set[OF show_nat_nonempty] by (rule show_nat_digits)
  then have "trim (show_nat n @ u) = show_nat n @ u"
    using h by (intro trim_graphic) (simp_all add: digit_graphic)
  with assms show ?thesis
    unfolding parse_duration_iff
    by (intro exI[of _ "show_nat n"] exI[of _ u] exI[of _ k]) (simp add: show_nat_digits)
qed

text \<open>Two adjacent units \<open>us\<close> and \<open>ws\<close>: what is dropped is less than the smaller one.\<close>

lemma two_units:
  fixes s us ws :: nat
  assumes "0 < ws" "ws < us"
  shows "s div us * us + s mod us div ws * ws \<le> s"
    and "s - (s div us * us + s mod us div ws * ws) < ws"
    and "s mod us div ws * ws < us"
    and "s mod us div ws = 0 \<Longrightarrow> s - s div us * us < ws"
proof -
  have d: "s = s div us * us + s mod us" by simp
  have e: "s mod us = s mod us div ws * ws + s mod us mod ws" by simp
  have r: "s mod us mod ws < ws" using assms by simp
  show "s div us * us + s mod us div ws * ws \<le> s" using d e by linarith
  show "s - (s div us * us + s mod us div ws * ws) < ws" using d e r by linarith
  have "s mod us < us" using assms by simp
  then show "s mod us div ws * ws < us" using e by linarith
  show "s - s div us * us < ws" if "s mod us div ws = 0"
  proof -
    from e that have "s mod us = s mod us mod ws" by simp
    then show ?thesis using d r by linarith
  qed
qed

definition render_pair :: "nat \<Rightarrow> nat \<times> string \<Rightarrow> nat \<times> string \<Rightarrow> string" where
  "render_pair s U W = (let major_part = show_nat (s div fst U) @ snd U; b = s mod fst U div fst W in
     if 0 < b then major_part @ '' '' @ show_nat b @ snd W else major_part)"

lemma format_remaining_eq:
  "format_remaining d = (let s = d_secs d in
     if 86400 \<le> s then render_pair s (86400, ''d'') (3600, ''h'')
     else if 3600 \<le> s then render_pair s (3600, ''h'') (60, ''m'')
     else if 60 \<le> s then render_pair s (60, ''m'') (1, ''s'')
     else if 1 \<le> s then show_nat s @ ''s'' else ''0s'')"
  by (simp add: format_remaining_def remaining_units_def render_pair_def Let_def)

lemma render_pair_renders:
  assumes "(us, u) \<in> set remaining_units" "(ws, w) \<in> set remaining_units" "0 < ws" "ws < us"
    and "us \<le> s" "24 * ws \<le> us"
  shows "\<exists>v. renders (render_pair s (us, u) (ws, w)) v \<and> v \<le> s \<and> 24 * (s - v) \<le> s"
proof (cases "s mod us div ws = 0")
  case True
  have "renders (show_nat (s div us) @ u) (s div us * us)"
    using assms(1) unfolding renders_def by blast
  moreover have "s div us * us \<le> s" by simp
  moreover have "24 * (s - s div us * us) \<le> s"
    using two_units(4)[OF assms(3,4) True] assms(5,6) by linarith
  ultimately show ?thesis using True by (auto simp: render_pair_def)
next
  case False
  let ?b = "s mod us div ws"
  have "renders (show_nat (s div us) @ u @ '' '' @ show_nat ?b @ w) (s div us * us + ?b * ws)"
    using assms(1,2,4) two_units(3)[OF assms(3,4), of s] unfolding renders_def by blast
  moreover note two_units(1)[OF assms(3,4), of s]
  moreover have "24 * (s - (s div us * us + ?b * ws)) \<le> s"
    using two_units(2)[OF assms(3,4), of s] assms(5,6) by linarith
  ultimately show ?thesis using False
    by (intro exI[of _ "s div us * us + ?b * ws"]) (simp add: render_pair_def Let_def)
qed

lemma format_remaining_renders:
  "\<exists>v. renders (format_remaining d) v \<and> v \<le> d_secs d \<and> 24 * (d_secs d - v) \<le> d_secs d"
proof -
  have pair: "\<exists>v. renders (render_pair (d_secs d) (us, u) (ws, w)) v \<and> v \<le> d_secs d \<and> 24 * (d_secs d - v) \<le> d_secs d"
    if "us \<le> d_secs d" "((us, u), (ws, w)) \<in> {((86400, ''d''), (3600, ''h'')), ((3600, ''h''), (60, ''m'')), ((60, ''m''), (1, ''s''))}"
    for us u ws w
    using that by (intro render_pair_renders) (auto simp: remaining_units_def)
  have secs: "renders (show_nat n @ ''s'') n" for n
  proof -
    have "(1, ''s'') \<in> set remaining_units" by (simp add: remaining_units_def)
    then show ?thesis unfolding renders_def by (metis mult_1_right)
  qed
  have zero: "renders ''0s'' 0" by (simp add: renders_def)
  show ?thesis
  proof (cases "60 \<le> d_secs d")
    case True
    then show ?thesis using pair by (auto simp: format_remaining_eq Let_def)
  next
    case False
    then show ?thesis
      using secs[of "d_secs d"] zero by (auto simp: format_remaining_eq Let_def)
  qed
qed

section \<open>Sizes\<close>

text \<open>Rounding a quotient to the nearest integer, ties to even.\<close>

definition round_half_even :: "nat \<Rightarrow> nat \<Rightarrow> nat" where
  "round_half_even n d = (let q = n div d; r = n mod d in
     if 2 * r < d then q else if d < 2 * r then q + 1 else if even q then q else q + 1)"

fun bit_len :: "nat \<Rightarrow> nat" where
  "bit_len n = (if n = 0 then 0 else Suc (bit_len (n div 2)))"

declare bit_len.simps [simp del]

text \<open>\<open>bytes as f64\<close>: 53 significant bits.\<close>

definition u64_as_f64 :: "nat \<Rightarrow> nat" where
  "u64_as_f64 n = (let e = bit_len n - 53 in round_half_even n (2 ^ e) * 2 ^ e)"

text \<open>\<open>{:.1}\<close> of \<open>x / 2^k\<close>: the division is exact in \<open>f64\<close>.\<close>

definition show_tenths :: "nat \<Rightarrow> nat \<Rightarrow> string" where
  "show_tenths x unit = (let t = round_half_even (10 * x) unit in
     show_nat (t div 10) @ ''.'' @ show_nat (t mod 10))"

definition KIB :: nat where "KIB = 1024"
definition MIB :: nat where "MIB = 1024 * KIB"
definition GIB :: nat where "GIB = 1024 * MIB"

definition format_size :: "nat \<Rightarrow> string" where
  "format_size bytes =
     (if GIB \<le> bytes then show_tenths (u64_as_f64 bytes) GIB @ '' GiB''
      else if MIB \<le> bytes then show_tenths (u64_as_f64 bytes) MIB @ '' MiB''
      else if KIB \<le> bytes then show_tenths (u64_as_f64 bytes) KIB @ '' KiB''
      else show_nat bytes @ '' B'')"

lemma bit_len_bound: "n < 2 ^ k \<Longrightarrow> bit_len n \<le> k"
proof (induction k arbitrary: n)
  case 0
  then show ?case by (simp add: bit_len.simps)
next
  case (Suc k)
  then have "n div 2 < 2 ^ k" by simp
  then have "bit_len (n div 2) \<le> k" by (rule Suc.IH)
  then show ?case by (simp add: bit_len.simps[of n])
qed

lemma u64_as_f64_exact: "n < 2 ^ 53 \<Longrightarrow> u64_as_f64 n = n"
  using bit_len_bound[of n 53] by (simp add: u64_as_f64_def round_half_even_def)

lemma round_half_even_close:
  assumes "0 < d"
  shows "2 * n \<le> 2 * (round_half_even n d * d) + d \<and> 2 * (round_half_even n d * d) \<le> 2 * n + d"
proof -
  define q r where "q = n div d" and "r = n mod d"
  have "n = q * d + r" and "r < d" using assms by (simp_all add: q_def r_def)
  then show ?thesis
    unfolding round_half_even_def Let_def q_def[symmetric] r_def[symmetric]
    by (simp add: distrib_right)
qed

section \<open>Colours\<close>

definition ESC :: char where "ESC = CHR 0x1B"

definition palette :: "nat list" where
  "palette = [196, 202, 208, 214, 220, 226, 190, 154, 118, 82, 46, 48, 50, 51, 45, 39, 33, 27, 21, 57,
     93, 129, 165, 201]"

fun rainbow_loop :: "nat \<Rightarrow> string \<Rightarrow> nat option \<Rightarrow> string \<times> nat option" where
  "rainbow_loop col [] active = ([], active)"
| "rainbow_loop col (ch # rest) active =
     (if ch = CHR '' '' then (case rainbow_loop (col + 1) rest active of (out, a) \<Rightarrow> (ch # out, a))
      else (let color = palette ! (col mod length palette) in
        case rainbow_loop (col + 1) rest (Some color) of (out, a) \<Rightarrow>
          ((if active \<noteq> Some color then [ESC] @ ''[38;5;'' @ show_nat color @ ''m'' else []) @ ch # out, a)))"

definition rainbow_line :: "string \<Rightarrow> string" where
  "rainbow_line line = (case rainbow_loop 0 line None of (out, active) \<Rightarrow>
     out @ (if active \<noteq> None then [ESC] @ ''[0m'' else []))"

text \<open>A terminal drops everything from an escape character to the next \<open>m\<close>.\<close>

fun strip_ansi :: "bool \<Rightarrow> string \<Rightarrow> string" where
  "strip_ansi esc [] = []"
| "strip_ansi False (c # s) = (if c = ESC then strip_ansi True s else c # strip_ansi False s)"
| "strip_ansi True (c # s) = (if c = CHR ''m'' then strip_ansi False s else strip_ansi True s)"

lemma strip_ansi_digits:
  "(\<forall>c \<in> set ds. is_digit c) \<Longrightarrow> strip_ansi True (ds @ CHR ''m'' # s) = strip_ansi False s"
  by (induction ds) (auto simp: is_digit_def)

lemma strip_ansi_color:
  "strip_ansi False (ESC # ''[38;5;'' @ show_nat n @ CHR ''m'' # s) = strip_ansi False s"
  using strip_ansi_digits[of "show_nat n" s] by (simp add: show_nat_digits)

lemma rainbow_loop_strip:
  "ESC \<notin> set line \<Longrightarrow>
     strip_ansi False (fst (rainbow_loop col line active) @ t) = line @ strip_ansi False t"
proof (induction col line active rule: rainbow_loop.induct)
  case (1 col active)
  then show ?case by simp
next
  case (2 col ch rest active)
  show ?case
  proof (cases "ch = CHR '' ''")
    case True
    with 2 show ?thesis by (auto simp: ESC_def split: prod.splits)
  next
    case False
    let ?c = "palette ! (col mod length palette)"
    obtain out a where r: "rainbow_loop (col + 1) rest (Some ?c) = (out, a)" by fastforce
    have ih: "strip_ansi False (out @ t) = rest @ strip_ansi False t"
      using 2(2)[OF False refl] 2(3) r by auto
    show ?thesis
      using False r ih 2(3) strip_ansi_color[of ?c "ch # out @ t"] by (auto simp: Let_def)
  qed
qed

lemma rainbow_line_strip:
  assumes "ESC \<notin> set line"
  shows "strip_ansi False (rainbow_line line) = line"
proof -
  obtain out a where r: "rainbow_loop 0 line None = (out, a)" by fastforce
  show ?thesis
    using rainbow_loop_strip[OF assms, of 0 None "[]"] rainbow_loop_strip[OF assms, of 0 None "ESC # ''[0m''"] r
    by (auto simp: rainbow_line_def)
qed

section \<open>Properties\<close>

text \<open>
  Duration arguments: the parser accepts exactly the texts that, blanks around them
  aside, are a decimal number followed by one of the units s, m, h, d and w, whose value is
  positive and fits a 64-bit number of seconds, and returns that many seconds.
\<close>
theorem parse_duration_exact:
  "parse_duration s = Inr d \<longleftrightarrow>
     (\<exists>ds u k. trim s = ds @ u \<and> ds \<noteq> [] \<and> (\<forall>c \<in> set ds. is_digit c)
        \<and> map_of duration_units u = Some k
        \<and> 0 < dec_val ds \<and> dec_val ds * k < 2 ^ 64 \<and> d = from_secs (dec_val ds * k))"
  by (rule parse_duration_iff)

lemma parse_duration_exact_witness:
  "parse_duration ''90m'' = Inr (from_secs 5400)"
proof -
  have "(\<forall>c \<in> set ''90''. is_digit c)" by (simp add: is_digit_def)
  moreover have "trim ''90m'' = ''90'' @ ''m''" by (intro trans[OF trim_graphic]) (simp_all add: graphic_def)
  moreover have "dec_val ''90'' = 90" by (simp add: dec_val_def digit_val_def)
  ultimately have "\<exists>ds u k. trim ''90m'' = ds @ u \<and> ds \<noteq> [] \<and> (\<forall>c \<in> set ds. is_digit c)
        \<and> map_of duration_units u = Some k
        \<and> 0 < dec_val ds \<and> dec_val ds * k < 2 ^ 64 \<and> from_secs 5400 = from_secs (dec_val ds * k)"
    by (intro exI[of _ "''90''"] exI[of _ "''m''"] exI[of _ 60]) (simp add: duration_units_def)
  then show ?thesis unfolding parse_duration_exact .
qed

text \<open>
  The remaining lifetime shown for a membership never exceeds the real one and is short
  of it by at most a twenty-fourth.
\<close>
theorem format_remaining_close:
  "\<exists>v. renders (format_remaining d) v \<and> v \<le> d_secs d \<and> 24 * (d_secs d - v) \<le> d_secs d"
  by (rule format_remaining_renders)

text \<open>
  Colouring a line changes nothing but its colour: once a terminal has dropped the
  escape sequences, the line is the one that was given, and the colour is switched off again.
\<close>
theorem rainbow_only_colours:
  assumes "ESC \<notin> set line"
  shows "strip_ansi False (rainbow_line line) = line"
  using assms by (rule rainbow_line_strip)

lemma rainbow_only_colours_witness:
  "strip_ansi False (rainbow_line ''r d'') = ''r d''"
  by (rule rainbow_only_colours) (simp add: ESC_def)

end
