(* ===== verification/Ticket.thy ===== *)
theory Ticket
  imports Util
begin

text \<open>
  \<open>src/src/core/ticket.rs\<close>: the \<open>rdrop://\<close> ticket, base32 over JSON.  The base32 and
  JSON codecs and the Unicode case mappings of the standard library are a parameter
  (the record \<open>ticket_codec\<close>), with their documented laws in the locale
  \<open>ticket_laws\<close>; the ticket type, its constructors and accessors, and the two
  conversions are the program's.
\<close>

datatype blob_format = Raw | HashSeq

record ticket_wire =
  tw_addr :: endpoint_addr
  tw_hash :: blob_hash
  tw_format :: blob_format
  tw_name :: "string option"

record share_ticket =
  st_addr :: endpoint_addr
  st_hash :: blob_hash
  st_format :: blob_format
  st_name :: "string option"

record ticket_codec =
  tc_to_json :: "ticket_wire \<Rightarrow> string + string"
  tc_from_json :: "byte list \<Rightarrow> string + ticket_wire"
  tc_b32_encode :: "byte list \<Rightarrow> string"
  tc_b32_decode :: "byte list \<Rightarrow> string + byte list"
  tc_to_lowercase :: "string \<Rightarrow> string"
  tc_to_uppercase :: "string \<Rightarrow> string"

definition ticket_new :: "endpoint_addr \<Rightarrow> blob_hash \<Rightarrow> string option \<Rightarrow> share_ticket" where
  "ticket_new addr hash name = \<lparr>st_addr = addr, st_hash = hash, st_format = Raw, st_name = name\<rparr>"

definition ticket_new_collection :: "endpoint_addr \<Rightarrow> blob_hash \<Rightarrow> string option \<Rightarrow> share_ticket" where
  "ticket_new_collection addr hash name =
     \<lparr>st_addr = addr, st_hash = hash, st_format = HashSeq, st_name = name\<rparr>"

definition ticket_from_format ::
    "endpoint_addr \<Rightarrow> blob_hash \<Rightarrow> blob_format \<Rightarrow> string option \<Rightarrow> share_ticket" where
  "ticket_from_format addr hash format name =
     \<lparr>st_addr = addr, st_hash = hash, st_format = format, st_name = name\<rparr>"

definition ticket_peer_id :: "share_ticket \<Rightarrow> endpoint_id" where
  "ticket_peer_id t = ea_id (st_addr t)"

definition rdrop_prefix :: string where "rdrop_prefix = ''rdrop://''"

definition strip_prefix :: "string \<Rightarrow> string \<Rightarrow> string option" where
  "strip_prefix pre s = (if take (length pre) s = pre then Some (drop (length pre) s) else None)"

definition ticket_to_uri :: "ticket_codec \<Rightarrow> share_ticket \<Rightarrow> string result" where
  "ticket_to_uri C t =
     (let wire = \<lparr>tw_addr = st_addr t, tw_hash = st_hash t, tw_format = st_format t, tw_name = st_name t\<rparr> in
      bindR (ctxs ''serializing ticket'' (tc_to_json C wire)) (\<lambda>json.
      Inr (rdrop_prefix @ tc_to_lowercase C (tc_b32_encode C (str_bytes json)))))"

definition ticket_from_uri :: "ticket_codec \<Rightarrow> string \<Rightarrow> share_ticket result" where
  "ticket_from_uri C s =
     bindR (opt_ctx (''invalid ticket: expected '' @ quoted rdrop_prefix @ '' prefix'')
       (strip_prefix rdrop_prefix s)) (\<lambda>encoded.
     bindR (ctxs ''invalid ticket: base32 decode failed''
       (tc_b32_decode C (str_bytes (tc_to_uppercase C encoded)))) (\<lambda>bytes.
     bindR (ctxs ''invalid ticket: json parse failed'' (tc_from_json C bytes)) (\<lambda>wire.
     Inr \<lparr>st_addr = tw_addr wire, st_hash = tw_hash wire, st_format = tw_format wire,
          st_name = tw_name wire\<rparr>)))"

section \<open>The laws of the codecs\<close>

definition ascii_lower :: "char \<Rightarrow> char" where
  "ascii_lower c = (let n = of_char c :: nat in if 65 \<le> n \<and> n \<le> 90 then char_of (n + 32) else c)"

definition ascii_upper :: "char \<Rightarrow> char" where
  "ascii_upper c = (let n = of_char c :: nat in if 97 \<le> n \<and> n \<le> 122 then char_of (n - 32) else c)"

definition base32_char :: "char \<Rightarrow> bool" where
  "base32_char c \<longleftrightarrow> (let n = of_char c :: nat in (65 \<le> n \<and> n \<le> 90) \<or> (50 \<le> n \<and> n \<le> 55))"

lemma upper_lower: "base32_char c \<Longrightarrow> ascii_upper (ascii_lower c) = c"
  by (auto simp: base32_char_def ascii_upper_def ascii_lower_def Let_def)

lemma base32_lower_ascii: "base32_char c \<Longrightarrow> (of_char (ascii_lower c) :: nat) < 128"
  by (auto simp: base32_char_def ascii_lower_def Let_def)

lemma base32_ascii: "(\<And>c. c \<in> set s \<Longrightarrow> base32_char c) \<Longrightarrow> ascii s \<and> ascii (map ascii_lower s)"
  unfolding ascii_def
  by (auto simp: base32_lower_ascii) (fastforce simp: base32_char_def Let_def)

locale ticket_laws =
  fixes C :: ticket_codec
  assumes json_inverse: "tc_to_json C w = Inr j \<Longrightarrow> tc_from_json C (str_bytes j) = Inr w"
    and b32_inverse: "tc_b32_decode C (str_bytes (tc_b32_encode C bs)) = Inr bs"
    and b32_alphabet: "c \<in> set (tc_b32_encode C bs) \<Longrightarrow> base32_char c"
    and lower_ascii: "ascii s \<Longrightarrow> tc_to_lowercase C s = map ascii_lower s"
    and upper_ascii: "ascii s \<Longrightarrow> tc_to_uppercase C s = map ascii_upper s"
begin

lemma upper_lower_b32: "tc_to_uppercase C (tc_to_lowercase C (tc_b32_encode C bs)) = tc_b32_encode C bs"
proof -
  have "ascii (tc_b32_encode C bs)" "ascii (map ascii_lower (tc_b32_encode C bs))"
    using base32_ascii[of "tc_b32_encode C bs"] b32_alphabet by blast+
  then show ?thesis
    by (simp add: lower_ascii upper_ascii map_idI upper_lower b32_alphabet)
qed

lemma from_uri_to_uri: "ticket_to_uri C t = Inr u \<Longrightarrow> ticket_from_uri C u = Inr t"
  by (auto simp: ticket_to_uri_def ticket_from_uri_def Let_def bindR_Inr strip_prefix_def
      upper_lower_b32 b32_inverse dest!: json_inverse)

lemma to_uri_ascii: "ticket_to_uri C t = Inr u \<Longrightarrow> ascii u"
proof -
  assume "ticket_to_uri C t = Inr u"
  then obtain j where u: "u = rdrop_prefix @ tc_to_lowercase C (tc_b32_encode C (str_bytes j))"
    by (auto simp: ticket_to_uri_def Let_def bindR_Inr)
  have "ascii (tc_b32_encode C (str_bytes j))" "ascii (map ascii_lower (tc_b32_encode C (str_bytes j)))"
    using base32_ascii[of "tc_b32_encode C (str_bytes j)"] b32_alphabet by blast+
  then show ?thesis unfolding u by (simp add: lower_ascii) (simp add: ascii_def rdrop_prefix_def)
qed

end

section \<open>A reference codec\<close>

text \<open>
  JSON is replaced by length-prefixed fields and base32 by two letters per byte; the
  laws do not depend on more.
\<close>

definition field :: "string \<Rightarrow> string" where
  "field s = show_nat (length s) @ '':'' @ s"

definition read_field :: "string \<Rightarrow> (string \<times> string) option" where
  "read_field t = (let rest = dropWhile is_digit t; n = dec_val (takeWhile is_digit t) in
     case rest of [] \<Rightarrow> None
     | _ # body \<Rightarrow> if length body < n then None else Some (take n body, drop n body))"

lemma read_field [simp]: "read_field (field s @ t) = Some (s, t)"
proof -
  have "\<forall>c \<in> set (show_nat (length s)). is_digit c" "\<not> is_digit CHR '':''"
    using show_nat_digits by (auto simp: is_digit_def)
  then have "takeWhile is_digit (show_nat (length s) @ CHR '':'' # s @ t) = show_nat (length s)"
    and "dropWhile is_digit (show_nat (length s) @ CHR '':'' # s @ t) = CHR '':'' # s @ t"
    by (simp_all add: takeWhile_append2 dropWhile_append2)
  then show ?thesis by (simp add: read_field_def field_def Let_def)
qed

lemma read_field_nil [simp]: "read_field (field s) = Some (s, [])"
  using read_field[of s "[]"] by simp

fun fields :: "string list \<Rightarrow> string" where
  "fields [] = []"
| "fields (s # ss) = field s @ fields ss"

fun read_fields :: "nat \<Rightarrow> string \<Rightarrow> (string list \<times> string) option" where
  "read_fields 0 t = Some ([], t)"
| "read_fields (Suc n) t = (case read_field t of None \<Rightarrow> None
     | Some (s, t') \<Rightarrow> (case read_fields n t' of None \<Rightarrow> None | Some (ss, r) \<Rightarrow> Some (s # ss, r)))"

lemma read_fields [simp]: "read_fields (length ss) (fields ss @ t) = Some (ss, t)"
  by (induction ss) simp_all

definition ref_to_json :: "ticket_wire \<Rightarrow> string" where
  "ref_to_json w = fields [hex_encode (id_bytes (ea_id (tw_addr w))), hex_encode (hash_bytes (tw_hash w)),
      (case tw_format w of Raw \<Rightarrow> ''R'' | HashSeq \<Rightarrow> ''H''),
      (case tw_name w of None \<Rightarrow> [] | Some n \<Rightarrow> CHR ''n'' # n),
      show_nat (length (ea_relays (tw_addr w))), show_nat (length (ea_direct (tw_addr w)))]
    @ fields (ea_relays (tw_addr w)) @ fields (ea_direct (tw_addr w))"

definition ref_from_json :: "byte list \<Rightarrow> string + ticket_wire" where
  "ref_from_json bs = (case read_fields 6 (bytes_str bs) of
     Some ([i, h, f, n, nr, nd], t) \<Rightarrow>
       (case (hex_word i, hex_word h, read_fields (dec_val nr) t) of
         (Inr iw, Inr hw, Some (rs, t')) \<Rightarrow>
           (case read_fields (dec_val nd) t' of
             Some (ds, _) \<Rightarrow> Inr \<lparr>tw_addr = \<lparr>ea_id = EndpointId iw, ea_relays = rs, ea_direct = ds\<rparr>,
                tw_hash = Hash hw, tw_format = (if f = ''R'' then Raw else HashSeq),
                tw_name = (if n = [] then None else Some (tl n))\<rparr>
           | None \<Rightarrow> Inl ''bad addresses'')
       | _ \<Rightarrow> Inl ''bad fields'')
   | _ \<Rightarrow> Inl ''bad ticket'')"

definition letter :: "nat \<Rightarrow> char" where "letter d = char_of (65 + d)"

definition letters :: "byte list \<Rightarrow> string" where
  "letters bs = concat (map (\<lambda>b. [letter (unat b div 16), letter (unat b mod 16)]) bs)"

fun unletters :: "byte list \<Rightarrow> string + byte list" where
  "unletters [] = Inr []"
| "unletters [b] = Inl ''odd length''"
| "unletters (b # c # bs) = map_sum id (Cons (of_nat (16 * (unat b - 65) + (unat c - 65)))) (unletters bs)"

definition ref_codec :: ticket_codec where
  "ref_codec = \<lparr>tc_to_json = (\<lambda>w. Inr (ref_to_json w)), tc_from_json = ref_from_json,
     tc_b32_encode = letters, tc_b32_decode = unletters,
     tc_to_lowercase = map ascii_lower, tc_to_uppercase = map ascii_upper\<rparr>"

lemma ref_from_to_json: "ref_from_json (str_bytes (ref_to_json w)) = Inr w"
proof -
  let ?hd = "[hex_encode (id_bytes (ea_id (tw_addr w))), hex_encode (hash_bytes (tw_hash w)),
      (case tw_format w of Raw \<Rightarrow> ''R'' | HashSeq \<Rightarrow> ''H''),
      (case tw_name w of None \<Rightarrow> [] | Some n \<Rightarrow> CHR ''n'' # n),
      show_nat (length (ea_relays (tw_addr w))), show_nat (length (ea_direct (tw_addr w)))]"
  have "read_fields 6 (ref_to_json w) =
      Some (?hd, fields (ea_relays (tw_addr w)) @ fields (ea_direct (tw_addr w)))"
    using read_fields[of ?hd "fields (ea_relays (tw_addr w)) @ fields (ea_direct (tw_addr w))"]
    by (simp only: ref_to_json_def) (simp add: eval_nat_numeral)
  moreover have "read_fields (length ds) (fields ds) = Some (ds, [])" for ds
    using read_fields[of ds "[]"] by simp
  moreover have "EndpointId (id_word p) = p" "Hash (hash_word h) = h" for p h
    by (cases p, simp, cases h, simp)
  ultimately show ?thesis
    by (simp add: ref_from_json_def id_bytes_def hash_bytes_def
        split: blob_format.split option.split)
qed

lemma letter_byte:
  assumes "d < 16"
  shows "unat (byte_of_char (letter d)) = 65 + d"
proof -
  have "(of_char (letter d) :: nat) = 65 + d" using assms by (simp add: letter_def)
  moreover have "unat (of_nat (65 + d) :: byte) = 65 + d"
    using assms by (simp only: unat_of_nat) simp
  ultimately show ?thesis unfolding byte_of_char_def by metis
qed

lemma unletters_letters: "unletters (str_bytes (letters bs)) = Inr bs"
proof (induction bs)
  case Nil
  show ?case by (simp add: letters_def str_bytes_def)
next
  case (Cons b bs)
  have "unat b < 256" using unsigned_less[of b] by simp
  then have "unat b div 16 < 16" by simp
  with Cons show ?case by (simp add: letters_def str_bytes_def letter_byte)
qed

lemma letter_base32: "d < 16 \<Longrightarrow> base32_char (letter d)"
  by (simp add: base32_char_def letter_def)

lemma letters_base32: "c \<in> set (letters bs) \<Longrightarrow> base32_char c"
proof -
  have "unat b < 256" for b :: byte using unsigned_less[of b] by simp
  then have "unat b div 16 < 16" "unat b mod 16 < 16" for b :: byte
    by (simp_all add: less_mult_imp_div_less)
  then have "base32_char (letter (unat b div 16))" "base32_char (letter (unat b mod 16))" for b :: byte
    by (simp_all only: letter_base32)
  then show "c \<in> set (letters bs) \<Longrightarrow> base32_char c" by (auto simp: letters_def)
qed

interpretation ref_codec: ticket_laws ref_codec
  by unfold_locales
    (auto simp: ref_codec_def ref_from_to_json unletters_letters dest: letters_base32)

text \<open>A bound on the length of a reference URI, by the lengths of the ticket's fields.\<close>

lemma length_field: "length (field s) \<le> 2 * length s + 2"
  using length_show_nat[of "length s"] by (simp add: field_def)

lemma length_letters [simp]: "length (letters bs) = 2 * length bs"
  by (induction bs) (simp_all add: letters_def)

lemma length_ref_uri:
  assumes "ticket_to_uri ref_codec t = Inr u" "ea_relays (st_addr t) = []" "ea_direct (st_addr t) = []"
    and "st_name t = Some n"
  shows "length u \<le> 600 + 4 * length n"
proof -
  have z: "length (field (show_nat 0)) \<le> 4" using length_field[of "show_nat 0"] by (simp add: show_nat.simps)
  have h: "length (field (hex_encode (id_bytes p))) \<le> 130"
    "length (field (hex_encode (hash_bytes h))) \<le> 130" for p h
    using length_field[of "hex_encode (id_bytes p)"] length_field[of "hex_encode (hash_bytes h)"] by simp_all
  have f: "length (field (case st_format t of Raw \<Rightarrow> ''R'' | HashSeq \<Rightarrow> ''H'')) \<le> 4"
    using length_field[of "case st_format t of Raw \<Rightarrow> ''R'' | HashSeq \<Rightarrow> ''H''"]
    by (cases "st_format t") simp_all
  show ?thesis
    using assms h(1)[of "ea_id (st_addr t)"] h(2)[of "st_hash t"] f z length_field[of "CHR ''n'' # n"]
    by (auto simp: ticket_to_uri_def ref_codec_def Let_def ref_to_json_def rdrop_prefix_def)
qed

lemma ref_to_uri: "\<exists>u. ticket_to_uri ref_codec t = Inr u"
  by (simp add: ticket_to_uri_def ref_codec_def)

section \<open>Properties\<close>

text \<open>
  C27: Every ticket that prints to a URI is read back from that URI unchanged (address,
  hash, format and name), whatever the case mapping of the base32 text does.
\<close>
theorem ticket_uri_roundtrip:
  assumes "ticket_laws C" "ticket_to_uri C t = Inr u"
  shows "ticket_from_uri C u = Inr t"
  using ticket_laws.from_uri_to_uri[OF assms] .

definition sample_ticket :: share_ticket where
  "sample_ticket = ticket_new_collection
     (with_relay_url (addr_new (EndpointId 7)) ''https://r'') (Hash 9) (Some ''photos'')"

lemma ticket_uri_roundtrip_witness:
  "\<exists>u. ticket_to_uri ref_codec sample_ticket = Inr u \<and> ticket_from_uri ref_codec u = Inr sample_ticket"
  using ref_to_uri[of sample_ticket] ticket_uri_roundtrip[OF ref_codec.ticket_laws_axioms] by blast

end
