(* ===== verification/Registry.thy ===== *)
theory Registry
  imports Util "HOL-Library.AList"
begin

text \<open>
  The ring registry (trait \<open>Registry\<close> of crate \<open>iroh-rings\<close>): rings with their live
  members, and the rings a resource is attached to with the permissions each grants.
  The crate is not part of the repository, so its methods are a parameter (the record
  \<open>registry\<close>).  The locale \<open>ring_registry\<close> states the behaviour the program relies on
  over an abstract view; \<open>live_registry\<close> adds which calls cannot fail.
  \<open>peer_ring_set\<close> of \<open>src/src/core/node.rs\<close> is the program's own evaluation of ring
  membership; it is shown to agree with the registry's permission check.
\<close>

section \<open>Time\<close>

text \<open>A \<open>SystemTime\<close> is in nanoseconds from the Unix epoch; its seconds are an \<open>i64\<close>.\<close>

type_synonym system_time = int

definition UNIX_EPOCH :: system_time where "UNIX_EPOCH = 0"

definition time_checked_add :: "system_time \<Rightarrow> duration \<Rightarrow> system_time option" where
  "time_checked_add t d =
     (let t' = t + int (d_secs d) * 1000000000 + int (d_nanos d) in
      if t' div 1000000000 < 2 ^ 63 then Some t' else None)"

definition duration_since :: "system_time \<Rightarrow> system_time \<Rightarrow> duration option" where
  "duration_since a b =
     (if b \<le> a then Some \<lparr>d_secs = nat ((a - b) div 1000000000), d_nanos = nat ((a - b) mod 1000000000)\<rparr>
      else None)"

section \<open>The interface\<close>

type_synonym ring = string

datatype permission = Read | Write | Delete

record ring_peer =
  rp_peer :: endpoint_id
  rp_expires_at :: "system_time option"

definition OPEN_RING_NAME :: ring where "OPEN_RING_NAME = ''open''"

definition ring_is_open :: "ring \<Rightarrow> bool" where
  "ring_is_open r \<longleftrightarrow> r = OPEN_RING_NAME"

record 'r registry =
  rg_list_rings :: "'r \<Rightarrow> string + ring list"
  rg_list_ring_peers :: "'r \<Rightarrow> ring \<Rightarrow> string + ring_peer list"
  rg_create_ring :: "'r \<Rightarrow> ring \<Rightarrow> string + 'r"
  rg_add_peer_to_ring :: "'r \<Rightarrow> ring \<Rightarrow> endpoint_id \<Rightarrow> string option \<Rightarrow> system_time option \<Rightarrow> string + 'r"
  rg_remove_peer_from_ring :: "'r \<Rightarrow> ring \<Rightarrow> endpoint_id \<Rightarrow> string + 'r"
  rg_list_resource_rings :: "'r \<Rightarrow> bytes32 \<Rightarrow> string + (ring \<times> permission list) list"
  rg_add_ring_to_resource :: "'r \<Rightarrow> bytes32 \<Rightarrow> ring \<Rightarrow> permission list \<Rightarrow> string + 'r"
  rg_remove_ring_from_resource :: "'r \<Rightarrow> bytes32 \<Rightarrow> string + 'r"
  rg_has_permission :: "'r \<Rightarrow> endpoint_id \<Rightarrow> bytes32 \<Rightarrow> permission \<Rightarrow> string + bool"

type_synonym members = "endpoint_id \<rightharpoonup> system_time option"

definition members_of :: "members option \<Rightarrow> members" where
  "members_of m = (case m of None \<Rightarrow> Map.empty | Some x \<Rightarrow> x)"

definition perms_of :: "permission set option \<Rightarrow> permission set" where
  "perms_of v = (case v of None \<Rightarrow> {} | Some ps \<Rightarrow> ps)"

definition member_map :: "ring_peer list \<Rightarrow> members" where
  "member_map ms = map_of (map (\<lambda>m. (rp_peer m, rp_expires_at m)) ms)"

definition assoc_map :: "(ring \<times> permission list) list \<Rightarrow> ring \<rightharpoonup> permission set" where
  "assoc_map l = map_of (map (\<lambda>(n, ps). (n, set ps)) l)"

text \<open>Who may do what, over the abstract view: a peer holds a permission on a resource
  when a ring attached to the resource grants it and the ring is the open ring or has
  the peer as a live member.\<close>

definition in_ring :: "(ring \<rightharpoonup> members) \<Rightarrow> ring \<Rightarrow> endpoint_id \<Rightarrow> bool" where
  "in_ring rs n p \<longleftrightarrow> n = OPEN_RING_NAME \<or> p \<in> dom (members_of (rs n))"

definition allowed :: "(ring \<rightharpoonup> members) \<Rightarrow> (bytes32 \<Rightarrow> ring \<rightharpoonup> permission set) \<Rightarrow>
    endpoint_id \<Rightarrow> bytes32 \<Rightarrow> permission \<Rightarrow> bool" where
  "allowed rs as p h perm \<longleftrightarrow> (\<exists>n ps. as h n = Some ps \<and> perm \<in> ps \<and> in_ring rs n p)"

lemma allowed_iff: "allowed rs as p h perm \<longleftrightarrow> (\<exists>n. perm \<in> perms_of (as h n) \<and> in_ring rs n p)"
  by (auto simp: allowed_def perms_of_def split: option.splits)

locale ring_registry =
  fixes R :: "'r registry"
    and rings :: "'r \<Rightarrow> ring \<rightharpoonup> members"
    and attached :: "'r \<Rightarrow> bytes32 \<Rightarrow> ring \<rightharpoonup> permission set"
  assumes list_rings: "rg_list_rings R r = Inr ns \<Longrightarrow> distinct ns \<and> set ns = dom (rings r)"
    and open_exists: "OPEN_RING_NAME \<in> dom (rings r)"
    and list_ring_peers: "rg_list_ring_peers R r n = Inr ms \<Longrightarrow>
      distinct (map rp_peer ms) \<and> member_map ms = members_of (rings r n)"
    and create_ring: "rg_create_ring R r n = Inr r' \<Longrightarrow>
      rings r' = (rings r)(n \<mapsto> members_of (rings r n)) \<and> attached r' = attached r"
    and add_peer: "rg_add_peer_to_ring R r n p lbl e = Inr r' \<Longrightarrow>
      (\<exists>m'. rings r' = (rings r)(n \<mapsto> m') \<and> (\<forall>q. q \<noteq> p \<longrightarrow> m' q = members_of (rings r n) q)
         \<and> (e = None \<longrightarrow> m' p = Some (case members_of (rings r n) p of None \<Rightarrow> None | Some old \<Rightarrow> old))
         \<and> (\<forall>t. e = Some t \<longrightarrow> m' p = None \<or> m' p = Some (Some t)))
      \<and> attached r' = attached r"
    and remove_peer: "rg_remove_peer_from_ring R r n p = Inr r' \<Longrightarrow>
      rings r' = (rings r)(n := map_option (\<lambda>m. m(p := None)) (rings r n)) \<and> attached r' = attached r"
    and list_resource_rings: "rg_list_resource_rings R r h = Inr l \<Longrightarrow>
      distinct (map fst l) \<and> assoc_map l = attached r h"
    and add_ring_to_resource: "rg_add_ring_to_resource R r h n ps = Inr r' \<Longrightarrow>
      (\<exists>ps'. attached r' = (attached r)(h := (attached r h)(n \<mapsto> ps'))
         \<and> set ps \<subseteq> ps' \<and> ps' \<subseteq> set ps \<union> perms_of (attached r h n))
      \<and> rings r' = rings r"
    and remove_ring_from_resource: "rg_remove_ring_from_resource R r h = Inr r' \<Longrightarrow>
      attached r' = (attached r)(h := Map.empty) \<and> rings r' = rings r"
    and has_permission: "rg_has_permission R r p h perm = Inr b \<Longrightarrow>
      b = allowed (rings r) (attached r) p h perm"

locale live_registry = ring_registry +
  assumes live_list_rings: "\<exists>ns. rg_list_rings R r = Inr ns"
    and live_list_ring_peers: "n \<in> dom (rings r) \<Longrightarrow> \<exists>ms. rg_list_ring_peers R r n = Inr ms"
    and live_remove_peer: "n \<in> dom (rings r) \<Longrightarrow> p \<in> dom (members_of (rings r n)) \<Longrightarrow>
      \<exists>r'. rg_remove_peer_from_ring R r n p = Inr r'"
    and live_list_resource_rings: "\<exists>l. rg_list_resource_rings R r h = Inr l"
    and live_add_ring: "n \<in> dom (rings r) \<Longrightarrow> \<exists>r'. rg_add_ring_to_resource R r h n ps = Inr r'"
    and live_remove_ring: "\<exists>r'. rg_remove_ring_from_resource R r h = Inr r'"
    and live_has_permission: "\<exists>b. rg_has_permission R r p h perm = Inr b"

section \<open>Membership as the node evaluates it\<close>

definition peer_ring_set :: "'r registry \<Rightarrow> iroh \<Rightarrow> 'r \<Rightarrow> string \<Rightarrow> ring set result" where
  "peer_ring_set R I r peer =
     bindR (parse_peer_id I peer) (\<lambda>peer_id.
     bindR (lift_err (rg_list_rings R r)) (\<lambda>ns.
       Inr (insert OPEN_RING_NAME (set (filter
         (\<lambda>n. list_ex (\<lambda>m. rp_peer m = peer_id) (unwrap_or (lift_err (rg_list_ring_peers R r n)) []))
         (filter (\<lambda>n. \<not> ring_is_open n) ns))))))"

lemma in_member_map: "(\<exists>m \<in> set ms. rp_peer m = p) \<longleftrightarrow> p \<in> dom (member_map ms)"
  by (force simp: member_map_def dom_map_of_conv_image_fst)

context live_registry
begin

lemma has_permission_eq: "rg_has_permission R r p h perm = Inr (allowed (rings r) (attached r) p h perm)"
  using live_has_permission[of r p h perm] has_permission by blast

lemma ring_member_check:
  assumes "n \<in> dom (rings r)"
  shows "list_ex (\<lambda>m. rp_peer m = p) (unwrap_or (lift_err (rg_list_ring_peers R r n)) [])
     \<longleftrightarrow> p \<in> dom (members_of (rings r n))"
  using live_list_ring_peers[OF assms] in_member_map list_ring_peers
  by (fastforce simp: list_ex_iff)

lemma peer_ring_set_eq:
  assumes "ir_parse_id I s = Inr p"
  shows "peer_ring_set R I r s = Inr {n \<in> dom (rings r). in_ring (rings r) n p}"
proof -
  obtain ns where ns: "rg_list_rings R r = Inr ns" using live_list_rings by blast
  with list_rings have dom: "set ns = dom (rings r)" by blast
  have "peer_ring_set R I r s = Inr (insert OPEN_RING_NAME {n \<in> dom (rings r).
      n \<noteq> OPEN_RING_NAME \<and> p \<in> dom (members_of (rings r n))})"
  proof -
    have "{n \<in> dom (rings r). n \<noteq> OPEN_RING_NAME \<and>
        list_ex (\<lambda>m. rp_peer m = p) (unwrap_or (lift_err (rg_list_ring_peers R r n)) [])}
      = {n \<in> dom (rings r). n \<noteq> OPEN_RING_NAME \<and> p \<in> dom (members_of (rings r n))}"
      using ring_member_check[of _ r p] by blast
    with assms ns dom show ?thesis
      by (simp add: peer_ring_set_def parse_peer_id_def ring_is_open_def conj_assoc)
  qed
  also have "insert OPEN_RING_NAME {n \<in> dom (rings r). n \<noteq> OPEN_RING_NAME \<and> p \<in> dom (members_of (rings r n))}
      = {n \<in> dom (rings r). in_ring (rings r) n p}"
    using open_exists[of r] by (auto simp: in_ring_def)
  finally show ?thesis .
qed

end

section \<open>A reference registry in memory\<close>

text \<open>
  Association lists of rings and attachments; the open ring always exists.  Adding a
  member without an expiry keeps the expiry of a live member; attaching replaces the
  permissions of an existing attachment.
\<close>

record mem_reg =
  mr_rings :: "(ring \<times> (endpoint_id \<times> system_time option) list) list"
  mr_attached :: "(bytes32 \<times> (ring \<times> permission list) list) list"

definition mem_members :: "mem_reg \<Rightarrow> ring \<Rightarrow> (endpoint_id \<times> system_time option) list" where
  "mem_members r n = (case map_of (mr_rings r) n of None \<Rightarrow> [] | Some m \<Rightarrow> m)"

definition mem_ring_names :: "mem_reg \<Rightarrow> ring list" where
  "mem_ring_names r = remdups (OPEN_RING_NAME # map fst (mr_rings r))"

definition mem_attachments :: "mem_reg \<Rightarrow> bytes32 \<Rightarrow> (ring \<times> permission list) list" where
  "mem_attachments r h = (case map_of (mr_attached r) h of None \<Rightarrow> [] | Some l \<Rightarrow> AList.clearjunk l)"

definition mem_rings :: "mem_reg \<Rightarrow> ring \<rightharpoonup> members" where
  "mem_rings r n = (if n \<in> set (mem_ring_names r) then Some (map_of (mem_members r n)) else None)"

definition mem_attached :: "mem_reg \<Rightarrow> bytes32 \<Rightarrow> ring \<rightharpoonup> permission set" where
  "mem_attached r h = assoc_map (mem_attachments r h)"

definition mem_set_members :: "mem_reg \<Rightarrow> ring \<Rightarrow> (endpoint_id \<times> system_time option) list \<Rightarrow> mem_reg" where
  "mem_set_members r n m = r\<lparr>mr_rings := AList.update n m (mr_rings r)\<rparr>"

definition mem_registry :: "mem_reg registry" where
  "mem_registry = \<lparr>
     rg_list_rings = (\<lambda>r. Inr (mem_ring_names r)),
     rg_list_ring_peers = (\<lambda>r n. Inr (map (\<lambda>(p, e). \<lparr>rp_peer = p, rp_expires_at = e\<rparr>)
        (AList.clearjunk (mem_members r n)))),
     rg_create_ring = (\<lambda>r n. Inr (mem_set_members r n (mem_members r n))),
     rg_add_peer_to_ring = (\<lambda>r n p lbl e. Inr (mem_set_members r n
        (AList.update p (case e of Some t \<Rightarrow> Some t | None \<Rightarrow>
           (case map_of (mem_members r n) p of None \<Rightarrow> None | Some old \<Rightarrow> old)) (mem_members r n)))),
     rg_remove_peer_from_ring = (\<lambda>r n p. if n \<notin> set (mem_ring_names r) then Inl ''ring not found''
        else Inr (mem_set_members r n (AList.delete p (mem_members r n)))),
     rg_list_resource_rings = (\<lambda>r h. Inr (mem_attachments r h)),
     rg_add_ring_to_resource = (\<lambda>r h n ps. if n \<notin> set (mem_ring_names r) then Inl ''ring not found''
        else Inr (r\<lparr>mr_attached := AList.update h (AList.update n ps (mem_attachments r h)) (mr_attached r)\<rparr>)),
     rg_remove_ring_from_resource = (\<lambda>r h. Inr (r\<lparr>mr_attached := AList.delete h (mr_attached r)\<rparr>)),
     rg_has_permission = (\<lambda>r p h perm. Inr (list_ex (\<lambda>(n, ps). perm \<in> set ps \<and>
        (n = OPEN_RING_NAME \<or> map_of (mem_members r n) p \<noteq> None)) (mem_attachments r h))) \<rparr>"

lemma distinct_mem_attachments: "distinct (map fst (mem_attachments r h))"
  by (auto simp: mem_attachments_def distinct_clearjunk split: option.splits)

lemma assoc_map_Some:
  "distinct (map fst l) \<Longrightarrow> assoc_map l n = Some s \<longleftrightarrow> (\<exists>ps. (n, ps) \<in> set l \<and> s = set ps)"
proof -
  assume d: "distinct (map fst l)"
  have "assoc_map l n = map_option set (map_of l n)"
    by (simp add: assoc_map_def map_of_map)
  with d show ?thesis by (auto simp: map_of_eq_Some_iff)
qed

lemma assoc_map_eq: "assoc_map l n = map_option set (map_of l n)"
  by (simp add: assoc_map_def map_of_map)

lemma set_mem_ring_names [simp]:
  "set (mem_ring_names r) = insert OPEN_RING_NAME (fst ` set (mr_rings r))"
  unfolding mem_ring_names_def set_remdups by simp

lemma distinct_mem_ring_names [simp]: "distinct (mem_ring_names r)"
  unfolding mem_ring_names_def by (rule distinct_remdups)

lemma mem_members_of: "members_of (mem_rings r n) = map_of (mem_members r n)"
proof (cases "n \<in> set (mem_ring_names r)")
  case False
  then have "map_of (mr_rings r) n = None"
    by (simp add: map_of_eq_None_iff)
  with False show ?thesis by (simp add: mem_rings_def members_of_def mem_members_def)
qed (simp add: mem_rings_def members_of_def)

lemma mem_rings_set_members:
  "mem_rings (mem_set_members r n m) = (mem_rings r)(n \<mapsto> map_of m)"
proof
  fix k
  have "set (mem_ring_names (mem_set_members r n m)) = insert n (set (mem_ring_names r))"
    using dom_update[of n m "mr_rings r"] by (auto simp: mem_set_members_def)
  moreover have "mem_members (mem_set_members r n m) k = (if k = n then m else mem_members r k)"
    by (simp add: mem_members_def mem_set_members_def update_conv')
  ultimately show "mem_rings (mem_set_members r n m) k = ((mem_rings r)(n \<mapsto> map_of m)) k"
    unfolding mem_rings_def by (simp only: insert_iff fun_upd_apply if_True simp_thms split: if_split) auto
qed

lemma mem_attached_set_members [simp]: "mem_attached (mem_set_members r n m) = mem_attached r"
  by (simp add: mem_attached_def mem_attachments_def mem_set_members_def fun_eq_iff)

interpretation mem_reg: live_registry mem_registry mem_rings mem_attached
proof unfold_locales
  fix r :: mem_reg and ns
  assume "rg_list_rings mem_registry r = Inr ns"
  then show "distinct ns \<and> set ns = dom (mem_rings r)"
    by (auto simp: mem_registry_def mem_rings_def split: if_splits)
next
  fix r :: mem_reg
  show "OPEN_RING_NAME \<in> dom (mem_rings r)" by (simp add: mem_rings_def dom_def)
next
  fix r :: mem_reg and n ms
  assume "rg_list_ring_peers mem_registry r n = Inr ms"
  then have ms: "ms = map (\<lambda>(p, e). \<lparr>rp_peer = p, rp_expires_at = e\<rparr>) (AList.clearjunk (mem_members r n))"
    by (simp add: mem_registry_def)
  have "map rp_peer ms = map fst (AList.clearjunk (mem_members r n))"
    and "map (\<lambda>m. (rp_peer m, rp_expires_at m)) ms = AList.clearjunk (mem_members r n)"
    unfolding ms by (simp_all add: comp_def case_prod_unfold)
  then show "distinct (map rp_peer ms) \<and> member_map ms = members_of (mem_rings r n)"
    by (simp add: member_map_def mem_members_of map_of_clearjunk distinct_clearjunk)
next
  fix r r' :: mem_reg and n
  assume "rg_create_ring mem_registry r n = Inr r'"
  then show "mem_rings r' = (mem_rings r)(n \<mapsto> members_of (mem_rings r n)) \<and> mem_attached r' = mem_attached r"
    by (auto simp: mem_registry_def mem_rings_set_members mem_members_of)
next
  fix r r' :: mem_reg and n p lbl e
  assume "rg_add_peer_to_ring mem_registry r n p lbl e = Inr r'"
  then show "(\<exists>m'. mem_rings r' = (mem_rings r)(n \<mapsto> m') \<and> (\<forall>q. q \<noteq> p \<longrightarrow> m' q = members_of (mem_rings r n) q)
         \<and> (e = None \<longrightarrow> m' p = Some (case members_of (mem_rings r n) p of None \<Rightarrow> None | Some old \<Rightarrow> old))
         \<and> (\<forall>t. e = Some t \<longrightarrow> m' p = None \<or> m' p = Some (Some t)))
      \<and> mem_attached r' = mem_attached r"
    by (auto simp: mem_registry_def mem_rings_set_members mem_members_of update_conv')
next
  fix r r' :: mem_reg and n p
  assume "rg_remove_peer_from_ring mem_registry r n p = Inr r'"
  then show "mem_rings r' = (mem_rings r)(n := map_option (\<lambda>m. m(p := None)) (mem_rings r n))
      \<and> mem_attached r' = mem_attached r"
    by (auto simp: mem_registry_def mem_rings_set_members mem_rings_def delete_conv' split: if_splits)
next
  fix r :: mem_reg and h ls
  assume "rg_list_resource_rings mem_registry r h = Inr ls"
  then show "distinct (map fst ls) \<and> assoc_map ls = mem_attached r h"
    by (auto simp: mem_registry_def mem_attached_def distinct_mem_attachments)
next
  fix r r' :: mem_reg and h n ps
  assume "rg_add_ring_to_resource mem_registry r h n ps = Inr r'"
  then have r': "r' = r\<lparr>mr_attached := AList.update h (AList.update n ps (mem_attachments r h)) (mr_attached r)\<rparr>"
    by (simp add: mem_registry_def split: if_splits)
  have "mem_attached r' = (mem_attached r)(h := (mem_attached r h)(n \<mapsto> set ps))"
    by (auto simp: fun_eq_iff r' mem_attached_def assoc_map_eq mem_attachments_def update_conv' map_of_clearjunk)
  moreover have "mem_rings r' = mem_rings r"
    by (simp add: fun_eq_iff r' mem_rings_def mem_ring_names_def mem_members_def)
  ultimately show "(\<exists>ps'. mem_attached r' = (mem_attached r)(h := (mem_attached r h)(n \<mapsto> ps'))
         \<and> set ps \<subseteq> ps' \<and> ps' \<subseteq> set ps \<union> perms_of (mem_attached r h n)) \<and> mem_rings r' = mem_rings r"
    by blast
next
  fix r r' :: mem_reg and h
  assume "rg_remove_ring_from_resource mem_registry r h = Inr r'"
  then have r': "r' = r\<lparr>mr_attached := AList.delete h (mr_attached r)\<rparr>" by (simp add: mem_registry_def)
  show "mem_attached r' = (mem_attached r)(h := Map.empty) \<and> mem_rings r' = mem_rings r"
    by (auto simp: fun_eq_iff r' mem_attached_def assoc_map_eq mem_attachments_def delete_conv'
        mem_rings_def mem_ring_names_def mem_members_def)
next
  fix r :: mem_reg and p h perm b
  assume b: "rg_has_permission mem_registry r p h perm = Inr b"
  have "mem_attached r h n = Some s \<longleftrightarrow> (\<exists>ps. (n, ps) \<in> set (mem_attachments r h) \<and> s = set ps)" for n s
    by (simp add: mem_attached_def assoc_map_Some distinct_mem_attachments)
  with b show "b = allowed (mem_rings r) (mem_attached r) p h perm"
    by (auto simp: mem_registry_def allowed_def in_ring_def mem_members_of list_ex_iff)
qed (auto simp: mem_registry_def mem_rings_def split: if_splits)

lemma mem_registry_simps [simp]:
  "rg_list_rings mem_registry r = Inr (mem_ring_names r)"
  "rg_list_resource_rings mem_registry r h = Inr (mem_attachments r h)"
  by (simp_all add: mem_registry_def)

end
