(* ===== verification/Paths.thy ===== *)
theory Paths
  imports Strings
begin

text \<open>
  \<open>std::path\<close> on Unix, as far as the program uses it: a path is its text, and
  \<open>components\<close>, \<open>join\<close>, \<open>file_name\<close>, \<open>strip_prefix\<close> and \<open>parent\<close> are functions of the
  text.  Access to the file system is a parameter (the record \<open>os\<close>).
\<close>

section \<open>Components\<close>

text \<open>
  The next component from the front: its text and what is left.  Only at the start
  of a path are a leading slash and a leading dot components of their own; later,
  empty and dot components are skipped.
\<close>

function next_body :: "string \<Rightarrow> (string \<times> string) option" where
  "next_body s =
     (if s = [] then None
      else let c = takeWhile (\<lambda>x. x \<noteq> CHR ''/'') s; rest = drop 1 (dropWhile (\<lambda>x. x \<noteq> CHR ''/'') s) in
        if c = [] \<or> c = ''.'' then next_body rest else Some (c, rest))"
  by pat_completeness auto
termination
proof (relation "measure length", simp)
  fix s c rest :: string
  assume s: "s \<noteq> []" and c: "c = takeWhile (\<lambda>x. x \<noteq> CHR ''/'') s"
    and r: "rest = drop 1 (dropWhile (\<lambda>x. x \<noteq> CHR ''/'') s)" and e: "c = [] \<or> c = ''.''"
  have "length (dropWhile (\<lambda>x. x \<noteq> CHR ''/'') s) \<le> length s" by (rule length_dropWhile_le)
  with s c r show "(rest, s) \<in> measure length" by (cases "dropWhile (\<lambda>x. x \<noteq> CHR ''/'') s") auto
qed

declare next_body.simps [simp del]

definition next_front :: "bool \<Rightarrow> string \<Rightarrow> (string \<times> string) option" where
  "next_front start s =
     (if start then
        (case s of [] \<Rightarrow> None
         | c # t \<Rightarrow>
           if c = CHR ''/'' then Some (''/'', t)
           else if c = CHR ''.'' \<and> (t = [] \<or> hd t = CHR ''/'') then Some (''.'', t)
           else next_body s)
      else next_body s)"

lemma next_body_shorter: "next_body s = Some (c, rest) \<Longrightarrow> length rest < length s"
proof (induction s rule: next_body.induct)
  case (1 s)
  let ?c = "takeWhile (\<lambda>x. x \<noteq> CHR ''/'') s" and ?r = "drop 1 (dropWhile (\<lambda>x. x \<noteq> CHR ''/'') s)"
  have ne: "s \<noteq> []" using 1(2) by (auto simp: next_body.simps)
  then have le: "length ?r < length s"
    using length_dropWhile_le[of "\<lambda>x. x \<noteq> CHR ''/''" s] by (cases s) auto
  have eq: "next_body s = (if ?c = [] \<or> ?c = ''.'' then next_body ?r else Some (?c, ?r))"
    using ne by (subst next_body.simps) (simp add: Let_def)
  show ?case
  proof (cases "?c = [] \<or> ?c = ''.''")
    case True
    with 1(2) eq have "next_body ?r = Some (c, rest)" by simp
    from 1(1)[OF ne refl refl True this] le show ?thesis by simp
  next
    case False
    with 1(2) eq have "rest = ?r" by (simp only: if_False option.inject prod.inject)
    with le show ?thesis by simp
  qed
qed

lemma next_front_shorter: "next_front start s = Some (c, rest) \<Longrightarrow> length rest < length s"
  by (auto simp: next_front_def dest: next_body_shorter split: if_splits list.splits)

function components_from :: "bool \<Rightarrow> string \<Rightarrow> string list" where
  "components_from start s =
     (case next_front start s of None \<Rightarrow> [] | Some (c, rest) \<Rightarrow> c # components_from False rest)"
  by pat_completeness auto
termination by (relation "measure (\<lambda>(_, s). length s)") (auto dest: next_front_shorter)

declare components_from.simps [simp del]

definition path_components :: "string \<Rightarrow> string list" where
  "path_components s = components_from True s"

text \<open>\<open>Path::file_name\<close>: the last component when it is a normal one.\<close>

definition file_name :: "string \<Rightarrow> string option" where
  "file_name p = (case rev (path_components p) of [] \<Rightarrow> None
     | c # _ \<Rightarrow> if c = ''/'' \<or> c = ''.'' \<or> c = ''..'' then None else Some c)"

section \<open>Joining and stripping\<close>

text \<open>\<open>Path::join\<close>: an absolute argument replaces the path.\<close>

definition path_join :: "string \<Rightarrow> string \<Rightarrow> string" where
  "path_join a b =
     (if b \<noteq> [] \<and> hd b = CHR ''/'' then b
      else if a \<noteq> [] \<and> last a \<noteq> CHR ''/'' then a @ ''/'' @ b else a @ b)"

text \<open>\<open>Components::as_path\<close>: without the empty and dot components at either end.\<close>

fun trim_left :: "nat \<Rightarrow> string \<Rightarrow> string" where
  "trim_left 0 s = s"
| "trim_left (Suc k) s =
     (if s = [] then []
      else let c = takeWhile (\<lambda>x. x \<noteq> CHR ''/'') s in
        if c = [] \<or> c = ''.'' then trim_left k (drop (length c + 1) s) else s)"

fun trim_right :: "nat \<Rightarrow> string \<Rightarrow> string" where
  "trim_right 0 s = s"
| "trim_right (Suc k) s =
     (if s = [] then []
      else let c = rev (takeWhile (\<lambda>x. x \<noteq> CHR ''/'') (rev s)) in
        if c = [] \<or> c = ''.'' then trim_right k (take (length s - (length c + 1)) s) else s)"

definition as_path :: "string \<Rightarrow> string" where
  "as_path s = trim_right (length s) (trim_left (length s) s)"

text \<open>\<open>Path::strip_prefix\<close> compares component by component.\<close>

function strip_components :: "bool \<Rightarrow> string \<Rightarrow> string list \<Rightarrow> (bool \<times> string) option" where
  "strip_components start s base =
     (case base of [] \<Rightarrow> Some (start, s)
      | b # bs \<Rightarrow> (case next_front start s of None \<Rightarrow> None
          | Some (c, rest) \<Rightarrow> if c = b then strip_components False rest bs else None))"
  by pat_completeness auto
termination by (relation "measure (\<lambda>(_, _, bs). length bs)") auto

declare strip_components.simps [simp del]

definition path_strip_prefix :: "string \<Rightarrow> string \<Rightarrow> string option" where
  "path_strip_prefix base p =
     (case strip_components True p (path_components base) of None \<Rightarrow> None
      | Some (start, rest) \<Rightarrow> Some (if start then rest else as_path rest))"

text \<open>\<open>Path::parent\<close>: without the last component, none for a root or the empty path.\<close>

definition path_parent :: "string \<Rightarrow> string option" where
  "path_parent p =
     (case rev (path_components p) of [] \<Rightarrow> None
      | c # cs \<Rightarrow> if c = ''/'' then None
          else Some (foldl path_join [] (rev cs)))"

section \<open>The file system\<close>

record walk_entry =
  we_path :: string
  we_is_file :: bool

record 's os =
  os_exists :: "'s \<Rightarrow> string \<Rightarrow> bool"
  os_is_dir :: "'s \<Rightarrow> string \<Rightarrow> bool"
  os_absolute :: "'s \<Rightarrow> string \<Rightarrow> string + string"
  os_walk :: "'s \<Rightarrow> string \<Rightarrow> (string + walk_entry) list"
  os_create_dir_all :: "'s \<Rightarrow> string \<Rightarrow> string + 's"
  os_home :: "'s \<Rightarrow> string option"

section \<open>Names in a directory\<close>

lemma join_file: "d \<noteq> [] \<Longrightarrow> last d \<noteq> CHR ''/'' \<Longrightarrow> n \<noteq> [] \<Longrightarrow> hd n \<noteq> CHR ''/'' \<Longrightarrow>
  path_join d n = d @ ''/'' @ n"
  by (simp add: path_join_def)

lemma join_absolute: "b \<noteq> [] \<Longrightarrow> hd b = CHR ''/'' \<Longrightarrow> path_join a b = b"
  by (simp add: path_join_def)

end
