(* ===== verification/Node.thy ===== *)
theory Node
  imports Ticket Registry Paths
begin

text \<open>
  \<open>src/src/core/node.rs\<close>: the local blob operations of a node.  The blob store
  (\<open>iroh-blobs\<close> \<open>FsStore\<close>: content-addressed blobs, named tags that pin them, and
  collections) is a parameter, the record \<open>fs_store\<close>; the locale \<open>blob_store\<close> states
  how its operations act on the tags.  Import, listing, deletion and tickets are the
  program's; the central fact is that the listing for a peer shows exactly the blobs
  the registry would let that peer read.
\<close>

datatype blob_status = NotFound | Partial "u64 option" | Complete u64

record tag_info =
  ti_name :: "byte list"
  ti_hash :: blob_hash
  ti_format :: blob_format

type_synonym collection = "(string \<times> blob_hash) list"

record 's fs_store =
  fs_tags_list :: "'s \<Rightarrow> string + (string + tag_info) list"
  fs_tags_set :: "'s \<Rightarrow> string \<Rightarrow> blob_hash \<Rightarrow> blob_format \<Rightarrow> string + 's"
  fs_tags_delete :: "'s \<Rightarrow> byte list \<Rightarrow> string + 's"
  fs_status :: "'s \<Rightarrow> blob_hash \<Rightarrow> string + blob_status"
  fs_add_path :: "'s \<Rightarrow> string \<Rightarrow> string + (blob_hash \<times> 's)"
  fs_load_collection :: "'s \<Rightarrow> blob_hash \<Rightarrow> string + collection"
  fs_store_collection :: "'s \<Rightarrow> collection \<Rightarrow> string + (blob_hash \<times> 's)"
  fs_batch :: "'s \<Rightarrow> string + unit"
  fs_temp_tag :: "'s \<Rightarrow> blob_hash \<Rightarrow> blob_format \<Rightarrow> string + unit"
  fs_get_bytes :: "'s \<Rightarrow> blob_hash \<Rightarrow> string + byte list"
  fs_export :: "'s \<Rightarrow> blob_hash \<Rightarrow> string \<Rightarrow> string + 's"

record blob_list_entry =
  be_hash :: blob_hash
  be_format :: blob_format
  be_name :: string
  be_file_count :: "nat option"
  be_total_size :: "u64 option"

section \<open>Import\<close>

definition leaf_name :: "string \<Rightarrow> string option" where
  "leaf_name path = map_option (\<lambda>n. from_utf8_lossy (str_bytes n)) (file_name path)"

definition tag_key :: "iroh \<Rightarrow> string option \<Rightarrow> blob_hash \<Rightarrow> string" where
  "tag_key I name hash = (case name of Some n \<Rightarrow> n | None \<Rightarrow> ir_show_hash I hash)"

definition import_file :: "'s fs_store \<Rightarrow> 's os \<Rightarrow> iroh \<Rightarrow> string \<Rightarrow> ('s, blob_hash \<times> blob_format) act" where
  "import_file S Os I path =
     bindA (queryA (\<lambda>s. lift_err (os_absolute Os s path))) (\<lambda>path.
     let tag_name = leaf_name path in
     bindA (stepA (\<lambda>s. ctxs ''add_path'' (fs_add_path S s path))) (\<lambda>hash.
     thenA (updA (\<lambda>s. ctxs ''pinning blob tag'' (fs_tags_set S s (tag_key I tag_name hash) hash Raw)))
       (ret (hash, Raw))))"

text \<open>The files under a directory with their paths relative to it; entries that cannot
  be read and entries that are not files are skipped.\<close>

definition directory_files :: "'s os \<Rightarrow> 's \<Rightarrow> string \<Rightarrow> (string \<times> string) list" where
  "directory_files Os s dir =
     map (\<lambda>e. (from_utf8_lossy (str_bytes
            (case path_strip_prefix dir (we_path e) of Some r \<Rightarrow> r | None \<Rightarrow> we_path e)), we_path e))
       (filter we_is_file (concat (map (\<lambda>r. case r of Inl _ \<Rightarrow> [] | Inr e \<Rightarrow> [e]) (os_walk Os s dir))))"

fun import_files ::
    "'s fs_store \<Rightarrow> 's os \<Rightarrow> (string \<times> string) list \<Rightarrow> collection \<Rightarrow> ('s, collection) act" where
  "import_files S Os [] col = ret col"
| "import_files S Os ((name, path) # files) col =
     bindA (queryA (\<lambda>s. lift_err (os_absolute Os s path))) (\<lambda>path.
     bindA (stepA (\<lambda>s. lift_err (fs_add_path S s path))) (\<lambda>hash.
       import_files S Os files (col @ [(name, hash)])))"

definition import_directory :: "'s fs_store \<Rightarrow> 's os \<Rightarrow> iroh \<Rightarrow> string \<Rightarrow> ('s, blob_hash \<times> blob_format) act" where
  "import_directory S Os I dir =
     bindA (getA (\<lambda>s. directory_files Os s dir)) (\<lambda>files.
     let dir_name = leaf_name dir in
     bindA (import_files S Os files []) (\<lambda>col.
     bindA (stepA (\<lambda>s. lift_err (fs_store_collection S s col))) (\<lambda>hash.
     thenA (updA (\<lambda>s. ctxs ''pinning collection tag'' (fs_tags_set S s (tag_key I dir_name hash) hash HashSeq)))
       (ret (hash, HashSeq)))))"

definition import_path :: "'s fs_store \<Rightarrow> 's os \<Rightarrow> iroh \<Rightarrow> string \<Rightarrow> ('s, blob_hash \<times> blob_format) act" where
  "import_path S Os I path s =
     (if os_is_dir Os s path then import_directory S Os I path s else import_file S Os I path s)"

section \<open>Listing\<close>

text \<open>The tag list: the first error of the stream ends it.\<close>

definition tag_infos :: "'s fs_store \<Rightarrow> 's \<Rightarrow> tag_info list result" where
  "tag_infos S s = bindR (lift_err (fs_tags_list S s)) (\<lambda>items. collectR (map lift_err items))"

text \<open>Sizes: a \<open>u64\<close> sum over the members of a collection, none when a member is not
  complete.  The same code stands in the catalog handler.\<close>

definition complete_size :: "'s fs_store \<Rightarrow> 's \<Rightarrow> blob_hash \<Rightarrow> u64 option" where
  "complete_size S s hash = (case fs_status S s hash of Inr (Complete sz) \<Rightarrow> Some sz | _ \<Rightarrow> None)"

fun sum_sizes :: "'s fs_store \<Rightarrow> 's \<Rightarrow> collection \<Rightarrow> u64 \<Rightarrow> u64 option" where
  "sum_sizes S s [] acc = Some acc"
| "sum_sizes S s ((_, fhash) # col) acc = (case complete_size S s fhash of
     Some sz \<Rightarrow> sum_sizes S s col (acc + sz) | None \<Rightarrow> None)"

fun blob_metrics :: "'s fs_store \<Rightarrow> 's \<Rightarrow> blob_hash \<Rightarrow> blob_format \<Rightarrow> nat option \<times> u64 option" where
  "blob_metrics S s hash Raw = (None, complete_size S s hash)"
| "blob_metrics S s hash HashSeq = (case fs_load_collection S s hash of
     Inr col \<Rightarrow> (Some (length col), sum_sizes S s col 0)
   | Inl _ \<Rightarrow> (None, None))"

text \<open>The closure of \<open>raw.retain\<close>.\<close>

definition retained ::
    "'r registry \<Rightarrow> 'r \<Rightarrow> ring list option \<Rightarrow> ring set option \<Rightarrow> blob_hash \<Rightarrow> bool" where
  "retained R r ring_names peer_rings hash =
     (let blob_rings = unwrap_or (lift_err (rg_list_resource_rings R r (hash_word hash))) [] in
      (case ring_names of None \<Rightarrow> True
       | Some rset \<Rightarrow> list_ex (\<lambda>(n, _). n \<in> set rset) blob_rings) \<and>
      (case peer_rings of None \<Rightarrow> True
       | Some pset \<Rightarrow> list_ex (\<lambda>(n, perms). n \<in> pset \<and> Read \<in> set perms) blob_rings))"

definition list_blobs ::
    "'r registry \<Rightarrow> iroh \<Rightarrow> 's fs_store \<Rightarrow> 'r \<Rightarrow> 's \<Rightarrow> string option \<Rightarrow> ring list option
     \<Rightarrow> blob_list_entry list result" where
  "list_blobs R I S r s peer rings =
     bindR (tag_infos S s) (\<lambda>infos.
     let raw = map (\<lambda>i. (ti_hash i, ti_format i, from_utf8_lossy (ti_name i))) infos in
     bindR (transpose_map (peer_ring_set R I r) peer) (\<lambda>peer_rings.
     let raw = (if peer_rings \<noteq> None \<or> rings \<noteq> None
       then filter (\<lambda>(hash, _, _). retained R r rings peer_rings hash) raw else raw) in
     Inr (map (\<lambda>(hash, format, name).
       case blob_metrics S s hash format of (file_count, total_size) \<Rightarrow>
         \<lparr>be_hash = hash, be_format = format, be_name = name,
          be_file_count = file_count, be_total_size = total_size\<rparr>) raw)))"

section \<open>Deletion and tickets\<close>

definition delete_blob :: "'s fs_store \<Rightarrow> iroh \<Rightarrow> blob_hash \<Rightarrow> ('s, unit) act" where
  "delete_blob S I hash =
     bindA (queryA (tag_infos S)) (\<lambda>infos.
     let to_delete = map ti_name (filter (\<lambda>i. ti_hash i = hash) infos) in
     if to_delete = [] then fail (anyhow_msg (''no tag found for hash '' @ ir_show_hash I hash))
     else forA to_delete (\<lambda>name. updA (\<lambda>s. ctxs ''removing blob tag'' (fs_tags_delete S s name))))"

definition make_ticket :: "endpoint_addr \<Rightarrow> blob_hash \<Rightarrow> blob_format \<Rightarrow> string option \<Rightarrow> share_ticket" where
  "make_ticket addr hash format name = ticket_from_format (relay_only_addr addr) hash format name"

section \<open>The contract of the blob store\<close>

type_synonym tags = "byte list \<rightharpoonup> blob_hash \<times> blob_format"

definition tag_map :: "tag_info list \<Rightarrow> tags" where
  "tag_map infos = map_of (map (\<lambda>i. (ti_name i, ti_hash i, ti_format i)) infos)"

lemma tag_infos_items: "tag_infos S s = Inr infos \<Longrightarrow> fs_tags_list S s = Inr (map Inr infos)"
  by (auto simp: tag_infos_def bindR_Inr collectR_Inr list_eq_iff_nth_eq intro!: nth_equalityI)

locale blob_store =
  fixes S :: "'s fs_store"
    and tags :: "'s \<Rightarrow> tags"
  assumes tags_list: "fs_tags_list S s = Inr (map Inr infos) \<Longrightarrow>
      distinct (map ti_name infos) \<and> tag_map infos = tags s"
    and tags_set: "fs_tags_set S s n h f = Inr s' \<Longrightarrow> tags s' = (tags s)(str_bytes n \<mapsto> (h, f))"
    and tags_delete: "fs_tags_delete S s bs = Inr s' \<Longrightarrow> tags s' = (tags s)(bs := None)"
    and add_path: "fs_add_path S s path = Inr (h, s') \<Longrightarrow> tags s' = tags s"
    and store_collection: "fs_store_collection S s col = Inr (h, s') \<Longrightarrow> tags s' = tags s"
begin

lemma tag_infos_Inr:
  assumes "tag_infos S s = Inr infos"
  shows "distinct (map ti_name infos)" "tag_map infos = tags s"
proof -
  from tag_infos_items[OF assms] have "fs_tags_list S s = Inr (map Inr infos)" .
  from tags_list[OF this] show "distinct (map ti_name infos)" "tag_map infos = tags s" by auto
qed

lemma tag_map_iff:
  assumes "tag_infos S s = Inr infos"
  shows "tags s n = Some (h, f) \<longleftrightarrow> (\<exists>i \<in> set infos. ti_name i = n \<and> ti_hash i = h \<and> ti_format i = f)"
proof -
  have "distinct (map fst (map (\<lambda>i. (ti_name i, ti_hash i, ti_format i)) infos))"
    using tag_infos_Inr(1)[OF assms] by (simp add: comp_def)
  from map_of_eq_Some_iff[OF this, of n "(h, f)"] show ?thesis
    unfolding tag_infos_Inr(2)[OF assms, symmetric] tag_map_def by auto
qed

text \<open>Import: on success exactly one tag is written, named after the leaf of the path.\<close>

lemma import_file_tags:
  assumes "import_file S Os I path s = (Inr (h, f), s')"
  shows "f = Raw \<and> (\<exists>abs. os_absolute Os s path = Inr abs
    \<and> tags s' = (tags s)(str_bytes (tag_key I (leaf_name abs) h) \<mapsto> (h, Raw)))"
  using assms
  by (auto simp: import_file_def act_Inr Let_def dest!: add_path tags_set)

lemma import_files_tags:
  "import_files S Os files col s = (Inr col', s') \<Longrightarrow>
     tags s' = tags s \<and> map fst col' = map fst col @ map fst files"
proof (induction files arbitrary: col s)
  case (Cons fp files)
  obtain name path where fp: "fp = (name, path)" by (cases fp)
  with Cons.prems obtain abs h t where
    "fs_add_path S s abs = Inr (h, t)" "import_files S Os files (col @ [(name, h)]) t = (Inr col', s')"
    by (auto simp: act_Inr)
  with Cons.IH add_path fp show ?case by fastforce
qed (simp add: act_Inr)

lemma import_directory_tags:
  assumes "import_directory S Os I dir s = (Inr (h, f), s')"
  shows "f = HashSeq \<and> tags s' = (tags s)(str_bytes (tag_key I (leaf_name dir) h) \<mapsto> (h, HashSeq))"
  using assms
  by (auto simp: import_directory_def act_Inr Let_def dest!: store_collection tags_set
      import_files_tags)

text \<open>Deletion: on success exactly the tags of the hash are gone, and there was one.\<close>

lemma delete_tags:
  "forA names (\<lambda>name. updA (\<lambda>s. ctxs c (fs_tags_delete S s name))) s = (Inr (), s') \<Longrightarrow>
     tags s' = (\<lambda>n. if n \<in> set names then None else tags s n)"
proof (induction names arbitrary: s)
  case (Cons n names)
  then obtain t where t: "fs_tags_delete S s n = Inr t"
    and rest: "forA names (\<lambda>name. updA (\<lambda>s. ctxs c (fs_tags_delete S s name))) t = (Inr (), s')"
    by (auto simp: act_Inr)
  from Cons.IH[OF rest] tags_delete[OF t] show ?case by (auto simp: fun_eq_iff)
qed (auto simp: act_Inr)

lemma delete_blob_tags:
  assumes "delete_blob S I h s = (Inr (), s')"
  shows "(\<exists>n f. tags s n = Some (h, f))
    \<and> tags s' = (\<lambda>n. if \<exists>f. tags s n = Some (h, f) then None else tags s n)"
proof -
  from assms obtain infos where infos: "tag_infos S s = Inr infos"
    and some: "filter (\<lambda>i. ti_hash i = h) infos \<noteq> []"
    and loop: "forA (map ti_name (filter (\<lambda>i. ti_hash i = h) infos))
      (\<lambda>name. updA (\<lambda>s. ctxs ''removing blob tag'' (fs_tags_delete S s name))) s = (Inr (), s')"
    by (auto simp: delete_blob_def act_Inr Let_def split: if_splits)
  have names: "n \<in> set (map ti_name (filter (\<lambda>i. ti_hash i = h) infos)) \<longleftrightarrow> (\<exists>f. tags s n = Some (h, f))" for n
    unfolding tag_map_iff[OF infos] by auto
  from some obtain n where "n \<in> set (map ti_name (filter (\<lambda>i. ti_hash i = h) infos))"
    by (metis list.map_disc_iff list.set_sel(1))
  with names have "\<exists>n f. tags s n = Some (h, f)" by blast
  moreover have "tags s' = (\<lambda>n. if \<exists>f. tags s n = Some (h, f) then None else tags s n)"
    using delete_tags[OF loop] unfolding names .
  ultimately show ?thesis by blast
qed

lemma delete_blob_missing:
  assumes "tag_infos S s = Inr infos" "\<nexists>n f. tags s n = Some (h, f)"
  shows "delete_blob S I h s = (bail (''no tag found for hash '' @ ir_show_hash I h), s)"
proof -
  have "filter (\<lambda>i. ti_hash i = h) infos = []"
    using assms(2) unfolding tag_map_iff[OF assms(1)] by (auto simp: filter_empty_conv)
  with assms(1) show ?thesis
    by (simp add: delete_blob_def bindA_def queryA_def fail_def bail_def)
qed

end

section \<open>What a listing shows\<close>

text \<open>The specification: a blob is listed when it is attached to one of the named rings
  (if any are named) and the peer (if one is named) may read it.\<close>

definition listed ::
    "(ring \<rightharpoonup> members) \<Rightarrow> (bytes32 \<Rightarrow> ring \<rightharpoonup> permission set) \<Rightarrow> ring list option
     \<Rightarrow> endpoint_id option \<Rightarrow> blob_hash \<Rightarrow> bool" where
  "listed rs as names peer h \<longleftrightarrow>
     (\<forall>ns. names = Some ns \<longrightarrow> (\<exists>n \<in> set ns. as (hash_word h) n \<noteq> None)) \<and>
     (\<forall>p. peer = Some p \<longrightarrow> allowed rs as p (hash_word h) Read)"

definition blob_entry :: "'s fs_store \<Rightarrow> 's \<Rightarrow> tag_info \<Rightarrow> blob_list_entry" where
  "blob_entry S s i =
     \<lparr>be_hash = ti_hash i, be_format = ti_format i, be_name = from_utf8_lossy (ti_name i),
      be_file_count = fst (blob_metrics S s (ti_hash i) (ti_format i)),
      be_total_size = snd (blob_metrics S s (ti_hash i) (ti_format i))\<rparr>"

lemma assoc_names: "(\<exists>(n, ps) \<in> set l. P n) \<longleftrightarrow> (\<exists>n. P n \<and> assoc_map l n \<noteq> None)"
  by (auto simp: assoc_map_eq map_of_eq_None_iff) (force simp: image_iff)

context live_registry
begin

lemma in_ring_exists: "in_ring (rings r) n p \<Longrightarrow> n \<in> dom (rings r)"
  using open_exists[of r] by (cases "rings r n") (auto simp: in_ring_def members_of_def)

lemma retained_eq:
  "retained R r names (map_option (\<lambda>p. {n \<in> dom (rings r). in_ring (rings r) n p}) peer) h
     \<longleftrightarrow> listed (rings r) (attached r) names peer h"
proof -
  obtain l where l: "rg_list_resource_rings R r (hash_word h) = Inr l"
    using live_list_resource_rings by blast
  note d = list_resource_rings[OF l, THEN conjunct1] and a = list_resource_rings[OF l, THEN conjunct2]
  have names: "list_ex (\<lambda>(n, _). n \<in> set ns) l \<longleftrightarrow> (\<exists>n \<in> set ns. attached r (hash_word h) n \<noteq> None)" for ns
    unfolding list_ex_iff a[symmetric] using assoc_names[of l "\<lambda>n. n \<in> set ns"] by auto
  have peer: "list_ex (\<lambda>(n, perms). n \<in> {n \<in> dom (rings r). in_ring (rings r) n p} \<and> Read \<in> set perms) l
      \<longleftrightarrow> allowed (rings r) (attached r) p (hash_word h) Read" for p
    unfolding list_ex_iff allowed_def a[symmetric]
    using assoc_map_Some[OF d] in_ring_exists by fastforce
  show ?thesis
    by (cases names; cases peer) (simp_all add: retained_def listed_def l names peer[simplified] Let_def)
qed

lemma list_blobs_eq:
  assumes infos: "tag_infos S s = Inr infos"
    and peer: "transpose_map (parse_peer_id I) peer = Inr peer_id"
  shows "list_blobs R I S r s peer names
    = Inr (map (blob_entry S s) (filter (\<lambda>i. listed (rings r) (attached r) names peer_id (ti_hash i)) infos))"
proof -
  let ?sets = "map_option (\<lambda>p. {n \<in> dom (rings r). in_ring (rings r) n p}) peer_id"
  have sets: "transpose_map (peer_ring_set R I r) peer = Inr ?sets"
    using peer peer_ring_set_eq[of I _ _ r]
    by (cases peer) (auto simp: bindR_Inr)
  have entry: "(case blob_metrics S s (ti_hash i) (ti_format i) of (file_count, total_size) \<Rightarrow>
         \<lparr>be_hash = ti_hash i, be_format = ti_format i, be_name = from_utf8_lossy (ti_name i),
          be_file_count = file_count, be_total_size = total_size\<rparr>) = blob_entry S s i" for i
    by (simp add: blob_entry_def split: prod.split)
  have all: "peer_id = None \<Longrightarrow> names = None \<Longrightarrow> listed (rings r) (attached r) names peer_id h" for h
    by (simp add: listed_def)
  show ?thesis
    using infos sets all
    by (auto simp: list_blobs_def Let_def filter_map comp_def entry retained_eq
        intro!: arg_cong[where f = "map (blob_entry S s)"] filter_cong)
qed

lemma list_blobs_bad_peer:
  assumes "tag_infos S s = Inr infos" "parse_peer_id I peer = Inl e"
  shows "list_blobs R I S r s (Some peer) names = Inl e"
  using assms by (simp add: list_blobs_def peer_ring_set_def)

end

section \<open>A reference store and file system in memory\<close>

record mem_disk =
  md_tags :: "(byte list \<times> blob_hash \<times> blob_format) list"
  md_blobs :: "(blob_hash \<times> u64) list"
  md_cols :: "(blob_hash \<times> collection) list"
  md_files :: "(string \<times> blob_hash option) list"

text \<open>A path of the file system holds the hash of its contents or is a directory; a
  stored collection gets a fresh hash.\<close>

definition mem_store :: "mem_disk fs_store" where
  "mem_store = \<lparr>
     fs_tags_list = (\<lambda>d. Inr (map (\<lambda>(n, h, f). Inr \<lparr>ti_name = n, ti_hash = h, ti_format = f\<rparr>)
        (AList.clearjunk (md_tags d)))),
     fs_tags_set = (\<lambda>d n h f. Inr (d\<lparr>md_tags := AList.update (str_bytes n) (h, f) (md_tags d)\<rparr>)),
     fs_tags_delete = (\<lambda>d n. Inr (d\<lparr>md_tags := AList.delete n (md_tags d)\<rparr>)),
     fs_status = (\<lambda>d h. Inr (case map_of (md_blobs d) h of None \<Rightarrow> NotFound | Some n \<Rightarrow> Complete n)),
     fs_add_path = (\<lambda>d p. case map_of (md_files d) p of
        Some (Some h) \<Rightarrow> Inr (h, d\<lparr>md_blobs := AList.update h 1 (md_blobs d)\<rparr>)
      | _ \<Rightarrow> Inl ''no such file''),
     fs_load_collection = (\<lambda>d h. case map_of (md_cols d) h of None \<Rightarrow> Inl ''not found'' | Some c \<Rightarrow> Inr c),
     fs_store_collection = (\<lambda>d c. let h = Hash (of_nat (1000 + length (md_cols d))) in
        Inr (h, d\<lparr>md_cols := (h, c) # md_cols d, md_blobs := AList.update h 1 (md_blobs d)\<rparr>)),
     fs_batch = (\<lambda>d. Inr ()),
     fs_temp_tag = (\<lambda>d h f. Inr ()),
     fs_get_bytes = (\<lambda>d h. case map_of (md_cols d) h of None \<Rightarrow> Inl ''not found''
        | Some c \<Rightarrow> Inr (concat (map (hash_bytes \<circ> snd) c))),
     fs_export = (\<lambda>d h p. case map_of (md_blobs d) h of None \<Rightarrow> Inl ''not found''
        | Some _ \<Rightarrow> Inr (d\<lparr>md_files := AList.update p (Some h) (md_files d)\<rparr>)) \<rparr>"

definition mem_tags :: "mem_disk \<Rightarrow> tags" where
  "mem_tags d = map_of (md_tags d)"

definition mem_os :: "mem_disk os" where
  "mem_os = \<lparr>
     os_exists = (\<lambda>d p. map_of (md_files d) p \<noteq> None),
     os_is_dir = (\<lambda>d p. map_of (md_files d) p = Some None),
     os_absolute = (\<lambda>d p. Inr (path_join ''/'' p)),
     os_walk = (\<lambda>d p. map (\<lambda>(q, v). Inr \<lparr>we_path = q, we_is_file = (v \<noteq> None)\<rparr>)
        (filter (\<lambda>(q, _). take (length p + 1) q = p @ ''/'') (md_files d))),
     os_create_dir_all = (\<lambda>d p. case map_of (md_files d) p of
        Some (Some _) \<Rightarrow> Inl ''file exists''
      | _ \<Rightarrow> Inr (d\<lparr>md_files := AList.update p None (md_files d)\<rparr>)),
     os_home = (\<lambda>d. Some ''/home/u'') \<rparr>"

lemma mem_store_simps [simp]:
  "fs_tags_list mem_store d = Inr (map (\<lambda>(n, h, f). Inr \<lparr>ti_name = n, ti_hash = h, ti_format = f\<rparr>)
        (AList.clearjunk (md_tags d)))"
  "fs_tags_set mem_store d n h f = Inr (d\<lparr>md_tags := AList.update (str_bytes n) (h, f) (md_tags d)\<rparr>)"
  "fs_tags_delete mem_store d bs = Inr (d\<lparr>md_tags := AList.delete bs (md_tags d)\<rparr>)"
  "fs_batch mem_store d = Inr ()" "fs_temp_tag mem_store d h f = Inr ()"
  by (simp_all add: mem_store_def)

lemma mem_tag_infos [simp]:
  "tag_infos mem_store d = Inr (map (\<lambda>(n, h, f). \<lparr>ti_name = n, ti_hash = h, ti_format = f\<rparr>)
     (AList.clearjunk (md_tags d)))"
  by (simp add: tag_infos_def collectR_Inr case_prod_unfold comp_def)

interpretation mem_store: blob_store mem_store mem_tags
proof unfold_locales
  fix d :: mem_disk and infos
  assume "fs_tags_list mem_store d = Inr (map Inr infos)"
  then have "tag_infos mem_store d = Inr infos"
    by (simp add: tag_infos_def collectR_Inr comp_def del: mem_tag_infos mem_store_simps)
  then have infos: "infos = map (\<lambda>(n, h, f). \<lparr>ti_name = n, ti_hash = h, ti_format = f\<rparr>) (AList.clearjunk (md_tags d))"
    by simp
  have "map ti_name infos = map fst (AList.clearjunk (md_tags d))"
    and "map (\<lambda>i. (ti_name i, ti_hash i, ti_format i)) infos = AList.clearjunk (md_tags d)"
    unfolding infos by (simp_all add: comp_def case_prod_unfold)
  then show "distinct (map ti_name infos) \<and> tag_map infos = mem_tags d"
    by (simp add: tag_map_def mem_tags_def map_of_clearjunk distinct_clearjunk)
qed (auto simp: mem_tags_def mem_store_def update_conv' delete_conv' Let_def
    split: option.splits)

definition sample_disk :: mem_disk where
  "sample_disk = \<lparr>md_tags = [(str_bytes ''a.txt'', Hash 1, Raw), (str_bytes ''b.txt'', Hash 2, Raw)],
     md_blobs = [(Hash 1, 10), (Hash 2, 20)], md_cols = [],
     md_files = [(''/x/a.txt'', Some (Hash 3))]\<rparr>"

definition sample_reg :: mem_reg where
  "sample_reg = \<lparr>mr_rings = [(''friends'', [(EndpointId 5, None)])],
     mr_attached = [(1, [(''friends'', [Read])])]\<rparr>"

section \<open>Properties\<close>

text \<open>
  C13: \<open>blob list\<close> shows, in tag order, exactly the tagged blobs that are attached to one
  of the named rings (when rings are named) and that the registry's permission check
  would let the named peer read (when a peer is named), each with its name, file count
  and size.
\<close>
theorem blob_list_shows_readable:
  assumes "live_registry R rings attached" "tag_infos S s = Inr infos"
    and "transpose_map (parse_peer_id I) peer = Inr peer_id"
  shows "list_blobs R I S r s peer names
    = Inr (map (blob_entry S s) (filter (\<lambda>i. listed (rings r) (attached r) names peer_id (ti_hash i)) infos))"
  using live_registry.list_blobs_eq[OF assms] .

lemma blob_list_shows_readable_witness:
  "list_blobs mem_registry hex_iroh mem_store sample_reg sample_disk
     (Some (hex_encode (id_bytes (EndpointId 5)))) None
   = Inr (map (blob_entry mem_store sample_disk)
       [\<lparr>ti_name = str_bytes ''a.txt'', ti_hash = Hash 1, ti_format = Raw\<rparr>])"
proof -
  have p: "transpose_map (parse_peer_id hex_iroh) (Some (hex_encode (id_bytes (EndpointId 5))))
      = Inr (Some (EndpointId 5))"
    by (simp add: parse_peer_id_def id_bytes_def)
  have tags: "tag_infos mem_store sample_disk =
      Inr [\<lparr>ti_name = str_bytes ''a.txt'', ti_hash = Hash 1, ti_format = Raw\<rparr>,
           \<lparr>ti_name = str_bytes ''b.txt'', ti_hash = Hash 2, ti_format = Raw\<rparr>]"
    by (simp add: sample_disk_def)
  have "listed (mem_rings sample_reg) (mem_attached sample_reg) None (Some (EndpointId 5)) (Hash 1)"
    by (auto simp: listed_def allowed_def in_ring_def mem_attached_def assoc_map_eq mem_attachments_def
        mem_members_of mem_members_def sample_reg_def)
  moreover have "\<not> listed (mem_rings sample_reg) (mem_attached sample_reg) None (Some (EndpointId 5)) (Hash 2)"
    by (auto simp: listed_def allowed_def in_ring_def mem_attached_def assoc_map_eq mem_attachments_def
        mem_members_of mem_members_def sample_reg_def)
  ultimately show ?thesis
    using blob_list_shows_readable[OF mem_reg.live_registry_axioms tags p, of sample_reg None] by simp
qed

text \<open>
  Deleting a blob removes exactly the tags that pin it, and succeeds only when there
  was one; every other blob keeps its tags.
\<close>
theorem delete_blob_exact:
  assumes "blob_store S tags" "delete_blob S I h s = (Inr (), s')"
  shows "(\<exists>n f. tags s n = Some (h, f))
    \<and> (\<forall>n. tags s' n = (if \<exists>f. tags s n = Some (h, f) then None else tags s n))"
  using blob_store.delete_blob_tags[OF assms] by simp

lemma delete_blob_exact_witness:
  "\<exists>s'. delete_blob mem_store hex_iroh (Hash 1) sample_disk = (Inr (), s')
     \<and> (\<forall>n f. mem_tags s' n \<noteq> Some (Hash 1, f))"
proof -
  have "\<exists>s'. delete_blob mem_store hex_iroh (Hash 1) sample_disk = (Inr (), s')"
    by (simp add: delete_blob_def sample_disk_def bindA_def queryA_def thenA_def updA_def ret_def)
  then obtain s' where s': "delete_blob mem_store hex_iroh (Hash 1) sample_disk = (Inr (), s')" by blast
  from delete_blob_exact[OF mem_store.blob_store_axioms s'] s' show ?thesis by auto
qed

text \<open>
  C38: A file is pinned under its leaf name only, so importing a file replaces the tag of
  an earlier import with the same leaf name: a blob that had no other tag loses its
  last pin and no longer appears in any listing.
\<close>
theorem import_same_name_unpins:
  assumes "blob_store S tags" "import_file S Os I path s = (Inr (h, f), s')"
    and "os_absolute Os s path = Inr full" "leaf_name full = Some n"
    and "g \<noteq> h" "\<And>m k. tags s m = Some (g, k) \<Longrightarrow> m = str_bytes n"
  shows "f = Raw \<and> tags s' (str_bytes n) = Some (h, Raw) \<and> (\<forall>m k. tags s' m \<noteq> Some (g, k))"
  using blob_store.import_file_tags[OF assms(1,2)] assms(3-6) by (auto simp: tag_key_def)

lemma import_same_name_unpins_witness:
  "\<exists>s'. import_file mem_store mem_os hex_iroh ''/x/a.txt'' sample_disk = (Inr (Hash 3, Raw), s')
     \<and> (\<forall>m k. mem_tags s' m \<noteq> Some (Hash 1, k))"
proof -
  have n: "leaf_name ''/x/a.txt'' = Some ''a.txt''"
    by code_simp
  have abs: "os_absolute mem_os sample_disk ''/x/a.txt'' = Inr ''/x/a.txt''"
    by (simp add: mem_os_def path_join_def)
  have "\<exists>s'. import_file mem_store mem_os hex_iroh ''/x/a.txt'' sample_disk = (Inr (Hash 3, Raw), s')"
    by (simp add: import_file_def abs n sample_disk_def mem_store_def bindA_def queryA_def thenA_def
        updA_def stepA_def ret_def mem_os_def path_join_def)
  then obtain s' where s': "import_file mem_store mem_os hex_iroh ''/x/a.txt'' sample_disk = (Inr (Hash 3, Raw), s')"
    by blast
  have "mem_tags sample_disk m = Some (Hash 1, k) \<Longrightarrow> m = str_bytes ''a.txt''" for m k
    by (auto simp: mem_tags_def sample_disk_def split: if_splits)
  from import_same_name_unpins[OF mem_store.blob_store_axioms s' abs n _ this] s' show ?thesis by auto
qed

end
