(* ===== verification/Redb.thy ===== *)
theory Redb
  imports Prelude "HOL-Library.AList"
begin

text \<open>
  The interface of the embedded database (crate \<open>redb\<close>) as far as the program uses it:
  one table at a time, opened inside a read or a write transaction.  The database is
  not part of the repository, so its operations are a parameter (the record \<open>redb\<close>)
  of every definition that uses them; each may fail with a message.  The locale
  \<open>redb_table\<close> states the documented behaviour the stores rely on; \<open>redb_live\<close> adds
  that no operation fails.  A write transaction that is dropped before \<open>commit\<close> is
  aborted, so an operation that fails leaves the committed contents as they were: the
  store operations return a new database only when they succeed.
\<close>

record ('db, 'tx, 'k, 'v) redb =
  rd_begin_read :: "'db \<Rightarrow> string + 'tx"
  rd_begin_write :: "'db \<Rightarrow> string + 'tx"
  rd_open_table :: "'tx \<Rightarrow> string + 'tx"
  rd_get :: "'tx \<Rightarrow> 'k \<Rightarrow> string + 'v option"
  rd_insert :: "'tx \<Rightarrow> 'k \<Rightarrow> 'v \<Rightarrow> string + 'tx"
  rd_remove :: "'tx \<Rightarrow> 'k \<Rightarrow> string + ('tx \<times> 'v option)"
  rd_iter :: "'tx \<Rightarrow> string + (string + ('k \<times> 'v)) list"
  rd_commit :: "'db \<Rightarrow> 'tx \<Rightarrow> string + 'db"

text \<open>The two transaction shapes of the stores, with the messages their steps carry.\<close>

definition with_write ::
    "('db, 'tx, 'k, 'v) redb \<Rightarrow> string \<Rightarrow> string \<Rightarrow> string \<Rightarrow> ('tx \<Rightarrow> 'tx result) \<Rightarrow> 'db \<Rightarrow> 'db result" where
  "with_write D c1 c2 c3 body db =
     bindR (ctxs c1 (rd_begin_write D db)) (\<lambda>tx.
     bindR (ctxs c2 (rd_open_table D tx)) (\<lambda>t.
     bindR (body t) (\<lambda>t'. ctxs c3 (rd_commit D db t'))))"

definition with_read ::
    "('db, 'tx, 'k, 'v) redb \<Rightarrow> string \<Rightarrow> string \<Rightarrow> ('tx \<Rightarrow> 'a result) \<Rightarrow> 'db \<Rightarrow> 'a result" where
  "with_read D c1 c2 body db =
     bindR (ctxs c1 (rd_begin_read D db)) (\<lambda>tx.
     bindR (ctxs c2 (rd_open_table D tx)) body)"

section \<open>The contract\<close>

locale redb_table =
  fixes D :: "('db, 'tx, 'k, 'v) redb"
    and view :: "'db \<Rightarrow> 'k \<rightharpoonup> 'v"
    and tview :: "'tx \<Rightarrow> 'k \<rightharpoonup> 'v"
  assumes begin_read: "rd_begin_read D db = Inr tx \<Longrightarrow> tview tx = view db"
    and begin_write: "rd_begin_write D db = Inr tx \<Longrightarrow> tview tx = view db"
    and open_table: "rd_open_table D tx = Inr t \<Longrightarrow> tview t = tview tx"
    and get: "rd_get D t k = Inr v \<Longrightarrow> v = tview t k"
    and insert: "rd_insert D t k w = Inr t' \<Longrightarrow> tview t' = (tview t)(k \<mapsto> w)"
    and remove: "rd_remove D t k = Inr (t', v) \<Longrightarrow> tview t' = (tview t)(k := None) \<and> v = tview t k"
    and iter: "rd_iter D t = Inr (map Inr kvs) \<Longrightarrow> distinct (map fst kvs) \<and> map_of kvs = tview t"
    and commit: "rd_commit D db t = Inr db' \<Longrightarrow> view db' = tview t"
begin

lemma with_write_Inr:
  assumes "with_write D c1 c2 c3 body db = Inr db'"
  obtains t t' where "tview t = view db" "body t = Inr t'" "view db' = tview t'"
  using assms by (auto simp: with_write_def bindR_Inr dest!: begin_write open_table commit)

lemma with_read_Inr:
  assumes "with_read D c1 c2 body db = Inr a"
  obtains t where "tview t = view db" "body t = Inr a"
  using assms by (auto simp: with_read_def bindR_Inr dest!: begin_read open_table)

lemma put_view:
  assumes "with_write D c1 c2 c3 (\<lambda>t. ctxs c (rd_insert D t k v)) db = Inr db'"
  shows "view db' = (view db)(k \<mapsto> v)"
  using assms by (elim with_write_Inr) (simp add: insert)

lemma del_view:
  assumes "with_write D c1 c2 c3 (\<lambda>t. bindR (ctxs c (rd_remove D t k)) (\<lambda>(t', _). Inr t')) db = Inr db'"
  shows "view db' = (view db)(k := None)"
  using assms by (elim with_write_Inr) (auto simp: bindR_Inr dest: remove[THEN conjunct1])

lemma get_view:
  assumes "with_read D c1 c2 (\<lambda>t. ctxs c (rd_get D t k)) db = Inr v"
  shows "v = view db k"
  using assms by (elim with_read_Inr) (metis get ctxs_Inr)

end

locale redb_live = redb_table +
  assumes live_begin_read: "\<exists>tx. rd_begin_read D db = Inr tx"
    and live_begin_write: "\<exists>tx. rd_begin_write D db = Inr tx"
    and live_open_table: "\<exists>t. rd_open_table D tx = Inr t"
    and live_get: "\<exists>v. rd_get D t k = Inr v"
    and live_insert: "\<exists>t'. rd_insert D t k w = Inr t'"
    and live_remove: "\<exists>t' v. rd_remove D t k = Inr (t', v)"
    and live_iter: "\<exists>kvs. rd_iter D t = Inr (map Inr kvs)"
    and live_commit: "\<exists>db'. rd_commit D db t = Inr db'"
begin

lemma get_eq: "rd_get D t k = Inr (tview t k)"
  using live_get[of t k] get by auto

lemma insert_ok: obtains t' where "rd_insert D t k w = Inr t'" "tview t' = (tview t)(k \<mapsto> w)"
  using live_insert[of t k w] insert by auto

lemma remove_ok:
  obtains t' where "rd_remove D t k = Inr (t', tview t k)" "tview t' = (tview t)(k := None)"
  using live_remove[of t k] remove by auto

text \<open>A write transaction runs its body on the committed contents and then succeeds or
  fails with the body; a read transaction likewise.\<close>

lemma with_write_ok:
  assumes "\<And>t. tview t = view db \<Longrightarrow> \<exists>t'. body t = Inr t' \<and> tview t' = m"
  shows "\<exists>db'. with_write D c1 c2 c3 body db = Inr db' \<and> view db' = m"
proof -
  obtain tx where tx: "rd_begin_write D db = Inr tx" using live_begin_write by blast
  obtain t where t: "rd_open_table D tx = Inr t" using live_open_table by blast
  have "tview t = view db" using begin_write[OF tx] open_table[OF t] by simp
  then obtain t' where t': "body t = Inr t'" "tview t' = m" using assms by blast
  obtain db' where "rd_commit D db t' = Inr db'" using live_commit by blast
  with tx t t' commit[of db t' db'] show ?thesis by (auto simp: with_write_def)
qed

lemma with_write_err:
  assumes "\<And>t. tview t = view db \<Longrightarrow> body t = Inl e"
  shows "with_write D c1 c2 c3 body db = Inl e"
proof -
  obtain tx where tx: "rd_begin_write D db = Inr tx" using live_begin_write by blast
  obtain t where t: "rd_open_table D tx = Inr t" using live_open_table by blast
  have "tview t = view db" using begin_write[OF tx] open_table[OF t] by simp
  with tx t assms show ?thesis by (simp add: with_write_def)
qed

lemma with_read_ok:
  assumes "\<And>t. tview t = view db \<Longrightarrow> body t = r"
  shows "with_read D c1 c2 body db = r"
proof -
  obtain tx where tx: "rd_begin_read D db = Inr tx" using live_begin_read by blast
  obtain t where t: "rd_open_table D tx = Inr t" using live_open_table by blast
  have "tview t = view db" using begin_read[OF tx] open_table[OF t] by simp
  with tx t assms show ?thesis by (simp add: with_read_def)
qed

lemma put_ok:
  "\<exists>db'. with_write D c1 c2 c3 (\<lambda>t. ctxs c (rd_insert D t k v)) db = Inr db' \<and> view db' = (view db)(k \<mapsto> v)"
proof (rule with_write_ok)
  fix t assume "tview t = view db"
  then show "\<exists>t'. ctxs c (rd_insert D t k v) = Inr t' \<and> tview t' = (view db)(k \<mapsto> v)"
    by (metis insert_ok ctxs_simps(1))
qed

lemma del_ok:
  "\<exists>db'. with_write D c1 c2 c3 (\<lambda>t. bindR (ctxs c (rd_remove D t k)) (\<lambda>(t', _). Inr t')) db = Inr db'
     \<and> view db' = (view db)(k := None)"
proof (rule with_write_ok)
  fix t assume "tview t = view db"
  then show "\<exists>t'. bindR (ctxs c (rd_remove D t k)) (\<lambda>(t', _). Inr t') = Inr t' \<and> tview t' = (view db)(k := None)"
    by (rule_tac remove_ok[of t k]) auto
qed

lemma get_ok: "with_read D c1 c2 (\<lambda>t. ctxs c (rd_get D t k)) db = Inr (view db k)"
  by (rule with_read_ok) (simp add: get_eq)

end

context redb_live
begin

text \<open>Reading a whole table through a row decoder that accepts every row.\<close>

lemma list_ok:
  assumes "\<And>k v. view db k = Some v \<Longrightarrow> f (k, v) = Inr (g (k, v))"
  shows "\<exists>kvs. with_read D c1 c2 (\<lambda>t. bindR (ctxs c (rd_iter D t)) (\<lambda>items.
      collectR (map (\<lambda>item. bindR (ctxs c' item) f) items))) db = Inr (map g kvs)
    \<and> distinct (map fst kvs) \<and> map_of kvs = view db"
proof -
  obtain tx t where tx: "rd_begin_read D db = Inr tx" and t: "rd_open_table D tx = Inr t"
    using live_begin_read live_open_table by blast
  have tv: "tview t = view db" using begin_read[OF tx] open_table[OF t] by simp
  obtain kvs where it: "rd_iter D t = Inr (map Inr kvs)" using live_iter by blast
  note kv = iter[OF it, unfolded tv]
  have "f kv = Inr (g kv)" if "kv \<in> set kvs" for kv
    using that kv assms[of "fst kv" "snd kv"] by (metis map_of_is_SomeI prod.collapse)
  then have "map (\<lambda>item. bindR (ctxs c' item) f) (map Inr kvs) = map Inr (map g kvs)" by simp
  with tx t it kv show ?thesis by (auto simp: with_read_def collectR_Inr simp del: map_map)
qed

end

section \<open>A reference database in memory\<close>

text \<open>
  An association list that is copied by \<open>begin_write\<close> and swapped in by \<open>commit\<close>.
  It meets both contracts, so the theorems that assume them are about something, and
  it is what the witnesses evaluate.
\<close>

type_synonym ('k, 'v) mem_db = "('k \<times> 'v) list"

definition mem_redb :: "(('k, 'v) mem_db, ('k, 'v) mem_db, 'k, 'v) redb" where
  "mem_redb = \<lparr>
     rd_begin_read = Inr,
     rd_begin_write = Inr,
     rd_open_table = Inr,
     rd_get = (\<lambda>t k. Inr (map_of t k)),
     rd_insert = (\<lambda>t k v. Inr (AList.update k v t)),
     rd_remove = (\<lambda>t k. Inr (AList.delete k t, map_of t k)),
     rd_iter = (\<lambda>t. Inr (map Inr (AList.clearjunk t))),
     rd_commit = (\<lambda>db t. Inr t) \<rparr>"

lemma mem_redb_simps [simp]:
  "rd_begin_read mem_redb db = Inr db" "rd_begin_write mem_redb db = Inr db"
  "rd_open_table mem_redb t = Inr t" "rd_get mem_redb t k = Inr (map_of t k)"
  "rd_insert mem_redb t k v = Inr (AList.update k v t)"
  "rd_remove mem_redb t k = Inr (AList.delete k t, map_of t k)"
  "rd_iter mem_redb t = Inr (map Inr (AList.clearjunk t))"
  "rd_commit mem_redb db t = Inr t"
  by (simp_all add: mem_redb_def)

lemma map_of_delete: "map_of (AList.delete k t) = (map_of t)(k := None)"
  by (simp add: delete_conv')

interpretation mem: redb_live mem_redb map_of map_of
proof unfold_locales
  fix t :: "('a, 'b) mem_db" and kvs
  assume "rd_iter mem_redb t = Inr (map Inr kvs)"
  then have "kvs = AList.clearjunk t" by (simp add: map_Inr_eq)
  then show "distinct (map fst kvs) \<and> map_of kvs = map_of t"
    by (simp add: map_of_clearjunk distinct_clearjunk)
qed (auto simp: update_conv' map_of_delete)

end
