(* ===== verification/Grants.thy ===== *)
theory Grants
  imports Redb Util
begin

text \<open>
  \<open>src/src/core/grants.rs\<close>: which peers may invoke which catalog operations.  A grant is
  a row \<open>privilege NUL peer-id[32]\<close> of the table \<open>grants\<close>.  The abstract state is the
  set of granted pairs; every operation of the store is shown to act on that set.
\<close>

datatype privilege = BlobList

fun privilege_as_str :: "privilege \<Rightarrow> string" where
  "privilege_as_str BlobList = ''blob-list''"

text \<open>\<open>{:?}\<close> of a string: quoted, with the escapes of ASCII.\<close>

definition debug_char :: "char \<Rightarrow> string" where
  "debug_char c =
     (if c = CHR 0x22 then [CHR 0x5C, CHR 0x22]
      else if c = CHR 0x5C then [CHR 0x5C, CHR 0x5C]
      else if c = CHR 0x0A then [CHR 0x5C, CHR ''n'']
      else if c = CHR 0x0D then [CHR 0x5C, CHR ''r'']
      else if c = CHR 0x09 then [CHR 0x5C, CHR ''t'']
      else if c = CHR 0x00 then [CHR 0x5C, CHR ''0'']
      else [c])"

definition debug_str :: "string \<Rightarrow> string" where
  "debug_str s = [CHR 0x22] @ concat (map debug_char s) @ [CHR 0x22]"

definition privilege_try_from :: "string \<Rightarrow> privilege result" where
  "privilege_try_from s =
     (if s = ''blob-list'' then Inr BlobList else bail (''unknown privilege: '' @ debug_str s))"

section \<open>Keys\<close>

definition grant_key :: "privilege \<Rightarrow> endpoint_id \<Rightarrow> byte list" where
  "grant_key privilege peer = str_bytes (privilege_as_str privilege) @ [0] @ id_bytes peer"

definition slice_to_bytes32 :: "byte list \<Rightarrow> string + bytes32" where
  "slice_to_bytes32 bs = (case from_bytes bs of
     None \<Rightarrow> Inl ''could not convert slice to array'' | Some w \<Rightarrow> Inr w)"

definition decode_grant_key :: "iroh \<Rightarrow> byte list \<Rightarrow> (privilege \<times> endpoint_id) result" where
  "decode_grant_key I key =
     bindR (opt_ctx ''grant key missing NUL separator'' (position (\<lambda>b. b = 0) key)) (\<lambda>sep.
     bindR (ctxs ''grant key privilege not UTF-8'' (from_utf8 (take sep key))) (\<lambda>priv_str.
     bindR (privilege_try_from priv_str) (\<lambda>privilege.
     bindR (ctxs ''grant key peer id not 32 bytes'' (slice_to_bytes32 (drop (sep + 1) key))) (\<lambda>peer_bytes.
     bindR (ctxs ''grant key invalid peer id'' (ir_key I peer_bytes)) (\<lambda>peer.
       Inr (privilege, peer))))))"

lemma privilege_try_from_Inr [simp]:
  "privilege_try_from s = Inr pr \<longleftrightarrow> s = privilege_as_str pr"
  by (cases pr) (auto simp: privilege_try_from_def)

lemma privilege_try_from_as_str [simp]: "privilege_try_from (privilege_as_str pr) = Inr pr"
  by simp

lemma privilege_no_nul: "b \<in> set (str_bytes (privilege_as_str pr)) \<Longrightarrow> b \<noteq> 0"
  by (cases pr) (auto simp: str_bytes_def byte_of_char_def)

lemma privilege_utf8 [simp]: "utf8_valid (str_bytes (privilege_as_str pr))"
  by (cases pr) (rule ascii_utf8, simp add: ascii_def)

lemma slice_to_bytes32_Inr [simp]: "slice_to_bytes32 bs = Inr w \<longleftrightarrow> bs = as_bytes w"
  by (auto simp: slice_to_bytes32_def from_bytes_Some split: option.splits)

lemma grant_key_sep:
  "position (\<lambda>b. b = 0) (grant_key pr p) = Some (length (privilege_as_str pr))"
proof -
  have "\<forall>b \<in> set (str_bytes (privilege_as_str pr)). \<not> b = 0"
    using privilege_no_nul by blast
  then show ?thesis
    using position_append_hit[of "str_bytes (privilege_as_str pr)" "\<lambda>b. b = 0" 0 "id_bytes p"]
    by (simp add: grant_key_def)
qed

lemma decode_grant_key: "valid_id I p \<Longrightarrow> decode_grant_key I (grant_key pr p) = Inr (pr, p)"
proof -
  assume v: "valid_id I p"
  have t: "take (length (privilege_as_str pr)) (grant_key pr p) = str_bytes (privilege_as_str pr)"
    and d: "drop (Suc (length (privilege_as_str pr))) (grant_key pr p) = id_bytes p"
    by (simp_all add: grant_key_def)
  have s: "slice_to_bytes32 (id_bytes p) = Inr (id_word p)" by (simp add: id_bytes_def)
  have q: "privilege_try_from (privilege_as_str pr) = Inr pr" by simp
  show ?thesis
    using v by (simp add: decode_grant_key_def grant_key_sep t d s q valid_id_def)
qed

context iroh_ids
begin

lemma decode_grant_key_sound:
  assumes "decode_grant_key I key = Inr (pr, p)"
  shows "key = grant_key pr p"
proof -
  from assms obtain sep w where sep: "position (\<lambda>b. b = 0) key = Some sep"
    and t: "take sep key = str_bytes (privilege_as_str pr)"
    and d: "drop (sep + 1) key = as_bytes w" and k: "ir_key I w = Inr p"
    by (auto simp: decode_grant_key_def bindR_Inr from_utf8_Inr opt_ctx_def split: option.splits)
  from position_Some[OF sep] have "sep < length key" "key ! sep = 0" by auto
  then have "key = take sep key @ [0] @ drop (sep + 1) key"
    using id_take_nth_drop[of sep key] by simp
  with t d key_word[OF k] show ?thesis by (simp add: grant_key_def id_bytes_def)
qed

end

lemma grant_key_inject [simp]: "grant_key pr p = grant_key pr' p' \<longleftrightarrow> pr = pr' \<and> p = p'"
  by (cases pr; cases pr') (auto simp: grant_key_def)

section \<open>The store\<close>

type_synonym ('db, 'tx) grant_db = "('db, 'tx, byte list, unit) redb"

definition grants_from_db :: "('db, 'tx) grant_db \<Rightarrow> 'db \<Rightarrow> 'db result" where
  "grants_from_db D db = with_write D ''starting grants init transaction'' ''creating grants table''
     ''committing grants init'' Inr db"

definition grants_grant :: "('db, 'tx) grant_db \<Rightarrow> privilege \<Rightarrow> endpoint_id \<Rightarrow> 'db \<Rightarrow> 'db result" where
  "grants_grant D privilege peer db =
     with_write D ''beginning grant write'' ''opening grants table'' ''committing grant''
       (\<lambda>t. ctxs ''inserting grant'' (rd_insert D t (grant_key privilege peer) ())) db"

definition grants_revoke :: "('db, 'tx) grant_db \<Rightarrow> privilege \<Rightarrow> endpoint_id \<Rightarrow> 'db \<Rightarrow> 'db result" where
  "grants_revoke D privilege peer db =
     with_write D ''beginning revoke write'' ''opening grants table'' ''committing revoke''
       (\<lambda>t. bindR (ctxs ''removing grant'' (rd_remove D t (grant_key privilege peer))) (\<lambda>(t', _). Inr t')) db"

definition grants_has_grant :: "('db, 'tx) grant_db \<Rightarrow> privilege \<Rightarrow> endpoint_id \<Rightarrow> 'db \<Rightarrow> bool result" where
  "grants_has_grant D privilege peer db =
     bindR (with_read D ''beginning grant read'' ''opening grants table''
       (\<lambda>t. ctxs ''querying grant'' (rd_get D t (grant_key privilege peer))) db) (\<lambda>v. Inr (v \<noteq> None))"

definition grants_list ::
    "('db, 'tx) grant_db \<Rightarrow> iroh \<Rightarrow> 'db \<Rightarrow> (privilege \<times> endpoint_id) list result" where
  "grants_list D I db =
     with_read D ''beginning grants list read'' ''opening grants table''
       (\<lambda>t. bindR (ctxs ''iterating grants'' (rd_iter D t)) (\<lambda>items.
          collectR (map (\<lambda>item. bindR (ctxs ''reading grant entry'' item)
            (\<lambda>(k, _). decode_grant_key I k)) items))) db"

section \<open>Refinement of a set of pairs\<close>

definition grants_abs :: "('db \<Rightarrow> byte list \<rightharpoonup> unit) \<Rightarrow> 'db \<Rightarrow> (privilege \<times> endpoint_id) set" where
  "grants_abs view db = {(pr, p). view db (grant_key pr p) \<noteq> None}"

text \<open>Well-formed contents: every key is that of a pair with a valid peer.\<close>

definition grants_ok :: "iroh \<Rightarrow> ('db \<Rightarrow> byte list \<rightharpoonup> unit) \<Rightarrow> 'db \<Rightarrow> bool" where
  "grants_ok I view db \<longleftrightarrow> (\<forall>k \<in> dom (view db). \<exists>pr p. valid_id I p \<and> k = grant_key pr p)"

locale grant_store = redb_live D view tview + iroh_ids I
  for D :: "('db, 'tx, byte list, unit) redb"
    and view :: "'db \<Rightarrow> byte list \<rightharpoonup> unit"
    and tview :: "'tx \<Rightarrow> byte list \<rightharpoonup> unit"
    and I :: iroh
begin

lemma from_db: "\<exists>db'. grants_from_db D db = Inr db' \<and> view db' = view db"
  unfolding grants_from_db_def by (rule with_write_ok) auto

lemma grant: "\<exists>db'. grants_grant D pr p db = Inr db'
    \<and> grants_abs view db' = insert (pr, p) (grants_abs view db)
    \<and> (grants_ok I view db \<and> valid_id I p \<longrightarrow> grants_ok I view db')"
proof -
  obtain db' where "grants_grant D pr p db = Inr db'" "view db' = (view db)(grant_key pr p \<mapsto> ())"
    unfolding grants_grant_def using put_ok by blast
  then show ?thesis by (auto simp: grants_abs_def grants_ok_def)
qed

lemma revoke: "\<exists>db'. grants_revoke D pr p db = Inr db'
    \<and> grants_abs view db' = grants_abs view db - {(pr, p)}
    \<and> (grants_ok I view db \<longrightarrow> grants_ok I view db')"
proof -
  obtain db' where "grants_revoke D pr p db = Inr db'" "view db' = (view db)(grant_key pr p := None)"
    unfolding grants_revoke_def using del_ok by blast
  then show ?thesis by (auto simp: grants_abs_def grants_ok_def)
qed

lemma has_grant: "grants_has_grant D pr p db = Inr ((pr, p) \<in> grants_abs view db)"
  by (simp add: grants_has_grant_def get_ok grants_abs_def)

lemma list_entries:
  assumes ok: "grants_ok I view db"
  shows "\<exists>gs. grants_list D I db = Inr gs \<and> distinct gs \<and> set gs = grants_abs view db"
proof -
  let ?f = "\<lambda>(k, _::unit). decode_grant_key I k" and ?g = "\<lambda>(k, _::unit). projr (decode_grant_key I k)"
  have dec: "\<exists>pr p. k = grant_key pr p \<and> decode_grant_key I k = Inr (pr, p)" if "view db k = Some v" for k v
    using ok that unfolding grants_ok_def by (metis decode_grant_key domI)
  then have "?f (k, v) = Inr (?g (k, v))" if "view db k = Some v" for k v
    using that by fastforce
  from list_ok[of db ?f ?g, OF this] obtain kvs where
    l: "grants_list D I db = Inr (map ?g kvs)" and kvs: "distinct (map fst kvs)" "map_of kvs = view db"
    unfolding grants_list_def by blast
  have row: "view db k = Some v" if "(k, v) \<in> set kvs" for k v
    using that kvs by (metis map_of_is_SomeI)
  have "distinct (map ?g kvs)"
  proof -
    have "inj_on ?g (set kvs)"
    proof (rule inj_onI)
      fix x y assume xy: "x \<in> set kvs" "y \<in> set kvs" "?g x = ?g y"
      obtain k v l w where e: "x = (k, v)" "y = (l, w)" by (cases x; cases y) auto
      with dec[OF row, of k v] dec[OF row, of l w] xy show "x = y" by auto
    qed
    with kvs(1) show ?thesis by (simp add: distinct_map)
  qed
  moreover have "set (map ?g kvs) = grants_abs view db"
  proof (intro set_eqI iffI)
    fix x assume "x \<in> set (map ?g kvs)"
    then obtain k v where "(k, v) \<in> set kvs" "x = projr (decode_grant_key I k)" by auto
    then show "x \<in> grants_abs view db"
      using dec[OF row] row by (fastforce simp: grants_abs_def)
  next
    fix x assume "x \<in> grants_abs view db"
    then obtain pr p v where x: "x = (pr, p)" and v: "view db (grant_key pr p) = Some v"
      by (auto simp: grants_abs_def)
    then have "(grant_key pr p, v) \<in> set kvs" using kvs(2) by (metis map_of_SomeD)
    moreover have "decode_grant_key I (grant_key pr p) = Inr (pr, p)"
      using dec[OF v] by auto
    ultimately show "x \<in> set (map ?g kvs)" using x by force
  qed
  ultimately show ?thesis using l by blast
qed

end

interpretation mem_grants: grant_store mem_redb map_of map_of hex_iroh ..

section \<open>A history of changes\<close>

datatype grant_change = AddGrant privilege endpoint_id | RevokeGrant privilege endpoint_id

fun change_peer :: "grant_change \<Rightarrow> endpoint_id" where
  "change_peer (AddGrant pr p) = p"
| "change_peer (RevokeGrant pr p) = p"

fun apply_change :: "('db, 'tx) grant_db \<Rightarrow> 'db \<Rightarrow> grant_change list \<Rightarrow> 'db result" where
  "apply_change D db [] = Inr db"
| "apply_change D db (AddGrant pr p # cs) = bindR (grants_grant D pr p db) (\<lambda>db'. apply_change D db' cs)"
| "apply_change D db (RevokeGrant pr p # cs) = bindR (grants_revoke D pr p db) (\<lambda>db'. apply_change D db' cs)"

fun holders :: "(privilege \<times> endpoint_id) set \<Rightarrow> grant_change list \<Rightarrow> (privilege \<times> endpoint_id) set" where
  "holders G [] = G"
| "holders G (AddGrant pr p # cs) = holders (insert (pr, p) G) cs"
| "holders G (RevokeGrant pr p # cs) = holders (G - {(pr, p)}) cs"

context grant_store
begin

lemma apply_changes:
  "grants_ok I view db \<Longrightarrow> \<forall>c \<in> set cs. valid_id I (change_peer c) \<Longrightarrow>
     \<exists>db'. apply_change D db cs = Inr db' \<and> grants_ok I view db'
       \<and> grants_abs view db' = holders (grants_abs view db) cs"
proof (induction cs arbitrary: db)
  case (Cons c cs)
  show ?case
  proof (cases c)
    case (AddGrant pr p)
    with Cons.prems obtain db1 where "grants_grant D pr p db = Inr db1" "grants_ok I view db1"
      "grants_abs view db1 = insert (pr, p) (grants_abs view db)" using grant[of pr p db] by auto
    with Cons.IH[of db1] Cons.prems AddGrant show ?thesis by auto
  next
    case (RevokeGrant pr p)
    with Cons.prems obtain db1 where "grants_revoke D pr p db = Inr db1" "grants_ok I view db1"
      "grants_abs view db1 = grants_abs view db - {(pr, p)}" using revoke[of pr p db] by auto
    with Cons.IH[of db1] Cons.prems RevokeGrant show ?thesis by auto
  qed
qed simp

end

text \<open>
  C24: The grants store is a set of pairs of a privilege and a peer.  After any sequence of
  grants and revocations on a well-formed database, none of which fails, a privilege check
  answers whether the peer was granted that privilege and not revoked since, and the
  listing returns each granted pair exactly once.
\<close>
theorem grants_refine_set:
  assumes "grant_store D view tview I" "grants_ok I view db"
    and "\<forall>c \<in> set cs. valid_id I (change_peer c)"
  shows "\<exists>db' gs. apply_change D db cs = Inr db'
    \<and> (\<forall>pr p. grants_has_grant D pr p db' = Inr ((pr, p) \<in> holders (grants_abs view db) cs))
    \<and> grants_list D I db' = Inr gs \<and> distinct gs \<and> set gs = holders (grants_abs view db) cs"
proof -
  from grant_store.apply_changes[OF assms] obtain db' where db': "apply_change D db cs = Inr db'"
    "grants_ok I view db'" "grants_abs view db' = holders (grants_abs view db) cs" by blast
  then show ?thesis
    using grant_store.list_entries[OF assms(1) db'(2)] grant_store.has_grant[OF assms(1)] by metis
qed

lemma grants_refine_set_witness:
  "\<exists>db'. apply_change mem_redb [] [AddGrant BlobList (EndpointId 7), AddGrant BlobList (EndpointId 9),
       RevokeGrant BlobList (EndpointId 7)] = Inr db'
    \<and> grants_list mem_redb hex_iroh db' = Inr [(BlobList, EndpointId 9)]"
proof -
  let ?cs = "[AddGrant BlobList (EndpointId 7), AddGrant BlobList (EndpointId 9), RevokeGrant BlobList (EndpointId 7)]"
  have abs: "grants_abs map_of [] = {}" and ok: "grants_ok hex_iroh map_of []"
    by (simp_all add: grants_abs_def grants_ok_def)
  have v: "\<forall>c \<in> set ?cs. valid_id hex_iroh (change_peer c)" by simp
  have h: "holders {} ?cs = {(BlobList, EndpointId 9)}" by auto
  from grants_refine_set[OF mem_grants.grant_store_axioms ok v] obtain db' gs where
    g: "apply_change mem_redb [] ?cs = Inr db'" "grants_list mem_redb hex_iroh db' = Inr gs"
    "distinct gs" "set gs = {(BlobList, EndpointId 9)}" unfolding abs h by blast
  then have "length gs = 1" using distinct_card[of gs] by simp
  with g(4) have "gs = [(BlobList, EndpointId 9)]" by (cases gs) auto
  with g show ?thesis by blast
qed

end
