(* ===== verification/Catalog.thy ===== *)
theory Catalog
  imports Node Grants
begin

text \<open>
  \<open>src/src/core/protocol/catalog.rs\<close> and \<open>catalog_connect\<close> of \<open>src/src/core/node.rs\<close>: the
  catalog protocol.  The server side appends bytes to a send stream that may break at any
  byte; the client side reads a byte stream to its end.  The properties: what the client
  decodes is exactly what the server may show to it, a denied caller receives one byte,
  and the answer does not depend on blobs the caller may not read.
\<close>

definition BLOB_LIST :: byte where "BLOB_LIST = 0x01"
definition DENIED :: byte where "DENIED = 0x00"
definition ALLOWED :: byte where "ALLOWED = 0x01"

record catalog_entry =
  ce_hash :: blob_hash
  ce_format :: blob_format
  ce_name :: string
  ce_ticket :: share_ticket
  ce_file_count :: "nat option"
  ce_total_size :: "u64 option"

section \<open>The send stream\<close>

text \<open>\<open>ss_room\<close> is how many more bytes the peer takes before the connection breaks;
  none when it never does.\<close>

record send_stream =
  ss_sent :: "byte list"
  ss_room :: "nat option"
  ss_finished :: bool

definition new_stream :: "nat option \<Rightarrow> send_stream" where
  "new_stream room = \<lparr>ss_sent = [], ss_room = room, ss_finished = False\<rparr>"

definition write_all :: "byte list \<Rightarrow> (send_stream, unit) act" where
  "write_all bs s = (case ss_room s of
     None \<Rightarrow> (Inr (), s\<lparr>ss_sent := ss_sent s @ bs\<rparr>)
   | Some k \<Rightarrow> if length bs \<le> k then (Inr (), s\<lparr>ss_sent := ss_sent s @ bs, ss_room := Some (k - length bs)\<rparr>)
       else (bail ''connection lost'', s\<lparr>ss_sent := ss_sent s @ take k bs, ss_room := Some 0\<rparr>))"

definition finish :: "(send_stream, unit) act" where
  "finish s = (if ss_finished s then (bail ''closed stream'', s) else (Inr (), s\<lparr>ss_finished := True\<rparr>))"

section \<open>Writing an entry\<close>

definition write_length_prefixed :: "byte list \<Rightarrow> (send_stream, unit) act" where
  "write_length_prefixed bs =
     bindA (liftA (ctxs ''field too long for u16 length prefix''
       (case u16_try_from (length bs) of
          None \<Rightarrow> Inl ''out of range integral type conversion attempted'' | Some w \<Rightarrow> Inr w))) (\<lambda>len.
     thenA (write_all (le_bytes 2 len)) (write_all bs))"

definition format_byte :: "blob_format \<Rightarrow> byte" where
  "format_byte f = (case f of HashSeq \<Rightarrow> 1 | Raw \<Rightarrow> 0)"

definition size_field :: "u64 option \<Rightarrow> u64" where
  "size_field sz = (case sz of Some n \<Rightarrow> n | None \<Rightarrow> -1)"

text \<open>\<open>c as u32\<close> keeps the low 32 bits of the count.\<close>

definition count_field :: "nat option \<Rightarrow> u32" where
  "count_field fc = (case fc of Some c \<Rightarrow> of_nat c | None \<Rightarrow> -1)"

definition write_entry ::
    "blob_hash \<Rightarrow> blob_format \<Rightarrow> string \<Rightarrow> string \<Rightarrow> nat option \<Rightarrow> u64 option \<Rightarrow> (send_stream, unit) act" where
  "write_entry hash format name ticket_uri file_count total_size =
     thenA (ctxA ''writing hash'' (write_all (hash_bytes hash)))
    (thenA (ctxA ''writing format'' (write_all [format_byte format]))
    (thenA (ctxA ''writing name'' (write_length_prefixed (str_bytes name)))
    (thenA (ctxA ''writing ticket'' (write_length_prefixed (str_bytes ticket_uri)))
    (thenA (ctxA ''writing total_size'' (write_all (le_bytes 8 (size_field total_size))))
           (ctxA ''writing file_count'' (write_all (le_bytes 4 (count_field file_count))))))))"

section \<open>The handler\<close>

fun serve_items ::
    "'r registry \<Rightarrow> ticket_codec \<Rightarrow> 's fs_store \<Rightarrow> endpoint_addr \<Rightarrow> 'r \<Rightarrow> 's \<Rightarrow> endpoint_id
     \<Rightarrow> (string + tag_info) list \<Rightarrow> (send_stream, unit) act" where
  "serve_items R C S addr r s peer [] = finish"
| "serve_items R C S addr r s peer (Inl e # items) = fail (anyhow_msg e)"
| "serve_items R C S addr r s peer (Inr info # items) =
     (if \<not> unwrap_or (lift_err (rg_has_permission R r peer (hash_word (ti_hash info)) Read)) False
      then serve_items R C S addr r s peer items
      else
        let name = from_utf8_lossy (ti_name info);
            ticket = ticket_from_format addr (ti_hash info) (ti_format info) (Some name) in
        bindA (liftA (ticket_to_uri C ticket)) (\<lambda>ticket_uri.
        case blob_metrics S s (ti_hash info) (ti_format info) of (file_count, total_size) \<Rightarrow>
          thenA (write_entry (ti_hash info) (ti_format info) name ticket_uri file_count total_size)
            (serve_items R C S addr r s peer items)))"

definition handle_blob_list ::
    "'r registry \<Rightarrow> ('g, 'gt) grant_db \<Rightarrow> ticket_codec \<Rightarrow> 's fs_store \<Rightarrow> endpoint_addr
     \<Rightarrow> 'r \<Rightarrow> 'g \<Rightarrow> 's \<Rightarrow> endpoint_id \<Rightarrow> (send_stream, unit) act" where
  "handle_blob_list R D C S self_addr r g s peer =
     bindA (liftA (grants_has_grant D BlobList peer g)) (\<lambda>granted.
     if \<not> granted then thenA (write_all [DENIED]) finish
     else
       thenA (write_all [ALLOWED])
       (let addr = relay_only_addr self_addr in
        bindA (liftA (lift_err (fs_tags_list S s))) (\<lambda>items.
          serve_items R C S addr r s peer items)))"

text \<open>One request per connection: the stream the caller opened (or the error of
  accepting it) carries the command byte.\<close>

definition catalog_handle ::
    "'r registry \<Rightarrow> ('g, 'gt) grant_db \<Rightarrow> ticket_codec \<Rightarrow> 's fs_store \<Rightarrow> endpoint_addr
     \<Rightarrow> 'r \<Rightarrow> 'g \<Rightarrow> 's \<Rightarrow> endpoint_id \<Rightarrow> string + byte list \<Rightarrow> (send_stream, unit) act" where
  "catalog_handle R D C S self_addr r g s peer request =
     bindA (liftA (ctxs ''accepting bi stream'' request)) (\<lambda>recv.
     bindA (liftA (ctx ''reading command byte'' (fst (read_exact 1 recv)))) (\<lambda>cmd.
     if cmd = [BLOB_LIST] then handle_blob_list R D C S self_addr r g s peer
     else thenA (write_all [DENIED]) finish))"

text \<open>What the router of the endpoint runs for a connection.\<close>

datatype accept_error = FromBoxed anyhow

definition catalog_accept ::
    "'r registry \<Rightarrow> ('g, 'gt) grant_db \<Rightarrow> ticket_codec \<Rightarrow> 's fs_store \<Rightarrow> endpoint_addr
     \<Rightarrow> 'r \<Rightarrow> 'g \<Rightarrow> 's \<Rightarrow> endpoint_id \<Rightarrow> string + byte list \<Rightarrow> send_stream \<Rightarrow> (accept_error + unit) \<times> send_stream" where
  "catalog_accept R D C S self_addr r g s peer request stream =
     (case catalog_handle R D C S self_addr r g s peer request stream of
        (Inl e, stream') \<Rightarrow> (Inl (FromBoxed e), stream')
      | (Inr u, stream') \<Rightarrow> (Inr u, stream'))"

lemma catalog_accept_stream [simp]:
  "snd (catalog_accept R D C S self_addr r g s peer request stream)
   = snd (catalog_handle R D C S self_addr r g s peer request stream)"
  by (auto simp: catalog_accept_def split: prod.split sum.split)

section \<open>The client\<close>

definition read_length_prefixed :: "string \<Rightarrow> (byte list, byte list) act" where
  "read_length_prefixed field_name =
     bindA (ctxA (''reading '' @ field_name @ '' length'') (read_exact 2)) (\<lambda>len_buf.
     let len = unat (le_word len_buf :: u16) in
     ctxA (''reading '' @ field_name @ '' data'') (read_exact len))"

text \<open>One entry, after the probe byte that starts it.\<close>

definition read_entry :: "ticket_codec \<Rightarrow> byte \<Rightarrow> (byte list, catalog_entry) act" where
  "read_entry C probe =
     bindA (ctxA ''reading hash'' (read_exact 31)) (\<lambda>hash_rest.
     let hash = Hash (le_word (probe # hash_rest)) in
     bindA (ctxA ''reading format byte'' (read_exact 1)) (\<lambda>fmt_buf.
     bindA (liftA (if fmt_buf = [0] then Inr Raw else if fmt_buf = [1] then Inr HashSeq
        else bail (''unknown format byte '' @ show_nat (unat (hd fmt_buf))))) (\<lambda>format.
     bindA (read_length_prefixed ''name'') (\<lambda>name_bytes.
     bindA (liftA (ctxs ''entry name is not UTF-8'' (from_utf8 name_bytes))) (\<lambda>name.
     bindA (read_length_prefixed ''ticket'') (\<lambda>ticket_bytes.
     bindA (liftA (ctxs ''entry ticket is not UTF-8'' (from_utf8 ticket_bytes))) (\<lambda>ticket_uri.
     bindA (liftA (ticket_from_uri C ticket_uri)) (\<lambda>ticket.
     bindA (ctxA ''reading total_size'' (read_exact 8)) (\<lambda>size_buf.
     let size_word = le_word size_buf :: u64; total_size = (if size_word = -1 then None else Some size_word) in
     bindA (ctxA ''reading file_count'' (read_exact 4)) (\<lambda>count_buf.
     let count_word = le_word count_buf :: u32;
         file_count = (if count_word = -1 then None else Some (unat count_word)) in
     ret \<lparr>ce_hash = hash, ce_format = format, ce_name = name, ce_ticket = ticket,
          ce_file_count = file_count, ce_total_size = total_size\<rparr>))))))))))"

text \<open>Reading never adds to the stream, so the entry loop ends.\<close>

definition shrinks :: "('b list, 'a) act \<Rightarrow> bool" where
  "shrinks m \<longleftrightarrow> (\<forall>s r s'. m s = (r, s') \<longrightarrow> length s' \<le> length s)"

named_theorems shrinks \<open>reading actions\<close>

lemma shrinks_read_exact [shrinks]: "shrinks (read_exact n)"
  unfolding shrinks_def using read_exact_rest by blast

lemma shrinks_pure [shrinks]: "shrinks (ret a)" "shrinks (liftA x)"
  by (simp_all add: shrinks_def act_simps)

lemma shrinks_bind [shrinks]: "shrinks m \<Longrightarrow> (\<And>a. shrinks (f a)) \<Longrightarrow> shrinks (bindA m f)"
  unfolding shrinks_def bindA_def by (fastforce split: prod.splits sum.splits intro: order_trans)

lemma shrinks_ctx [shrinks]: "shrinks m \<Longrightarrow> shrinks (ctxA c m)"
  unfolding shrinks_def ctxA_def by (auto split: prod.splits)

lemma shrinks_read_entry: "shrinks (read_entry C b)"
  unfolding read_entry_def read_length_prefixed_def Let_def
  by (intro shrinks)

function decode_entries :: "ticket_codec \<Rightarrow> (byte list, catalog_entry list) act" where
  "decode_entries C bs =
     (case bs of [] \<Rightarrow> (Inr [], [])
      | probe # rest \<Rightarrow> (case read_entry C probe rest of
          (Inl e, rest') \<Rightarrow> (Inl e, rest')
        | (Inr entry, rest') \<Rightarrow> (case decode_entries C rest' of
            (Inl e, rest'') \<Rightarrow> (Inl e, rest'')
          | (Inr entries, rest'') \<Rightarrow> (Inr (entry # entries), rest''))))"
  by pat_completeness auto
termination
  by (relation "measure (\<lambda>(_, bs). length bs)")
    (use shrinks_read_entry in \<open>auto simp: shrinks_def less_Suc_eq_le, metis\<close>)

declare decode_entries.simps [simp del]

text \<open>A connection attempt: it fails, or opening its stream fails, or the stream takes the
  request and gives the response (all bytes until the remote side ends it).\<close>

type_synonym dial = "endpoint_addr \<Rightarrow> string + (string + (byte list \<Rightarrow> string + byte list))"

definition catalog_connect :: "ticket_codec \<Rightarrow> dial \<Rightarrow> endpoint_addr \<Rightarrow> catalog_entry list result" where
  "catalog_connect C dial peer_addr =
     bindR (case dial peer_addr of Inl e \<Rightarrow> bail (''connecting for catalog: '' @ e) | Inr conn \<Rightarrow> Inr conn) (\<lambda>conn.
     bindR (ctxs ''opening catalog stream'' conn) (\<lambda>stream.
     bindR (ctxs ''sending catalog command'' (stream [BLOB_LIST])) (\<lambda>recv.
     fst (bindA (ctxA ''reading catalog status'' (read_exact 1)) (\<lambda>status.
       if status \<noteq> [ALLOWED] then fail (anyhow_msg ''catalog access denied by remote node'')
       else decode_entries C) recv))))"

section \<open>Round trip of one entry\<close>

definition wire_field :: "byte list \<Rightarrow> byte list" where
  "wire_field bs = le_bytes 2 (of_nat (length bs) :: u16) @ bs"

definition wire_entry :: "blob_hash \<Rightarrow> blob_format \<Rightarrow> string \<Rightarrow> string \<Rightarrow> nat option \<Rightarrow> u64 option \<Rightarrow> byte list" where
  "wire_entry hash format name ticket_uri file_count total_size =
     hash_bytes hash @ [format_byte format] @ wire_field (str_bytes name) @ wire_field (str_bytes ticket_uri)
     @ le_bytes 8 (size_field total_size) @ le_bytes 4 (count_field file_count)"

text \<open>What survives of the counters: the all-ones words stand for an absent value.\<close>

definition wire_size :: "u64 option \<Rightarrow> u64 option" where
  "wire_size sz = (if sz = Some (-1) then None else sz)"

definition wire_count :: "nat option \<Rightarrow> nat option" where
  "wire_count fc = (case fc of None \<Rightarrow> None
     | Some c \<Rightarrow> if c mod 2 ^ 32 = 2 ^ 32 - 1 then None else Some (c mod 2 ^ 32))"

lemma write_all_open: "ss_room s = None \<Longrightarrow> write_all bs s = (Inr (), s\<lparr>ss_sent := ss_sent s @ bs\<rparr>)"
  by (simp add: write_all_def)

lemma write_length_prefixed_open:
  assumes "ss_room s = None" "length bs < 65536"
  shows "write_length_prefixed bs s = (Inr (), s\<lparr>ss_sent := ss_sent s @ wire_field bs\<rparr>)"
proof -
  have "u16_try_from (length bs) = Some (of_nat (length bs))"
    using assms(2) by (simp add: u16_try_from_Some)
  with assms(1) show ?thesis
    by (simp add: write_length_prefixed_def wire_field_def act_simps write_all_open)
qed

lemma write_entry_open:
  assumes "ss_room s = None" "length name < 65536" "length uri < 65536"
  shows "write_entry h f name uri fc sz s = (Inr (), s\<lparr>ss_sent := ss_sent s @ wire_entry h f name uri fc sz\<rparr>)"
proof -
  have w: "ctxA c (write_all bs) t = (Inr (), t\<lparr>ss_sent := ss_sent t @ bs\<rparr>)" if "ss_room t = None" for c bs t
    using that by (simp add: ctxA_def write_all_open)
  have p: "ctxA c (write_length_prefixed bs) t = (Inr (), t\<lparr>ss_sent := ss_sent t @ wire_field bs\<rparr>)"
    if "ss_room t = None" "length bs < 65536" for c bs t
    using that by (simp add: ctxA_def write_length_prefixed_open)
  show ?thesis using assms by (simp add: write_entry_def wire_entry_def w p act_simps)
qed

lemma read_length_prefixed_wire:
  assumes "length bs < 65536"
  shows "read_length_prefixed c (wire_field bs @ rest) = (Inr bs, rest)"
proof -
  have "unat (le_word (le_bytes 2 (of_nat (length bs) :: u16)) :: u16) = length bs"
    using assms by (simp add: le_word_le_bytes unat_of_nat)
  then show ?thesis
    by (simp add: read_length_prefixed_def wire_field_def bindA_def ctxA_def Let_def)
qed

lemma format_byte_read:
  "(if [format_byte f] = [0] then Inr Raw else if [format_byte f] = [1] then Inr HashSeq else e) = Inr f"
  by (cases f) (simp_all add: format_byte_def)

lemma wire_size_read: "(if size_field sz = -1 then None else Some (size_field sz)) = wire_size sz"
  by (auto simp: size_field_def wire_size_def split: option.splits)

lemma wire_count_read:
  "(if count_field fc = -1 then None else Some (unat (count_field fc))) = wire_count fc"
proof (cases fc)
  case (Some c)
  have "(of_nat c :: u32) = -1 \<longleftrightarrow> unat (of_nat c :: u32) = unat (-1 :: u32)"
    by (simp only: word_unat_eq_iff)
  then have "(of_nat c :: u32) = -1 \<longleftrightarrow> c mod 2 ^ 32 = 2 ^ 32 - 1"
    by (simp add: unat_of_nat unsigned_minus_1_eq_mask mask_eq_exp_minus_1)
  with Some show ?thesis by (simp add: wire_count_def count_field_def unat_of_nat)
qed (simp add: wire_count_def count_field_def)

lemma read_entry_wire:
  assumes name: "length name < 65536" "utf8_valid (str_bytes name)"
    and uri: "length uri < 65536" "utf8_valid (str_bytes uri)" "ticket_from_uri C uri = Inr t"
    and wire: "probe # rest = wire_entry h f name uri fc sz @ tail"
  shows "read_entry C probe rest = (Inr \<lparr>ce_hash = h, ce_format = f, ce_name = name, ce_ticket = t,
    ce_file_count = wire_count fc, ce_total_size = wire_size sz\<rparr>, tail)"
proof -
  obtain hb where hb: "hash_bytes h = probe # hb" and rest: "rest = hb @ [format_byte f] @
      wire_field (str_bytes name) @ wire_field (str_bytes uri) @ le_bytes 8 (size_field sz)
      @ le_bytes 4 (count_field fc) @ tail"
  proof -
    have "hash_bytes h \<noteq> []" by (metis length_hash_bytes list.size(3) zero_neq_numeral)
    with wire that show thesis by (cases "hash_bytes h") (auto simp: wire_entry_def)
  qed
  have len: "length hb = 31" using hb length_hash_bytes[of h] by simp
  have hash: "Hash (le_word (probe # hb)) = h"
    unfolding hb[symmetric] by (cases h) (simp add: hash_bytes_def as_bytes_def le_word_le_bytes)
  have r: "read_exact 31 rest = (Inr hb, drop 31 rest)"
    and d: "drop 31 rest = [format_byte f] @ wire_field (str_bytes name) @ wire_field (str_bytes uri)
      @ le_bytes 8 (size_field sz) @ le_bytes 4 (count_field fc) @ tail"
    unfolding rest using len by (simp_all add: read_exact_def)
  have one: "read_exact 1 ([b] @ xs) = (Inr [b], xs)" for b xs by (simp add: read_exact_def)
  have ints: "(le_word (le_bytes 8 (size_field sz)) :: u64) = size_field sz"
    "(le_word (le_bytes 4 (count_field fc)) :: u32) = count_field fc"
    by (simp_all add: le_word_le_bytes)
  have nm: "read_length_prefixed c (wire_field (str_bytes name) @ xs) = (Inr (str_bytes name), xs)" for c xs
    using name(1) by (simp add: read_length_prefixed_wire)
  have ur: "read_length_prefixed c (wire_field (str_bytes uri) @ xs) = (Inr (str_bytes uri), xs)" for c xs
    using uri(1) by (simp add: read_length_prefixed_wire)
  have sz: "read_exact 8 (le_bytes 8 w @ xs) = (Inr (le_bytes 8 w), xs)" for w :: u64 and xs
    by simp
  have fc: "read_exact 4 (le_bytes 4 w @ xs) = (Inr (le_bytes 4 w), xs)" for w :: u32 and xs
    by simp
  show ?thesis
    by (simp only: read_entry_def Let_def bindA_ctxA bindA_run(1) r d one format_byte_read bindA_step
      nm from_utf8_str[OF name(2)] ctxs_simps ur
      from_utf8_str[OF uri(2)] uri(3) sz fc ints hash wire_size_read wire_count_read act_apply)
qed

section \<open>The answer of the server\<close>

definition entry_ticket :: "endpoint_addr \<Rightarrow> tag_info \<Rightarrow> share_ticket" where
  "entry_ticket addr i =
     ticket_from_format addr (ti_hash i) (ti_format i) (Some (from_utf8_lossy (ti_name i)))"

definition item_bytes :: "ticket_codec \<Rightarrow> 's fs_store \<Rightarrow> endpoint_addr \<Rightarrow> 's \<Rightarrow> tag_info \<Rightarrow> byte list" where
  "item_bytes C S addr s i =
     wire_entry (ti_hash i) (ti_format i) (from_utf8_lossy (ti_name i))
       (unwrap_or (ticket_to_uri C (entry_ticket addr i)) [])
       (fst (blob_metrics S s (ti_hash i) (ti_format i))) (snd (blob_metrics S s (ti_hash i) (ti_format i)))"

text \<open>What the client gets to know of a tag.\<close>

definition catalog_view :: "'s fs_store \<Rightarrow> endpoint_addr \<Rightarrow> 's \<Rightarrow> tag_info \<Rightarrow> catalog_entry" where
  "catalog_view S addr s i =
     \<lparr>ce_hash = ti_hash i, ce_format = ti_format i, ce_name = from_utf8_lossy (ti_name i),
      ce_ticket = entry_ticket addr i,
      ce_file_count = wire_count (fst (blob_metrics S s (ti_hash i) (ti_format i))),
      ce_total_size = wire_size (snd (blob_metrics S s (ti_hash i) (ti_format i)))\<rparr>"

text \<open>Names and tickets that fit the 16-bit length prefix.\<close>

definition servable :: "ticket_codec \<Rightarrow> endpoint_addr \<Rightarrow> tag_info \<Rightarrow> bool" where
  "servable C addr i \<longleftrightarrow> length (from_utf8_lossy (ti_name i)) < 65536 \<and>
     (case ticket_to_uri C (entry_ticket addr i) of Inl _ \<Rightarrow> False | Inr uri \<Rightarrow> length uri < 65536)"

lemma wire_entry_nonempty: "wire_entry h f name uri fc sz \<noteq> []"
  by (simp add: wire_entry_def)

lemma decode_entries_step:
  "decode_entries C (probe # rest) = (case read_entry C probe rest of
      (Inl e, rest') \<Rightarrow> (Inl e, rest')
    | (Inr entry, rest') \<Rightarrow> (case decode_entries C rest' of
        (Inl e, rest'') \<Rightarrow> (Inl e, rest'') | (Inr entries, rest'') \<Rightarrow> (Inr (entry # entries), rest'')))"
  by (subst decode_entries.simps) simp

lemma decode_items:
  assumes "ticket_laws C" "\<And>i. i \<in> set infos \<Longrightarrow> servable C addr i"
  shows "decode_entries C (concat (map (item_bytes C S addr s) infos))
    = (Inr (map (catalog_view S addr s) infos), [])"
  using assms(2)
proof (induction infos)
  case Nil
  show ?case by (simp add: decode_entries.simps)
next
  case (Cons i infos)
  let ?rest = "concat (map (item_bytes C S addr s) infos)"
  obtain uri where uri: "ticket_to_uri C (entry_ticket addr i) = Inr uri" "length uri < 65536"
    and name: "length (from_utf8_lossy (ti_name i)) < 65536"
    using Cons.prems[of i] by (auto simp: servable_def split: sum.splits)
  have ascii: "utf8_valid (str_bytes uri)"
    using ticket_laws.to_uri_ascii[OF assms(1) uri(1)] by (rule ascii_utf8)
  obtain b bs where wire: "item_bytes C S addr s i = b # bs"
    using wire_entry_nonempty unfolding item_bytes_def by (metis list.exhaust)
  have "read_entry C b (bs @ ?rest) = (Inr (catalog_view S addr s i), ?rest)"
    unfolding catalog_view_def
    by (rule read_entry_wire[OF name from_utf8_lossy_utf8 uri(2) ascii
          ticket_laws.from_uri_to_uri[OF assms(1) uri(1)]])
      (simp only: append_Cons[symmetric] wire[symmetric] item_bytes_def uri(1) unwrap_or_simps)
  with Cons.IH Cons.prems show ?case by (simp add: wire decode_entries_step)
qed

context live_registry
begin

lemma serve_items_open:
  assumes "ss_room st = None" "\<not> ss_finished st"
    and "\<And>i. i \<in> set infos \<Longrightarrow> allowed (rings r) (attached r) p (hash_word (ti_hash i)) Read \<Longrightarrow> servable C addr i"
  shows "serve_items R C S addr r s p (map Inr infos) st
    = (Inr (), st\<lparr>ss_sent := ss_sent st @ concat (map (item_bytes C S addr s)
        (filter (\<lambda>i. allowed (rings r) (attached r) p (hash_word (ti_hash i)) Read) infos)),
        ss_finished := True\<rparr>)"
  using assms
proof (induction infos arbitrary: st)
  case Nil
  then show ?case by (simp add: finish_def)
next
  case (Cons i infos)
  show ?case
  proof (cases "allowed (rings r) (attached r) p (hash_word (ti_hash i)) Read")
    case False
    with Cons show ?thesis by (simp add: has_permission_eq)
  next
    case True
    then obtain uri where uri: "ticket_to_uri C (entry_ticket addr i) = Inr uri" "length uri < 65536"
      and name: "length (from_utf8_lossy (ti_name i)) < 65536"
      using Cons.prems(3)[of i] by (auto simp: servable_def split: sum.splits)
    obtain fc sz where m: "blob_metrics S s (ti_hash i) (ti_format i) = (fc, sz)"
      by (cases "blob_metrics S s (ti_hash i) (ti_format i)")
    have w: "write_entry (ti_hash i) (ti_format i) (from_utf8_lossy (ti_name i)) uri fc sz st
        = (Inr (), st\<lparr>ss_sent := ss_sent st @ item_bytes C S addr s i\<rparr>)"
      using write_entry_open[OF Cons.prems(1) name uri(2)] by (simp add: item_bytes_def uri(1) m)
    from Cons.IH[of "st\<lparr>ss_sent := ss_sent st @ item_bytes C S addr s i\<rparr>"] Cons.prems True uri(1) m w
    show ?thesis
      by (simp add: has_permission_eq entry_ticket_def Let_def act_simps)
  qed
qed

end

text \<open>The tags that influence the answer: those the registry lets the peer read, and the
  errors of the tag stream.\<close>

definition readable_item :: "'r registry \<Rightarrow> 'r \<Rightarrow> endpoint_id \<Rightarrow> string + tag_info \<Rightarrow> bool" where
  "readable_item R r peer item = (case item of Inl _ \<Rightarrow> True
     | Inr i \<Rightarrow> unwrap_or (lift_err (rg_has_permission R r peer (hash_word (ti_hash i)) Read)) False)"

lemma readable_item_simps [simp]:
  "readable_item R r peer (Inl e)"
  "readable_item R r peer (Inr i)
     = unwrap_or (lift_err (rg_has_permission R r peer (hash_word (ti_hash i)) Read)) False"
  by (simp_all add: readable_item_def)

lemma serve_items_filter:
  "serve_items R C S addr r s peer items
   = serve_items R C S addr r s peer (filter (readable_item R r peer) items)"
proof (induction items)
  case (Cons item items)
  then show ?case by (cases item) (simp_all add: Let_def)
qed simp

lemma serve_items_cong:
  assumes "\<And>i. Inr i \<in> set items \<Longrightarrow>
    blob_metrics S s (ti_hash i) (ti_format i) = blob_metrics S s' (ti_hash i) (ti_format i)"
  shows "serve_items R C S addr r s peer items = serve_items R C S addr r s' peer items"
  using assms
proof (induction items)
  case (Cons item items)
  then show ?case by (cases item) (simp_all add: Let_def)
qed simp

lemma catalog_listing:
  assumes "live_registry R rings attached" "grant_store D gview gtview I" "ticket_laws C"
    and granted: "(BlobList, p) \<in> grants_abs gview g"
    and infos: "tag_infos S s = Inr infos"
    and servable: "\<And>i. i \<in> set infos \<Longrightarrow>
      allowed (rings r) (attached r) p (hash_word (ti_hash i)) Read \<Longrightarrow>
      servable C (relay_only_addr self_addr) i"
    and dial: "dial peer_addr = Inr (Inr (\<lambda>request.
      Inr (ss_sent (snd (catalog_handle R D C S self_addr r g s p (Inr request) (new_stream None))))))"
  shows "catalog_connect C dial peer_addr
    = Inr (map (catalog_view S (relay_only_addr self_addr) s)
        (filter (\<lambda>i. allowed (rings r) (attached r) p (hash_word (ti_hash i)) Read) infos))"
proof -
  let ?addr = "relay_only_addr self_addr"
  let ?infos = "filter (\<lambda>i. allowed (rings r) (attached r) p (hash_word (ti_hash i)) Read) infos"
  let ?body = "concat (map (item_bytes C S ?addr s) ?infos)"
  have "catalog_handle R D C S self_addr r g s p (Inr [BLOB_LIST]) (new_stream None)
      = (Inr (), \<lparr>ss_sent = ALLOWED # ?body, ss_room = None, ss_finished = True\<rparr>)"
    using granted live_registry.serve_items_open[OF assms(1), of _ infos r p C ?addr S s, OF _ _ servable]
    by (simp add: catalog_handle_def handle_blob_list_def read_exact_def act_simps
        grant_store.has_grant[OF assms(2)] tag_infos_items[OF infos] write_all_open new_stream_def Let_def)
  moreover have "decode_entries C ?body = (Inr (map (catalog_view S ?addr s) ?infos), [])"
    using servable by (intro decode_items[OF assms(3)]) auto
  ultimately show ?thesis
    by (simp add: catalog_connect_def dial bindA_def ctxA_def read_exact_def)
qed

section \<open>Properties\<close>

text \<open>
  C5: End to end: when a node dials a peer that granted it the catalog, the list it
  decodes is, in tag order, exactly the tagged blobs that the peer's registry lets it
  read, each with its hash, format, name, a ticket for it, and its counters up to
  the reserved all-ones words.
\<close>
theorem catalog_end_to_end:
  assumes "live_registry R rings attached" "grant_store D gview gtview I" "ticket_laws C"
    and granted: "(BlobList, p) \<in> grants_abs gview g"
    and infos: "tag_infos S s = Inr infos"
    and servable: "\<And>i. i \<in> set infos \<Longrightarrow>
      allowed (rings r) (attached r) p (hash_word (ti_hash i)) Read \<Longrightarrow>
      servable C (relay_only_addr self_addr) i"
    and dial: "dial peer_addr = Inr (Inr (\<lambda>request.
      Inr (ss_sent (snd (catalog_handle R D C S self_addr r g s p (Inr request) (new_stream None))))))"
  shows "catalog_connect C dial peer_addr
    = Inr (map (catalog_view S (relay_only_addr self_addr) s)
        (filter (\<lambda>i. allowed (rings r) (attached r) p (hash_word (ti_hash i)) Read) infos))"
  by (rule catalog_listing) (fact assms)+

text \<open>The sample: a node with two tagged blobs, one shared with peer 5 by a ring, and a
  catalog grant for peer 5.\<close>

definition sample_addr :: endpoint_addr where "sample_addr = addr_new (EndpointId 7)"

definition sample_grants :: "(byte list, unit) mem_db" where
  "sample_grants = [(grant_key BlobList (EndpointId 5), ())]"

definition sample_item :: tag_info where
  "sample_item = \<lparr>ti_name = str_bytes ''a.txt'', ti_hash = Hash 1, ti_format = Raw\<rparr>"

definition sample_item2 :: tag_info where
  "sample_item2 = \<lparr>ti_name = str_bytes ''b.txt'', ti_hash = Hash 2, ti_format = Raw\<rparr>"

definition sample_dial :: dial where
  "sample_dial = (\<lambda>_. Inr (Inr (\<lambda>request. Inr (ss_sent (snd (catalog_handle mem_registry mem_redb
     ref_codec mem_store sample_addr sample_reg sample_grants sample_disk (EndpointId 5)
     (Inr request) (new_stream None)))))))"

lemma sample_tag_infos: "tag_infos mem_store sample_disk = Inr [sample_item, sample_item2]"
  by (simp add: sample_disk_def sample_item_def sample_item2_def)

lemma sample_allowed:
  "allowed (mem_rings sample_reg) (mem_attached sample_reg) (EndpointId 5) 1 Read"
  "\<not> allowed (mem_rings sample_reg) (mem_attached sample_reg) (EndpointId 5) 2 Read"
  by (auto simp: allowed_def in_ring_def mem_attached_def assoc_map_eq mem_attachments_def
      mem_members_of mem_members_def sample_reg_def)

lemma sample_granted:
  "(BlobList, EndpointId 5) \<in> grants_abs map_of sample_grants"
  "(BlobList, EndpointId 6) \<notin> grants_abs map_of sample_grants"
  by (simp_all add: grants_abs_def sample_grants_def)

lemma ascii_lossy: "ascii s \<Longrightarrow> from_utf8_lossy (str_bytes s) = s"
  by (simp add: from_utf8_lossy_valid ascii_utf8)

lemma sample_name: "from_utf8_lossy (str_bytes ''a.txt'') = ''a.txt''"
  by (rule ascii_lossy) (simp add: ascii_def)

lemma sample_servable: "servable ref_codec (relay_only_addr sample_addr) sample_item"
proof -
  obtain u where u: "ticket_to_uri ref_codec (entry_ticket (relay_only_addr sample_addr) sample_item) = Inr u"
    using ref_to_uri by blast
  have "length u \<le> 600 + 4 * length ''a.txt''"
    by (rule length_ref_uri[OF u]) (simp_all add: entry_ticket_def ticket_from_format_def
        sample_addr_def addr_new_def sample_item_def sample_name relay_only_addr_def)
  with u show ?thesis by (simp add: servable_def sample_item_def sample_name)
qed

lemma catalog_end_to_end_witness:
  "catalog_connect ref_codec sample_dial sample_addr
    = Inr [catalog_view mem_store (relay_only_addr sample_addr) sample_disk sample_item]"
proof -
  have "servable ref_codec (relay_only_addr sample_addr) i"
    if "i \<in> set [sample_item, sample_item2]"
      "allowed (mem_rings sample_reg) (mem_attached sample_reg) (EndpointId 5) (hash_word (ti_hash i)) Read" for i
    using that sample_allowed(2) sample_servable by (auto simp: sample_item2_def)
  from catalog_end_to_end[OF mem_reg.live_registry_axioms mem_grants.grant_store_axioms
      ref_codec.ticket_laws_axioms sample_granted(1) sample_tag_infos this,
    where dial = sample_dial and peer_addr = sample_addr]
  show ?thesis
    using sample_allowed by (simp add: sample_dial_def sample_item_def sample_item2_def)
qed

text \<open>
  C20: A caller without the grant gets the single byte \<open>DENIED\<close> and nothing else, whatever
  the store and the registry hold, and the client reports the denial.
\<close>
theorem catalog_denied:
  assumes "grant_store D gview gtview I" "(BlobList, p) \<notin> grants_abs gview g"
  shows "catalog_handle R D C S self_addr r g s p (Inr [BLOB_LIST]) (new_stream None)
      = (Inr (), \<lparr>ss_sent = [DENIED], ss_room = None, ss_finished = True\<rparr>)
    \<and> catalog_connect C (\<lambda>_. Inr (Inr (\<lambda>request.
        Inr (ss_sent (snd (catalog_handle R D C S self_addr r g s p (Inr request) (new_stream None))))))) peer_addr
      = bail ''catalog access denied by remote node''"
proof -
  have h: "catalog_handle R D C S self_addr r g s p (Inr [BLOB_LIST]) (new_stream None)
      = (Inr (), \<lparr>ss_sent = [DENIED], ss_room = None, ss_finished = True\<rparr>)"
    using assms by (simp add: catalog_handle_def handle_blob_list_def read_exact_def act_simps
        grant_store.has_grant write_all_open new_stream_def finish_def)
  then show ?thesis
    by (simp add: catalog_connect_def bindA_def ctxA_def read_exact_def DENIED_def ALLOWED_def
        fail_def bail_def)
qed

lemma catalog_denied_witness:
  "ss_sent (snd (catalog_handle mem_registry mem_redb ref_codec mem_store sample_addr sample_reg
     sample_grants sample_disk (EndpointId 6) (Inr [BLOB_LIST]) (new_stream None))) = [DENIED]"
  using catalog_denied[OF mem_grants.grant_store_axioms sample_granted(2),
    of mem_registry ref_codec mem_store sample_addr sample_reg sample_disk sample_addr] by simp

text \<open>
  C3: Non-interference: two stores that agree on the tags the caller may read (and on the
  sizes of those blobs) give the caller the same answer, byte for byte, for every
  request, every state of the grants and wherever the connection breaks.
\<close>
theorem catalog_noninterference:
  assumes "fs_tags_list S s1 = Inr items1" "fs_tags_list S s2 = Inr items2"
    and same: "filter (readable_item R r p) items1 = filter (readable_item R r p) items2"
    and metrics: "\<And>i. Inr i \<in> set items1 \<Longrightarrow> readable_item R r p (Inr i) \<Longrightarrow>
      blob_metrics S s1 (ti_hash i) (ti_format i) = blob_metrics S s2 (ti_hash i) (ti_format i)"
  shows "catalog_handle R D C S self_addr r g s1 p request stream
    = catalog_handle R D C S self_addr r g s2 p request stream"
proof -
  have "serve_items R C S addr r s1 p items1 = serve_items R C S addr r s2 p items2" for addr
    unfolding serve_items_filter[of R C S addr r s1 p items1] serve_items_filter[of R C S addr r s2 p items2]
      same[symmetric]
    by (rule serve_items_cong) (use metrics in auto)
  then have "bindA (liftA (lift_err (fs_tags_list S s1))) (serve_items R C S addr r s1 p)
      = bindA (liftA (lift_err (fs_tags_list S s2))) (serve_items R C S addr r s2 p)" for addr
    by (intro ext) (simp add: assms(1,2) act_simps)
  then show ?thesis
    by (simp only: catalog_handle_def handle_blob_list_def Let_def)
qed

lemma catalog_noninterference_witness:
  "catalog_handle mem_registry mem_redb ref_codec mem_store sample_addr sample_reg sample_grants
      sample_disk (EndpointId 5) (Inr [BLOB_LIST]) (new_stream (Some 40))
   = catalog_handle mem_registry mem_redb ref_codec mem_store sample_addr sample_reg sample_grants
      (sample_disk\<lparr>md_tags := take 1 (md_tags sample_disk), md_blobs := take 1 (md_blobs sample_disk)\<rparr>)
      (EndpointId 5) (Inr [BLOB_LIST]) (new_stream (Some 40))"
proof -
  let ?d = "sample_disk\<lparr>md_tags := take 1 (md_tags sample_disk), md_blobs := take 1 (md_blobs sample_disk)\<rparr>"
  have l: "fs_tags_list mem_store sample_disk = Inr [Inr sample_item, Inr sample_item2]"
    "fs_tags_list mem_store ?d = Inr [Inr sample_item]"
    by (simp_all add: sample_disk_def sample_item_def sample_item2_def)
  have r: "\<not> readable_item mem_registry sample_reg (EndpointId 5) (Inr sample_item2)"
    using sample_allowed(2) by (simp add: mem_reg.has_permission_eq sample_item2_def)
  have m: "blob_metrics mem_store sample_disk (Hash 1) Raw = blob_metrics mem_store ?d (Hash 1) Raw"
    by (simp add: complete_size_def mem_store_def sample_disk_def)
  show ?thesis
    by (rule catalog_noninterference[OF l]) (use r m in \<open>auto simp: sample_item_def simp del: readable_item_simps\<close>)
qed

text \<open>
  The counters of an entry survive the wire exactly when a file count is below
  \<open>2 ^ 32 - 1\<close> and a size is not the all-ones word; larger counts are truncated and the
  reserved values read as absent.
\<close>
theorem catalog_counters_lossless:
  "(wire_count fc = fc \<longleftrightarrow> (case fc of None \<Rightarrow> True | Some c \<Rightarrow> c < 2 ^ 32 - 1))
   \<and> (wire_size sz = sz \<longleftrightarrow> sz \<noteq> Some (-1))"
proof -
  have "wire_count (Some c) = Some c \<longleftrightarrow> c < 2 ^ 32 - 1" for c
  proof (cases "c < 2 ^ 32")
    case True
    then show ?thesis by (simp add: wire_count_def)
  next
    case False
    moreover have "c mod 2 ^ 32 < 2 ^ 32" by simp
    ultimately have "c mod 2 ^ 32 \<noteq> c" by linarith
    with False show ?thesis by (simp add: wire_count_def)
  qed
  then show ?thesis by (cases fc) (auto simp: wire_count_def[of None] wire_size_def)
qed

end
