(* ===== verification/Peers.thy ===== *)
theory Peers
  imports Redb Util Grants
begin

text \<open>
  \<open>src/src/core/peers.rs\<close>: the local address book.  A row \<open>peer-id[32]\<close> maps to a
  nickname, the empty string meaning that the peer is known and has none.  The
  abstract state maps a peer to an optional nickname; \<open>display_peer\<close> of
  \<open>src/src/util.rs\<close> is here because it reads the store.
\<close>

type_synonym ('db, 'tx) peer_db = "('db, 'tx, byte list, string) redb"

definition peer_key :: "endpoint_id \<Rightarrow> byte list" where
  "peer_key peer = id_bytes peer"

definition stored_nick :: "string \<Rightarrow> string option" where
  "stored_nick nick = (if nick = [] then None else Some nick)"

definition peers_from_db :: "('db, 'tx) peer_db \<Rightarrow> 'db \<Rightarrow> 'db result" where
  "peers_from_db D db = with_write D ''starting peers init transaction'' ''creating peers table''
     ''committing peers init'' Inr db"

definition peers_upsert :: "('db, 'tx) peer_db \<Rightarrow> endpoint_id \<Rightarrow> string option \<Rightarrow> 'db \<Rightarrow> 'db result" where
  "peers_upsert D peer nickname db =
     with_write D ''beginning peer upsert'' ''opening peers table'' ''committing peer upsert''
       (\<lambda>t. ctxs ''inserting peer'' (rd_insert D t (peer_key peer)
          (case nickname of None \<Rightarrow> [] | Some n \<Rightarrow> n))) db"

definition peers_ensure :: "('db, 'tx) peer_db \<Rightarrow> endpoint_id \<Rightarrow> 'db \<Rightarrow> 'db result" where
  "peers_ensure D peer db =
     bindR (with_read D ''beginning peer ensure read'' ''opening peers table''
       (\<lambda>t. ctxs ''querying peer'' (rd_get D t (peer_key peer))) db) (\<lambda>v.
     if v \<noteq> None then Inr db else peers_upsert D peer None db)"

definition peers_set_nickname ::
    "('db, 'tx) peer_db \<Rightarrow> iroh \<Rightarrow> endpoint_id \<Rightarrow> string \<Rightarrow> 'db \<Rightarrow> 'db result" where
  "peers_set_nickname D I peer nickname db =
     with_write D ''beginning peer nick update'' ''opening peers table'' ''committing peer nick update''
       (\<lambda>t. bindR (ctxs ''querying peer'' (rd_get D t (peer_key peer))) (\<lambda>v.
          if v = None then bail (''peer not found: '' @ ir_show_id I peer)
          else ctxs ''updating peer nickname'' (rd_insert D t (peer_key peer) nickname))) db"

definition peers_get :: "('db, 'tx) peer_db \<Rightarrow> endpoint_id \<Rightarrow> 'db \<Rightarrow> string option option result" where
  "peers_get D peer db =
     bindR (with_read D ''beginning peer get'' ''opening peers table''
       (\<lambda>t. ctxs ''querying peer'' (rd_get D t (peer_key peer))) db) (\<lambda>v.
     Inr (map_option stored_nick v))"

definition peers_list ::
    "('db, 'tx) peer_db \<Rightarrow> iroh \<Rightarrow> 'db \<Rightarrow> (endpoint_id \<times> string option) list result" where
  "peers_list D I db =
     with_read D ''beginning peers list read'' ''opening peers table''
       (\<lambda>t. bindR (ctxs ''iterating peers'' (rd_iter D t)) (\<lambda>items.
          collectR (map (\<lambda>item. bindR (ctxs ''reading peer entry'' item)
            (\<lambda>(k, v). bindR (ctxs ''peer key not 32 bytes'' (slice_to_bytes32 k)) (\<lambda>bytes.
              bindR (ctxs ''invalid peer id in store'' (ir_key I bytes)) (\<lambda>peer.
                Inr (peer, stored_nick v))))) items))) db"

definition peers_remove :: "('db, 'tx) peer_db \<Rightarrow> iroh \<Rightarrow> endpoint_id \<Rightarrow> 'db \<Rightarrow> 'db result" where
  "peers_remove D I peer db =
     with_write D ''beginning peer remove'' ''opening peers table'' ''committing peer remove''
       (\<lambda>t. bindR (ctxs ''removing peer'' (rd_remove D t (peer_key peer))) (\<lambda>(t', removed).
          if removed = None then bail (''peer not found: '' @ ir_show_id I peer) else Inr t')) db"

definition display_peer :: "('db, 'tx) peer_db \<Rightarrow> iroh \<Rightarrow> endpoint_id \<Rightarrow> 'db \<Rightarrow> string" where
  "display_peer D I peer db =
     format_peer_entry I peer (case ok_option (peers_get D peer db) of
       Some (Some nick) \<Rightarrow> nick | _ \<Rightarrow> None)"

section \<open>Refinement of a map from peers to nicknames\<close>

definition peers_abs :: "('db \<Rightarrow> byte list \<rightharpoonup> string) \<Rightarrow> 'db \<Rightarrow> endpoint_id \<rightharpoonup> string option" where
  "peers_abs view db p = map_option stored_nick (view db (peer_key p))"

definition peers_ok :: "iroh \<Rightarrow> ('db \<Rightarrow> byte list \<rightharpoonup> string) \<Rightarrow> 'db \<Rightarrow> bool" where
  "peers_ok I view db \<longleftrightarrow> (\<forall>k \<in> dom (view db). \<exists>p. valid_id I p \<and> k = peer_key p)"

lemma peer_key_inject [simp]: "peer_key p = peer_key q \<longleftrightarrow> p = q"
  by (simp add: peer_key_def)

lemma stored_nick_simps [simp]: "stored_nick [] = None" "n \<noteq> [] \<Longrightarrow> stored_nick n = Some n"
  by (simp_all add: stored_nick_def)

text \<open>The nickname that \<open>upsert\<close> leaves behind: an empty one is none.\<close>

definition norm_nick :: "string option \<Rightarrow> string option" where
  "norm_nick nickname = (case nickname of None \<Rightarrow> None | Some n \<Rightarrow> stored_nick n)"

lemma norm_nick_alt: "stored_nick (case nickname of None \<Rightarrow> [] | Some n \<Rightarrow> n) = norm_nick nickname"
  by (cases nickname) (simp_all add: norm_nick_def)

lemma peers_abs_upd:
  assumes "view db' = (view db)(peer_key p \<mapsto> n)"
  shows "peers_abs view db' = (peers_abs view db)(p \<mapsto> stored_nick n)"
  using assms by (auto simp: peers_abs_def fun_eq_iff)

lemma peers_abs_del:
  assumes "view db' = (view db)(peer_key p := None)"
  shows "peers_abs view db' = (peers_abs view db)(p := None)"
  using assms by (auto simp: peers_abs_def fun_eq_iff)

lemma peers_ok_upd:
  "view db' = (view db)(peer_key p \<mapsto> n) \<Longrightarrow> peers_ok I view db \<Longrightarrow> valid_id I p \<Longrightarrow> peers_ok I view db'"
  by (auto simp: peers_ok_def)

lemma peers_ok_del:
  "view db' = (view db)(k := None) \<Longrightarrow> peers_ok I view db \<Longrightarrow> peers_ok I view db'"
  by (auto simp: peers_ok_def)

lemma peers_abs_None: "view db (peer_key p) = None \<longleftrightarrow> peers_abs view db p = None"
  by (simp add: peers_abs_def)

locale peer_store = redb_live D view tview + iroh_ids I
  for D :: "('db, 'tx, byte list, string) redb"
    and view :: "'db \<Rightarrow> byte list \<rightharpoonup> string"
    and tview :: "'tx \<Rightarrow> byte list \<rightharpoonup> string"
    and I :: iroh
begin

lemma from_db: "\<exists>db'. peers_from_db D db = Inr db' \<and> view db' = view db"
  unfolding peers_from_db_def by (rule with_write_ok) auto

lemma upsert: "\<exists>db'. peers_upsert D p nickname db = Inr db'
    \<and> peers_abs view db' = (peers_abs view db)(p \<mapsto> norm_nick nickname)
    \<and> (peers_ok I view db \<and> valid_id I p \<longrightarrow> peers_ok I view db')"
proof -
  let ?n = "case nickname of None \<Rightarrow> [] | Some n \<Rightarrow> n"
  obtain db' where "peers_upsert D p nickname db = Inr db'" "view db' = (view db)(peer_key p \<mapsto> ?n)"
    unfolding peers_upsert_def using put_ok by blast
  then show ?thesis
    using peers_abs_upd[of view db' db p ?n] peers_ok_upd[of view db' db p ?n] norm_nick_alt by metis
qed

lemma get_nick: "peers_get D p db = Inr (peers_abs view db p)"
  by (simp add: peers_get_def get_ok peers_abs_def)

lemma ensure: "\<exists>db'. peers_ensure D p db = Inr db'
    \<and> peers_abs view db' = (if peers_abs view db p = None then (peers_abs view db)(p \<mapsto> None) else peers_abs view db)
    \<and> (peers_ok I view db \<and> valid_id I p \<longrightarrow> peers_ok I view db')"
proof (cases "view db (peer_key p)")
  case None
  then have "peers_abs view db p = None" by (simp add: peers_abs_None)
  with None show ?thesis
    using upsert[of p None db] by (auto simp: peers_ensure_def get_ok norm_nick_def)
next
  case (Some n)
  then have "peers_abs view db p \<noteq> None" by (simp add: peers_abs_None[symmetric])
  with Some show ?thesis by (auto simp: peers_ensure_def get_ok)
qed

lemma set_nickname_view:
  assumes "peers_abs view db p \<noteq> None"
  shows "\<exists>db'. peers_set_nickname D I p n db = Inr db' \<and> view db' = (view db)(peer_key p \<mapsto> n)"
proof -
  have known: "view db (peer_key p) \<noteq> None" using assms by (simp add: peers_abs_None)
  show ?thesis unfolding peers_set_nickname_def
  proof (rule with_write_ok)
    fix t assume "tview t = view db"
    then show "\<exists>t'. bindR (ctxs ''querying peer'' (rd_get D t (peer_key p))) (\<lambda>v.
        if v = None then bail (''peer not found: '' @ ir_show_id I p)
        else ctxs ''updating peer nickname'' (rd_insert D t (peer_key p) n)) = Inr t'
        \<and> tview t' = (view db)(peer_key p \<mapsto> n)"
      using known insert_ok[of t "peer_key p" n] by (auto simp: get_eq)
  qed
qed

lemma set_nickname:
  "(peers_abs view db p = None \<longrightarrow>
      peers_set_nickname D I p n db = bail (''peer not found: '' @ ir_show_id I p))
   \<and> (peers_abs view db p \<noteq> None \<longrightarrow>
      (\<exists>db'. peers_set_nickname D I p n db = Inr db'
        \<and> peers_abs view db' = (peers_abs view db)(p \<mapsto> stored_nick n)))"
proof (intro conjI impI)
  assume "peers_abs view db p = None"
  then show "peers_set_nickname D I p n db = bail (''peer not found: '' @ ir_show_id I p)"
    unfolding peers_set_nickname_def bail_def
    by (intro with_write_err) (simp add: get_eq peers_abs_None[symmetric] bail_def)
next
  assume "peers_abs view db p \<noteq> None"
  note set_nickname_view[OF this, of n]
  then obtain db' where "peers_set_nickname D I p n db = Inr db'" "view db' = (view db)(peer_key p \<mapsto> n)"
    by blast
  with peers_abs_upd[OF this(2)]
  show "\<exists>db'. peers_set_nickname D I p n db = Inr db'
      \<and> peers_abs view db' = (peers_abs view db)(p \<mapsto> stored_nick n)" by blast
qed

lemma remove_known:
  "(peers_abs view db p = None \<longrightarrow> peers_remove D I p db = bail (''peer not found: '' @ ir_show_id I p))
   \<and> (peers_abs view db p \<noteq> None \<longrightarrow>
      (\<exists>db'. peers_remove D I p db = Inr db' \<and> peers_abs view db' = (peers_abs view db)(p := None)
        \<and> (peers_ok I view db \<longrightarrow> peers_ok I view db')))"
proof (intro conjI impI)
  assume "peers_abs view db p = None"
  then have unknown: "view db (peer_key p) = None" by (simp add: peers_abs_None)
  show "peers_remove D I p db = bail (''peer not found: '' @ ir_show_id I p)"
    unfolding peers_remove_def bail_def
  proof (rule with_write_err)
    fix t assume tv: "tview t = view db"
    obtain t' where "rd_remove D t (peer_key p) = Inr (t', tview t (peer_key p))"
      by (rule remove_ok)
    with tv unknown show "bindR (ctxs ''removing peer'' (rd_remove D t (peer_key p))) (\<lambda>(t', removed).
        if removed = None then Inl (anyhow_msg (''peer not found: '' @ ir_show_id I p)) else Inr t')
        = Inl (anyhow_msg (''peer not found: '' @ ir_show_id I p))" by simp
  qed
next
  assume "peers_abs view db p \<noteq> None"
  then have known: "view db (peer_key p) \<noteq> None" by (simp add: peers_abs_None)
  have "\<exists>db'. peers_remove D I p db = Inr db' \<and> view db' = (view db)(peer_key p := None)"
    unfolding peers_remove_def
  proof (rule with_write_ok)
    fix t assume "tview t = view db"
    then show "\<exists>t'. bindR (ctxs ''removing peer'' (rd_remove D t (peer_key p))) (\<lambda>(t', removed).
        if removed = None then bail (''peer not found: '' @ ir_show_id I p) else Inr t') = Inr t'
        \<and> tview t' = (view db)(peer_key p := None)"
      using known by (rule_tac remove_ok[of t "peer_key p"]) auto
  qed
  then obtain db' where "peers_remove D I p db = Inr db'" "view db' = (view db)(peer_key p := None)"
    by blast
  with peers_abs_del[OF this(2)] peers_ok_del[OF this(2)]
  show "\<exists>db'. peers_remove D I p db = Inr db' \<and> peers_abs view db' = (peers_abs view db)(p := None)
      \<and> (peers_ok I view db \<longrightarrow> peers_ok I view db')" by blast
qed

lemma list_entries:
  assumes ok: "peers_ok I view db"
  shows "\<exists>ps. peers_list D I db = Inr ps \<and> distinct (map fst ps) \<and> map_of ps = peers_abs view db"
proof -
  let ?f = "\<lambda>(k, v). bindR (ctxs ''peer key not 32 bytes'' (slice_to_bytes32 k)) (\<lambda>bytes.
      bindR (ctxs ''invalid peer id in store'' (ir_key I bytes)) (\<lambda>peer. Inr (peer, stored_nick v)))"
  let ?g = "\<lambda>(k, v). (EndpointId (the (from_bytes k)), stored_nick v)"
  have key: "\<exists>p. valid_id I p \<and> k = peer_key p" if "view db k = Some v" for k v
    using ok that unfolding peers_ok_def by blast
  have dec: "?f (k, v) = Inr (?g (k, v))" if kv: "view db k = Some v" for k v
  proof -
    obtain p where p: "valid_id I p" "k = peer_key p" using key[OF kv] by blast
    then show ?thesis
      by (cases p) (simp add: peer_key_def id_bytes_def slice_to_bytes32_def valid_id_def)
  qed
  from list_ok[of db ?f ?g, OF this] obtain kvs where
    l: "peers_list D I db = Inr (map ?g kvs)" and kvs: "distinct (map fst kvs)" "map_of kvs = view db"
    unfolding peers_list_def by blast
  have "\<exists>ps. kvs = map (\<lambda>(p, v). (peer_key p, v)) ps"
  proof -
    have "\<exists>pv. kv = (\<lambda>(p, v). (peer_key p, v)) pv" if kv: "kv \<in> set kvs" for kv
    proof -
      have "view db (fst kv) = Some (snd kv)"
        using map_of_is_SomeI[OF kvs(1), of "fst kv" "snd kv"] kv kvs(2) by simp
      from key[OF this] obtain p where "fst kv = peer_key p" by blast
      then show ?thesis by (intro exI[of _ "(p, snd kv)"]) (simp add: prod_eq_iff)
    qed
    then show ?thesis unfolding ex_map_conv by blast
  qed
  then obtain ps where ps: "kvs = map (\<lambda>(p, v). (peer_key p, v)) ps" by blast
  have "?g (peer_key p, v) = (p, stored_nick v)" for p v
    by (cases p) (simp add: peer_key_def id_bytes_def)
  then have g: "map ?g kvs = map (\<lambda>(p, v). (p, stored_nick v)) ps"
    unfolding ps by (simp add: case_prod_unfold)
  have "distinct (map fst (map ?g kvs))"
  proof -
    have "map fst kvs = map peer_key (map fst ps)" and "map fst (map ?g kvs) = map fst ps"
      unfolding g by (simp_all add: ps case_prod_unfold comp_def)
    with kvs(1) show ?thesis by (metis distinct_map)
  qed
  moreover have "map_of (map ?g kvs) = peers_abs view db"
  proof
    fix p
    have "map_of kvs (peer_key p) = map_of ps p" unfolding ps by (induction ps) auto
    moreover have "map_of (map ?g kvs) p = map_option stored_nick (map_of ps p)"
      unfolding g by (induction ps) auto
    ultimately show "map_of (map ?g kvs) p = peers_abs view db p"
      using kvs(2) by (simp add: peers_abs_def)
  qed
  ultimately show ?thesis using l by blast
qed

end

interpretation mem_peers: peer_store mem_redb map_of map_of hex_iroh ..

section \<open>A history of changes\<close>

datatype peer_change =
    Upsert endpoint_id "string option"
  | Ensure endpoint_id
  | SetNickname endpoint_id string
  | Forget endpoint_id

fun peer_change_id :: "peer_change \<Rightarrow> endpoint_id" where
  "peer_change_id (Upsert p n) = p"
| "peer_change_id (Ensure p) = p"
| "peer_change_id (SetNickname p n) = p"
| "peer_change_id (Forget p) = p"

fun peer_op :: "('db, 'tx) peer_db \<Rightarrow> iroh \<Rightarrow> peer_change \<Rightarrow> 'db \<Rightarrow> 'db result" where
  "peer_op D I (Upsert p n) db = peers_upsert D p n db"
| "peer_op D I (Ensure p) db = peers_ensure D p db"
| "peer_op D I (SetNickname p n) db = peers_set_nickname D I p n db"
| "peer_op D I (Forget p) db = peers_remove D I p db"

text \<open>A change that fails leaves the database as it was.\<close>

fun peer_history :: "('db, 'tx) peer_db \<Rightarrow> iroh \<Rightarrow> 'db \<Rightarrow> peer_change list \<Rightarrow> 'db" where
  "peer_history D I db [] = db"
| "peer_history D I db (c # cs) =
     peer_history D I (case peer_op D I c db of Inr db' \<Rightarrow> db' | Inl _ \<Rightarrow> db) cs"

fun book_step :: "(endpoint_id \<rightharpoonup> string option) \<Rightarrow> peer_change \<Rightarrow> (endpoint_id \<rightharpoonup> string option)" where
  "book_step m (Upsert p n) = m(p \<mapsto> norm_nick n)"
| "book_step m (Ensure p) = (if m p = None then m(p \<mapsto> None) else m)"
| "book_step m (SetNickname p n) = (if m p = None then m else m(p \<mapsto> stored_nick n))"
| "book_step m (Forget p) = m(p := None)"

context peer_store
begin

lemma peer_op_step:
  assumes "peers_ok I view db" "valid_id I (peer_change_id c)"
  shows "let db' = (case peer_op D I c db of Inr db' \<Rightarrow> db' | Inl _ \<Rightarrow> db) in
    peers_ok I view db' \<and> peers_abs view db' = book_step (peers_abs view db) c"
proof (cases c)
  case (Upsert p n)
  with upsert[of p n db] assms show ?thesis by auto
next
  case (Ensure p)
  with ensure[of p db] assms show ?thesis by auto
next
  case (SetNickname p n)
  show ?thesis
  proof (cases "peers_abs view db p = None")
    case True
    with set_nickname[of db p n] SetNickname assms show ?thesis by (auto simp: bail_def)
  next
    case False
    then obtain db' where db': "peers_set_nickname D I p n db = Inr db'"
      "view db' = (view db)(peer_key p \<mapsto> n)" using set_nickname_view[of db p n] by blast
    from peers_abs_upd[OF db'(2)] peers_ok_upd[OF db'(2) assms(1)] db'(1) SetNickname False assms(2)
    show ?thesis by (auto simp del: not_None_eq)
  qed
next
  case (Forget p)
  show ?thesis
  proof (cases "peers_abs view db p = None")
    case True
    then have "(peers_abs view db)(p := None) = peers_abs view db" by (rule fun_upd_idem)
    with remove_known[of db p] Forget True assms show ?thesis by (simp add: bail_def)
  next
    case False
    then obtain db' where "peers_remove D I p db = Inr db'" "peers_ok I view db'"
      "peers_abs view db' = (peers_abs view db)(p := None)" using remove_known[of db p] assms(1) by blast
    with Forget show ?thesis by simp
  qed
qed

lemma peer_history_book:
  "peers_ok I view db \<Longrightarrow> \<forall>c \<in> set cs. valid_id I (peer_change_id c) \<Longrightarrow>
     peers_ok I view (peer_history D I db cs)
     \<and> peers_abs view (peer_history D I db cs) = foldl book_step (peers_abs view db) cs"
proof (induction cs arbitrary: db)
  case (Cons c cs)
  then show ?case using peer_op_step[of db c] by (auto simp: Let_def)
qed simp

end

text \<open>
  C25: The known-peers store is a map from peers to optional nicknames.  After any sequence
  of operations, failing ones included, a lookup returns what the same sequence leaves in
  the map (an upsert overwrites the nickname, \<open>ensure\<close> never does, renaming and
  forgetting an unknown peer change nothing, an empty nickname is none) and the listing
  is exactly that map.
\<close>
theorem peers_refine_map:
  assumes "peer_store D view tview I" "peers_ok I view db"
    and "\<forall>c \<in> set cs. valid_id I (peer_change_id c)"
  shows "(\<forall>p. peers_get D p (peer_history D I db cs) = Inr (foldl book_step (peers_abs view db) cs p))
    \<and> (\<exists>ps. peers_list D I (peer_history D I db cs) = Inr ps \<and> distinct (map fst ps)
         \<and> map_of ps = foldl book_step (peers_abs view db) cs)"
proof -
  let ?db' = "peer_history D I db cs"
  note book = peer_store.peer_history_book[OF assms]
  then have ok: "peers_ok I view ?db'" and abs: "peers_abs view ?db' = foldl book_step (peers_abs view db) cs" by simp_all
  show ?thesis
    using peer_store.list_entries[OF assms(1) ok] peer_store.get_nick[OF assms(1), of _ ?db'] unfolding abs by blast
qed

lemma peers_refine_map_witness:
  "peers_get mem_redb (EndpointId 7) (peer_history mem_redb hex_iroh []
     [Upsert (EndpointId 7) (Some ''bob''), Ensure (EndpointId 7), SetNickname (EndpointId 9) ''eve''])
   = Inr (Some (Some ''bob''))"
proof -
  let ?cs = "[Upsert (EndpointId 7) (Some ''bob''), Ensure (EndpointId 7), SetNickname (EndpointId 9) ''eve'']"
  have "peers_ok hex_iroh map_of []" "\<forall>c \<in> set ?cs. valid_id hex_iroh (peer_change_id c)"
    by (simp_all add: peers_ok_def)
  then have "peers_get mem_redb (EndpointId 7) (peer_history mem_redb hex_iroh [] ?cs)
      = Inr (foldl book_step (peers_abs map_of []) ?cs (EndpointId 7))"
    using peers_refine_map[OF mem_peers.peer_store_axioms] by blast
  also have "\<dots> = Inr (Some (Some ''bob''))"
    by (simp add: norm_nick_def stored_nick_def peers_abs_def)
  finally show ?thesis .
qed

end
