(* ===== verification/Receiver.thy ===== *)
theory Receiver
  imports Node
begin

text \<open>
  \<open>src/src/core/protocol/rings.rs\<close> and \<open>download_impl\<close> of \<open>src/src/core/node.rs\<close>: fetching
  a blob (or a collection and its members) from its owner and exporting it to the file
  system.  The wire format of a request, the Bao decoder and the import of decoded
  chunks belong to other crates and are a parameter, the record \<open>transfer\<close>; which
  blobs are fetched in which order, what is skipped, the progress events, the error
  paths and the paths written are the program's.
\<close>

datatype progress_event = FileStart nat nat string | Bytes u64 u64

datatype status = StatusDenied | StatusAllowed | StatusOther

datatype bao_item = Leaf u64 nat | Parent

text \<open>\<open>tr_request\<close> opens a stream, sends the request for a blob and gives the response
  bytes; \<open>tr_decode\<close> is what the decoder yields before it ends or fails; \<open>tr_refuses\<close>
  tells the first item the importing store no longer takes, if any, and why; \<open>tr_import\<close> is
  the store after the items it took were handed to it.\<close>

record 's transfer =
  tr_request :: "blob_hash \<Rightarrow> permission \<Rightarrow> string + byte list"
  tr_status :: "byte \<Rightarrow> string + status"
  tr_start_import :: "'s \<Rightarrow> blob_hash \<Rightarrow> u64 \<Rightarrow> string + unit"
  tr_decode :: "blob_hash \<Rightarrow> u64 \<Rightarrow> byte list \<Rightarrow> bao_item list \<times> string option"
  tr_refuses :: "'s \<Rightarrow> blob_hash \<Rightarrow> u64 \<Rightarrow> bao_item list \<Rightarrow> (nat \<times> string) option"
  tr_import :: "'s \<Rightarrow> blob_hash \<Rightarrow> u64 \<Rightarrow> bao_item list \<Rightarrow> (string + unit) \<times> 's"
  tr_hash_seq :: "byte list \<Rightarrow> string + blob_hash list"

record 's receiving =
  rs_disk :: 's
  rs_progress :: "progress_event list"

definition on_disk :: "('s, 'a) act \<Rightarrow> ('s receiving, 'a) act" where
  "on_disk m s = (case m (rs_disk s) of (r, d) \<Rightarrow> (r, s\<lparr>rs_disk := d\<rparr>))"

definition on_progress :: "bool \<Rightarrow> progress_event \<Rightarrow> ('s receiving, unit) act" where
  "on_progress enabled ev = modA (\<lambda>s. if enabled then s\<lparr>rs_progress := rs_progress s @ [ev]\<rparr> else s)"

definition is_complete :: "'s fs_store \<Rightarrow> 's \<Rightarrow> blob_hash \<Rightarrow> bool" where
  "is_complete S s hash = (complete_size S s hash \<noteq> None)"

section \<open>One blob\<close>

definition BAO_SIZE_HEADER :: nat where "BAO_SIZE_HEADER = 8"

text \<open>The status byte and the size header; what remains is the Bao encoding.\<close>

definition read_header :: "'s transfer \<Rightarrow> (byte list, status) act" where
  "read_header T =
     bindA (ctxA ''reading status'' (read_exact 1)) (\<lambda>status_byte.
       liftA (lift_err (tr_status T (hd status_byte))))"

fun leaf_progress :: "bool \<Rightarrow> u64 \<Rightarrow> bao_item list \<Rightarrow> ('s receiving, unit) act" where
  "leaf_progress enabled content_size [] = ret ()"
| "leaf_progress enabled content_size (Leaf off len # items) =
     thenA (on_progress enabled (Bytes (off + of_nat len) content_size))
       (leaf_progress enabled content_size items)"
| "leaf_progress enabled content_size (Parent # items) = leaf_progress enabled content_size items"

text \<open>The driver task: the items it decoded, those the store took, and how it ended.\<close>

definition drive_items ::
    "'s transfer \<Rightarrow> 's \<Rightarrow> blob_hash \<Rightarrow> u64 \<Rightarrow> byte list \<Rightarrow> bao_item list \<times> bao_item list \<times> (string + unit)" where
  "drive_items T s hash content_size recv =
     (case tr_decode T hash content_size recv of (items, failure) \<Rightarrow>
       (case tr_refuses T s hash content_size items of
          Some (k, e) \<Rightarrow> (take (k + 1) items, take k items, Inl e)
        | None \<Rightarrow> (items, items, case failure of None \<Rightarrow> Inr () | Some e \<Rightarrow> Inl e)))"

definition import_items ::
    "'s transfer \<Rightarrow> blob_hash \<Rightarrow> u64 \<Rightarrow> bao_item list \<Rightarrow> string + unit \<Rightarrow> ('s, unit) act" where
  "import_items T hash content_size items drive_res s =
     (case tr_import T s hash content_size items of (rx_res, s') \<Rightarrow>
       (bindR (ctxs ''bao decode'' drive_res) (\<lambda>_. ctxs ''bao import'' rx_res), s'))"

definition access_denied :: string where
  "access_denied = ''access denied '' @ em_dash @ '' not in a ring for this blob''"

text \<open>The size header, the decoder loop and the import, after the sender said yes.\<close>

definition import_content ::
    "'s transfer \<Rightarrow> blob_hash \<Rightarrow> bool \<Rightarrow> byte list \<Rightarrow> ('s receiving, unit) act" where
  "import_content T hash progress recv =
     (case ctxA ''reading bao size header'' (read_exact BAO_SIZE_HEADER) recv of (size_buf, recv) \<Rightarrow>
      bindA (liftA size_buf) (\<lambda>size_buf.
      let content_size = le_word size_buf :: u64 in
      thenA (on_progress progress (Bytes 0 content_size))
        (if content_size = 0 then ret ()
         else
           thenA (on_disk (queryA (\<lambda>s. ctxs ''starting bao import'' (tr_start_import T s hash content_size))))
            (bindA (getA (\<lambda>s. drive_items T (rs_disk s) hash content_size recv)) (\<lambda>(seen, taken, drive_res).
              thenA (leaf_progress progress content_size seen)
                (on_disk (import_items T hash content_size taken drive_res)))))))"

definition fetch_blob ::
    "'s fs_store \<Rightarrow> 's transfer \<Rightarrow> blob_hash \<Rightarrow> bool \<Rightarrow> ('s receiving, unit) act" where
  "fetch_blob S T hash progress =
     bindA (getA (\<lambda>s. is_complete S (rs_disk s) hash)) (\<lambda>complete.
     if complete then ret ()
     else
       bindA (liftA (lift_err (tr_request T hash Read))) (\<lambda>recv.
       case read_header T recv of (header, recv) \<Rightarrow>
       bindA (liftA header) (\<lambda>status.
       case status of
         StatusDenied \<Rightarrow> fail (anyhow_msg access_denied)
       | StatusOther \<Rightarrow> fail (anyhow_msg ''unexpected status byte from sender'')
       | StatusAllowed \<Rightarrow> import_content T hash progress recv)))"

section \<open>Export\<close>

definition export_path :: "'s os \<Rightarrow> 's \<Rightarrow> iroh \<Rightarrow> blob_hash \<Rightarrow> string option \<Rightarrow> string \<Rightarrow> string result" where
  "export_path Os s I hash name dest =
     lift_err (os_absolute Os s
       (if os_is_dir Os s dest
        then path_join dest (case name of Some n \<Rightarrow> n | None \<Rightarrow> ir_show_hash I hash) else dest))"

fun export_members :: "'s fs_store \<Rightarrow> 's os \<Rightarrow> string \<Rightarrow> collection \<Rightarrow> ('s, unit) act" where
  "export_members S Os path [] = ret ()"
| "export_members S Os path ((name, blob_hash) # col) =
     (let target = path_join path name in
      thenA (case path_parent target of
          Some parent \<Rightarrow> updA (\<lambda>s. lift_err (os_create_dir_all Os s parent))
        | None \<Rightarrow> ret ())
     (thenA (updA (\<lambda>s. ctxs (''exporting '' @ name) (fs_export S s blob_hash target)))
        (export_members S Os path col)))"

definition export_blob ::
    "'s fs_store \<Rightarrow> 's os \<Rightarrow> iroh \<Rightarrow> blob_hash \<Rightarrow> blob_format \<Rightarrow> string option \<Rightarrow> string \<Rightarrow> ('s, unit) act" where
  "export_blob S Os I hash format name dest =
     bindA (queryA (\<lambda>s. export_path Os s I hash name dest)) (\<lambda>path.
     case format of
       HashSeq \<Rightarrow>
         thenA (updA (\<lambda>s. lift_err (os_create_dir_all Os s path)))
        (bindA (queryA (\<lambda>s. ctxs ''loading collection'' (fs_load_collection S s hash))) (\<lambda>col.
           export_members S Os path col))
     | Raw \<Rightarrow> updA (\<lambda>s. ctxs ''exporting blob'' (fs_export S s hash path)))"

section \<open>A whole download\<close>

fun fetch_members ::
    "'s fs_store \<Rightarrow> 's transfer \<Rightarrow> nat \<Rightarrow> nat \<Rightarrow> collection \<Rightarrow> ('s receiving, unit) act" where
  "fetch_members S T idx file_total [] = ret ()"
| "fetch_members S T idx file_total ((fname, item_hash) # col) =
     thenA (on_progress True (FileStart (idx + 1) file_total fname))
    (thenA (fetch_blob S T item_hash True)
       (fetch_members S T (idx + 1) file_total col))"

definition fetch_collection :: "'s fs_store \<Rightarrow> 's transfer \<Rightarrow> blob_hash \<Rightarrow> ('s receiving, unit) act" where
  "fetch_collection S T hash =
     bindA (on_disk (queryA (\<lambda>s. ctxs ''reading root HashSeq'' (fs_get_bytes S s hash)))) (\<lambda>root_bytes.
     bindA (liftA (ctxs ''parsing HashSeq'' (tr_hash_seq T root_bytes))) (\<lambda>hash_seq.
     thenA (case hash_seq of meta_hash # _ \<Rightarrow> fetch_blob S T meta_hash False | [] \<Rightarrow> ret ())
    (bindA (on_disk (queryA (\<lambda>s. ctxs ''loading collection'' (fs_load_collection S s hash)))) (\<lambda>col.
       fetch_members S T 0 (length col) col))))"

definition receiver_download ::
    "'s fs_store \<Rightarrow> 's os \<Rightarrow> iroh \<Rightarrow> 's transfer \<Rightarrow> blob_hash \<Rightarrow> blob_format \<Rightarrow> string option \<Rightarrow> string
     \<Rightarrow> ('s receiving, unit) act" where
  "receiver_download S Os I T hash format name dest =
     bindA (getA (\<lambda>s. is_complete S (rs_disk s) hash)) (\<lambda>root_complete.
     thenA (if root_complete then ret () else fetch_blob S T hash (format = Raw))
    (thenA (if format = HashSeq then fetch_collection S T hash else ret ())
       (on_disk (export_blob S Os I hash format name dest))))"

definition download_impl ::
    "'s fs_store \<Rightarrow> 's os \<Rightarrow> iroh \<Rightarrow> (endpoint_addr \<Rightarrow> string + 's transfer) \<Rightarrow> share_ticket \<Rightarrow> string
     \<Rightarrow> ('s receiving, unit) act" where
  "download_impl S Os I connect ticket dest =
     (let hash = st_hash ticket; format = st_format ticket in
      bindA (getA (\<lambda>s. is_complete S (rs_disk s) hash)) (\<lambda>complete.
      if format = Raw \<and> complete then on_disk (export_blob S Os I hash format (st_name ticket) dest)
      else
        thenA (on_disk (queryA (\<lambda>s. ctxs ''creating download scope'' (fs_batch S s))))
       (thenA (on_disk (queryA (\<lambda>s. ctxs ''creating temp tag'' (fs_temp_tag S s hash format))))
       (bindA (liftA (ctxs ''connecting to sender'' (connect (st_addr ticket)))) (\<lambda>T.
          receiver_download S Os I T hash format (st_name ticket) dest)))))"

section \<open>Progress and completeness\<close>

text \<open>A transfer that honours the store: a whole import completes its blob, and no import
  takes a complete blob away (also when it fails half way).\<close>

locale transfer_laws =
  fixes S :: "'s fs_store" and T :: "'s transfer"
  assumes import_completes: "tr_import T s h n items = (Inr (), s') \<Longrightarrow> is_complete S s' h"
    and import_keeps: "tr_import T s h n items = (r, s') \<Longrightarrow> is_complete S s g \<Longrightarrow> is_complete S s' g"

fun is_file_start :: "progress_event \<Rightarrow> bool" where
  "is_file_start (FileStart _ _ _) = True"
| "is_file_start (Bytes _ _) = False"

text \<open>The two relations: only byte events are added, and complete blobs stay complete.\<close>

definition adds_bytes :: "'s receiving \<Rightarrow> 's receiving \<Rightarrow> bool" where
  "adds_bytes s t \<longleftrightarrow> (\<exists>es. rs_progress t = rs_progress s @ es \<and> (\<forall>e \<in> set es. \<not> is_file_start e))"

definition keeps_complete :: "'s fs_store \<Rightarrow> 's receiving \<Rightarrow> 's receiving \<Rightarrow> bool" where
  "keeps_complete S s t \<longleftrightarrow> (\<forall>g. is_complete S (rs_disk s) g \<longrightarrow> is_complete S (rs_disk t) g)"

interpretation adds_bytes: act_preorder adds_bytes
proof
  fix s t u :: "'a receiving"
  show "adds_bytes s s" by (auto simp: adds_bytes_def)
  assume "adds_bytes s t" "adds_bytes t u"
  then obtain es fs where "rs_progress t = rs_progress s @ es" "rs_progress u = rs_progress t @ fs"
    "\<forall>e \<in> set es. \<not> is_file_start e" "\<forall>e \<in> set fs. \<not> is_file_start e" unfolding adds_bytes_def by blast
  then show "adds_bytes s u" unfolding adds_bytes_def by (intro exI[of _ "es @ fs"]) auto
qed

interpretation keeps_complete: act_preorder "keeps_complete S" for S :: "'s fs_store"
  by unfold_locales (auto simp: keeps_complete_def)

lemma on_disk_bytes: "stays adds_bytes (on_disk m)"
  by (simp add: stays_def on_disk_def adds_bytes_def split: prod.split)

lemma on_progress_bytes: "\<not> is_file_start e \<Longrightarrow> stays adds_bytes (on_progress b e)"
  by (simp add: stays_def on_progress_def act_apply adds_bytes_def)

lemma leaf_progress_bytes: "stays adds_bytes (leaf_progress b n items)"
  by (induction b n items rule: leaf_progress.induct)
    (auto intro!: adds_bytes.stays_rules on_progress_bytes)

lemma fetch_blob_bytes: "stays adds_bytes (fetch_blob S T h b)"
proof -
  have st: "stays adds_bytes (case st of StatusDenied \<Rightarrow> m1 | StatusAllowed \<Rightarrow> m2 | StatusOther \<Rightarrow> m3)"
    if "stays adds_bytes m1" "stays adds_bytes m2" "stays adds_bytes m3" for st and m1 m2 m3 :: "('s receiving, unit) act"
    using that by (cases st) simp_all
  show ?thesis
    unfolding fetch_blob_def import_content_def
    by (intro adds_bytes.stays_rules st on_disk_bytes on_progress_bytes leaf_progress_bytes; simp)
qed

lemma on_progress_complete: "stays (keeps_complete S) (on_progress b e)"
  by (simp add: stays_def on_progress_def act_apply keeps_complete_def)

lemma leaf_progress_complete: "stays (keeps_complete S) (leaf_progress b n items)"
  by (induction b n items rule: leaf_progress.induct)
    (auto intro!: keeps_complete.stays_rules on_progress_complete)

lemma query_complete: "stays (keeps_complete S) (on_disk (queryA f))"
  by (simp add: stays_def on_disk_def queryA_def keeps_complete_def)

context transfer_laws
begin

lemma import_items_complete: "stays (keeps_complete S) (on_disk (import_items T h n items drive_res))"
  unfolding stays_def on_disk_def import_items_def keeps_complete_def
  using import_keeps by (auto split: prod.split)

lemma fetch_blob_complete: "stays (keeps_complete S) (fetch_blob S T h b)"
proof -
  have st: "stays (keeps_complete S) (case st of StatusDenied \<Rightarrow> m1 | StatusAllowed \<Rightarrow> m2 | StatusOther \<Rightarrow> m3)"
    if "stays (keeps_complete S) m1" "stays (keeps_complete S) m2" "stays (keeps_complete S) m3"
    for st and m1 m2 m3 :: "('s receiving, unit) act"
    using that by (cases st) simp_all
  show ?thesis
    unfolding fetch_blob_def import_content_def
    by (intro keeps_complete.stays_rules st query_complete on_progress_complete leaf_progress_complete
        import_items_complete)
qed

end

section \<open>What a successful fetch means\<close>

text \<open>The size the sender announces for a blob it lets us read.\<close>

definition announced_size :: "'s transfer \<Rightarrow> blob_hash \<Rightarrow> u64 option" where
  "announced_size T h = (case tr_request T h Read of Inl _ \<Rightarrow> None
     | Inr recv \<Rightarrow> (case read_header T recv of
         (Inr StatusAllowed, recv) \<Rightarrow> (case read_exact BAO_SIZE_HEADER recv of
             (Inr size_buf, _) \<Rightarrow> Some (le_word size_buf) | _ \<Rightarrow> None)
       | _ \<Rightarrow> None))"

lemma on_disk_Inr: "on_disk m s = (Inr a, s') \<longleftrightarrow> (\<exists>d. m (rs_disk s) = (Inr a, d) \<and> s' = s\<lparr>rs_disk := d\<rparr>)"
  by (auto simp: on_disk_def split: prod.splits)

lemma fetch_blob_skip: "is_complete S (rs_disk s) h \<Longrightarrow> fetch_blob S T h b s = (Inr (), s)"
  by (simp add: fetch_blob_def act_simps)

lemma fetch_blob_denied:
  assumes "\<not> is_complete S (rs_disk s) h" "tr_request T h Read = Inr (b # rest)" "tr_status T b = Inr StatusDenied"
  shows "fetch_blob S T h pr s = (Inl (anyhow_msg access_denied), s)"
  using assms by (simp add: fetch_blob_def act_simps read_header_def bindA_ctxA read_exact_def)

context transfer_laws
begin

lemma import_content_ok:
  assumes "import_content T h b recv s = (Inr (), s')"
  shows "\<exists>size_buf r. read_exact BAO_SIZE_HEADER recv = (Inr size_buf, r)
    \<and> ((le_word size_buf :: u64) = 0 \<or> is_complete S (rs_disk s') h)"
proof -
  obtain x r where x: "read_exact BAO_SIZE_HEADER recv = (x, r)" by (cases "read_exact BAO_SIZE_HEADER recv")
  show ?thesis
  proof (cases x)
    case (Inl e)
    with assms x show ?thesis by (simp add: import_content_def ctxA_def act_simps)
  next
    case (Inr size_buf)
    let ?n = "le_word size_buf :: u64"
    show ?thesis
    proof (cases "?n = 0")
      case True
      with x Inr show ?thesis by blast
    next
      case False
      from assms x Inr False obtain t items drive_res where
        imp: "on_disk (import_items T h ?n items drive_res) t = (Inr (), s')"
        by (auto simp: import_content_def act_Inr ctxA_def Let_def case_prod_beta)
      then obtain d where "tr_import T (rs_disk t) h ?n items = (Inr (), d)" "s' = t\<lparr>rs_disk := d\<rparr>"
        by (auto simp: on_disk_Inr import_items_def bindR_Inr split: prod.splits)
      with import_completes x Inr show ?thesis by auto
    qed
  qed
qed

lemma fetch_blob_ok:
  assumes "fetch_blob S T h b s = (Inr (), s')"
  shows "is_complete S (rs_disk s') h \<or> announced_size T h = Some 0"
proof (cases "is_complete S (rs_disk s) h")
  case True
  with assms show ?thesis by (simp add: fetch_blob_skip)
next
  case False
  obtain recv where recv: "tr_request T h Read = Inr recv"
    using assms False by (cases "tr_request T h Read") (simp_all add: fetch_blob_def act_simps)
  obtain header r1 where hd: "read_header T recv = (header, r1)" by (cases "read_header T recv")
  have body: "bindA (liftA header) (\<lambda>status. case status of
         StatusDenied \<Rightarrow> fail (anyhow_msg access_denied)
       | StatusOther \<Rightarrow> fail (anyhow_msg ''unexpected status byte from sender'')
       | StatusAllowed \<Rightarrow> import_content T h b r1) s = (Inr (), s')"
    using assms False recv hd by (simp add: fetch_blob_def act_simps)
  then have header: "header = Inr StatusAllowed"
    by (cases header) (auto simp: act_simps split: status.splits)
  with body have "import_content T h b r1 s = (Inr (), s')" by (simp add: act_simps)
  from import_content_ok[OF this] obtain size_buf r2 where
    "read_exact BAO_SIZE_HEADER r1 = (Inr size_buf, r2)"
    "(le_word size_buf :: u64) = 0 \<or> is_complete S (rs_disk s') h" by blast
  then show ?thesis by (auto simp: announced_size_def recv hd header)
qed

lemma fetch_members_ok:
  assumes "fetch_members S T idx tot col s = (Inr (), s')"
  shows "(\<forall>(n, h) \<in> set col. is_complete S (rs_disk s') h \<or> announced_size T h = Some 0)
    \<and> (\<exists>es. rs_progress s' = rs_progress s @ es
        \<and> filter is_file_start es = map (\<lambda>(i, n, _). FileStart (i + 1) tot n) (List.enumerate idx col))
    \<and> keeps_complete S s s'"
  using assms
proof (induction col arbitrary: idx s)
  case Nil
  then show ?case by (simp add: act_apply keeps_complete.rel_refl)
next
  case (Cons member col)
  obtain name h where member: "member = (name, h)" by (cases member)
  let ?s1 = "s\<lparr>rs_progress := rs_progress s @ [FileStart (idx + 1) tot name]\<rparr>"
  from Cons.prems member obtain s2 where f: "fetch_blob S T h True ?s1 = (Inr (), s2)"
    and rest: "fetch_members S T (idx + 1) tot col s2 = (Inr (), s')"
    by (auto simp: act_Inr on_progress_def)
  note ih = Cons.IH[OF rest]
  have kc: "keeps_complete S ?s1 s2"
    using keeps_complete.stays_state[OF fetch_blob_complete f] .
  then have kc': "keeps_complete S s s2" by (simp add: keeps_complete_def)
  have ab: "adds_bytes ?s1 s2" using adds_bytes.stays_state[OF fetch_blob_bytes f] .
  from ab obtain bs where bs: "rs_progress s2 = rs_progress s @ FileStart (idx + 1) tot name # bs"
    "\<forall>e \<in> set bs. \<not> is_file_start e" by (auto simp: adds_bytes_def)
  from ih obtain es where es: "rs_progress s' = rs_progress s2 @ es"
    "filter is_file_start es = map (\<lambda>(i, n, _). FileStart (i + 1) tot n) (List.enumerate (idx + 1) col)" by blast
  have "filter is_file_start bs = []" using bs(2) by (simp add: filter_empty_conv)
  then have prog: "\<exists>es. rs_progress s' = rs_progress s @ es
      \<and> filter is_file_start es = map (\<lambda>(i, n, _). FileStart (i + 1) tot n) (List.enumerate idx (member # col))"
    by (intro exI[of _ "FileStart (idx + 1) tot name # bs @ es"]) (simp add: bs(1) es member)
  have "is_complete S (rs_disk s') h \<or> announced_size T h = Some 0"
    using fetch_blob_ok[OF f] ih by (auto simp: keeps_complete_def)
  with ih kc' prog member show ?case
    using keeps_complete.rel_trans[OF kc'] by auto
qed

lemma fetch_collection_ok:
  assumes "fetch_collection S T h s = (Inr (), s')"
  shows "\<exists>d col. fs_load_collection S d h = Inr col
    \<and> (\<forall>(n, g) \<in> set col. is_complete S (rs_disk s') g \<or> announced_size T g = Some 0)
    \<and> filter is_file_start (rs_progress s') = filter is_file_start (rs_progress s)
        @ map (\<lambda>(i, n, _). FileStart (i + 1) (length col) n) (List.enumerate 0 col)"
proof -
  from assms obtain hs t col where
    meta: "(case hs of meta_hash # _ \<Rightarrow> fetch_blob S T meta_hash False | [] \<Rightarrow> ret ()) s = (Inr (), t)"
    and col: "fs_load_collection S (rs_disk t) h = Inr col"
    and members: "fetch_members S T 0 (length col) col t = (Inr (), s')"
    by (auto simp: fetch_collection_def act_Inr on_disk_Inr)
  have "stays adds_bytes (case hs of meta_hash # _ \<Rightarrow> fetch_blob S T meta_hash False | [] \<Rightarrow> ret ())"
    by (cases hs) (simp_all add: fetch_blob_bytes adds_bytes.stays_pure)
  from adds_bytes.stays_state[OF this meta] have "filter is_file_start (rs_progress t) = filter is_file_start (rs_progress s)"
    by (auto simp: adds_bytes_def filter_empty_conv)
  with fetch_members_ok[OF members] col show ?thesis
    by (intro exI[of _ "rs_disk t"] exI[of _ col]) auto
qed

end

section \<open>A reference transfer\<close>

text \<open>The sender denies blob 2 and serves every other blob as one leaf of five bytes.\<close>

definition mem_transfer :: "mem_disk transfer" where
  "mem_transfer = \<lparr>
     tr_request = (\<lambda>h p. Inr (if h = Hash 2 then [0] else 1 # le_bytes 8 (5 :: u64))),
     tr_status = (\<lambda>b. if b = 0 then Inr StatusDenied else if b = 1 then Inr StatusAllowed else Inl ''bad status''),
     tr_start_import = (\<lambda>d h n. Inr ()),
     tr_decode = (\<lambda>h n bs. ([Parent, Leaf 0 5], None)),
     tr_refuses = (\<lambda>d h n items. None),
     tr_import = (\<lambda>d h n items. (Inr (), d\<lparr>md_blobs := AList.update h n (md_blobs d)\<rparr>)),
     tr_hash_seq = (\<lambda>bs. Inr []) \<rparr>"

lemma mem_is_complete: "is_complete mem_store d h \<longleftrightarrow> map_of (md_blobs d) h \<noteq> None"
  by (simp add: is_complete_def complete_size_def mem_store_def split: option.split)

interpretation mem_transfer: transfer_laws mem_store mem_transfer
  by unfold_locales (auto simp: mem_is_complete mem_transfer_def update_conv')

definition sample_receiving :: "mem_disk receiving" where
  "sample_receiving = \<lparr>rs_disk = \<lparr>md_tags = [], md_blobs = [(Hash 4, 32)],
      md_cols = [(Hash 4, [(''/etc/x'', Hash 5), (''sub/y'', Hash 6)])], md_files = [(''/d'', None)]\<rparr>,
     rs_progress = []\<rparr>"

section \<open>Properties\<close>

text \<open>
  C12: When the fetch phase of a collection succeeds, every member is complete in the
  local store, except blobs the sender announced as empty, and the receiver was told
  of each member once, in order, as file \<open>i\<close> of \<open>n\<close>.
\<close>
theorem collection_fetch_complete:
  assumes "transfer_laws S T" "fetch_collection S T h s = (Inr (), s')"
  shows "\<exists>d col. fs_load_collection S d h = Inr col
    \<and> (\<forall>(n, g) \<in> set col. is_complete S (rs_disk s') g \<or> announced_size T g = Some 0)
    \<and> filter is_file_start (rs_progress s') = filter is_file_start (rs_progress s)
        @ map (\<lambda>(i, n, _). FileStart (i + 1) (length col) n) (List.enumerate 0 col)"
  using transfer_laws.fetch_collection_ok[OF assms] .

lemma fetch_collection_sample:
  "\<exists>s'. fetch_collection mem_store mem_transfer (Hash 4) sample_receiving = (Inr (), s')"
  by (simp add: fetch_collection_def sample_receiving_def act_simps on_disk_def mem_store_def mem_transfer_def
      on_progress_def fetch_blob_def is_complete_def complete_size_def read_header_def import_content_def
      bindA_ctxA read_exact_def BAO_SIZE_HEADER_def le_word_le_bytes Let_def ctxA_def import_items_def drive_items_def bindA_def
      thenA_def queryA_def getA_def liftA_def ret_def modA_def)

lemma collection_fetch_complete_witness:
  "\<exists>s'. fetch_collection mem_store mem_transfer (Hash 4) sample_receiving = (Inr (), s')
     \<and> (\<exists>d col. fs_load_collection mem_store d (Hash 4) = Inr col
     \<and> (\<forall>(n, g) \<in> set col. is_complete mem_store (rs_disk s') g \<or> announced_size mem_transfer g = Some 0))"
  using fetch_collection_sample collection_fetch_complete[OF mem_transfer.transfer_laws_axioms] by blast

text \<open>
  A file that is already complete is exported without contacting anybody: the
  outcome does not depend on the network.
\<close>
theorem download_fast_path:
  assumes "st_format t = Raw" "is_complete S (rs_disk s) (st_hash t)"
  shows "download_impl S Os I connect1 t dest s = download_impl S Os I connect2 t dest s"
  using assms by (simp add: download_impl_def act_simps Let_def)

lemma download_fast_path_witness:
  "download_impl mem_store mem_os hex_iroh (\<lambda>_. Inl ''offline'')
     (ticket_new (addr_new (EndpointId 7)) (Hash 4) None) ''/d'' sample_receiving
   = download_impl mem_store mem_os hex_iroh (\<lambda>_. Inr mem_transfer)
     (ticket_new (addr_new (EndpointId 7)) (Hash 4) None) ''/d'' sample_receiving"
  by (rule download_fast_path)
    (simp_all add: ticket_new_def mem_is_complete sample_receiving_def)

text \<open>
  A file the sender refuses to serve is not written anywhere: the download fails with
  the access message and leaves store, file system and progress untouched.
\<close>
theorem download_denied:
  assumes "st_format t = Raw" "\<not> is_complete S (rs_disk s) (st_hash t)"
    and "fs_batch S (rs_disk s) = Inr ()" "fs_temp_tag S (rs_disk s) (st_hash t) Raw = Inr ()"
    and "connect (st_addr t) = Inr T" "tr_request T (st_hash t) Read = Inr (b # rest)"
    and "tr_status T b = Inr StatusDenied"
  shows "download_impl S Os I connect t dest s = (Inl (anyhow_msg access_denied), s)"
  using assms by (simp add: download_impl_def receiver_download_def act_simps Let_def on_disk_def
      fetch_blob_denied thenA_def bindA_def)

lemma download_denied_witness:
  "download_impl mem_store mem_os hex_iroh (\<lambda>_. Inr mem_transfer)
     (ticket_new (addr_new (EndpointId 7)) (Hash 2) None) ''/d'' sample_receiving
   = (Inl (anyhow_msg access_denied), sample_receiving)"
  by (rule download_denied[where T = mem_transfer and b = 0 and rest = "[]"])
    (simp_all add: ticket_new_def mem_is_complete sample_receiving_def mem_transfer_def)



end
