(* ===== verification/Handlers.thy ===== *)
theory Handlers
  imports Protocol Catalog Peers Receiver
begin

text \<open>
  \<open>src/src/daemon/server/handlers/mod.rs\<close> and the state all handlers share: the node's
  parts and the events sent so far.  A handler is a stateful action; what it changed and
  sent before it failed stays.  The predicates \<open>talks\<close> and \<open>replies\<close> express the event
  discipline of an action, with one composition rule per construct of the handlers.
\<close>

section \<open>State and environment\<close>

record ('r, 'g, 'p, 's) session =
  nd_registry :: 'r
  nd_grants :: 'g
  nd_peers :: 'p
  nd_disk :: 's
  sn_out :: "event list"

text \<open>What the handlers use of the outside: the crates, the clock, the network
  (a catalog connection and a blob transfer) and the QR code renderer.\<close>

record ('r, 'g, 'gt, 'p, 'pt, 's) env =
  en_registry :: "'r registry"
  en_grants :: "('g, 'gt) grant_db"
  en_peers :: "('p, 'pt) peer_db"
  en_iroh :: iroh
  en_codec :: ticket_codec
  en_store :: "'s fs_store"
  en_os :: "'s os"
  en_addr :: endpoint_addr
  en_now :: system_time
  en_dial :: dial
  en_connect :: "endpoint_addr \<Rightarrow> string + 's transfer"
  en_qr :: "string \<Rightarrow> string + string list"

definition registryQ :: "('r \<Rightarrow> string + 'a) \<Rightarrow> (('r, 'g, 'p, 's) session, 'a) act" where
  "registryQ f = queryA (\<lambda>s. lift_err (f (nd_registry s)))"

definition registryU :: "('r \<Rightarrow> string + 'r) \<Rightarrow> (('r, 'g, 'p, 's) session, unit) act" where
  "registryU f = updA (\<lambda>s. bindR (lift_err (f (nd_registry s))) (\<lambda>r. Inr (s\<lparr>nd_registry := r\<rparr>)))"

definition grantsQ :: "('g \<Rightarrow> 'a result) \<Rightarrow> (('r, 'g, 'p, 's) session, 'a) act" where
  "grantsQ f = queryA (\<lambda>s. f (nd_grants s))"

definition grantsU :: "('g \<Rightarrow> 'g result) \<Rightarrow> (('r, 'g, 'p, 's) session, unit) act" where
  "grantsU f = updA (\<lambda>s. bindR (f (nd_grants s)) (\<lambda>g. Inr (s\<lparr>nd_grants := g\<rparr>)))"

definition peersQ :: "('p \<Rightarrow> 'a result) \<Rightarrow> (('r, 'g, 'p, 's) session, 'a) act" where
  "peersQ f = queryA (\<lambda>s. f (nd_peers s))"

definition peersU :: "('p \<Rightarrow> 'p result) \<Rightarrow> (('r, 'g, 'p, 's) session, unit) act" where
  "peersU f = updA (\<lambda>s. bindR (f (nd_peers s)) (\<lambda>p. Inr (s\<lparr>nd_peers := p\<rparr>)))"

definition diskA :: "('s, 'a) act \<Rightarrow> (('r, 'g, 'p, 's) session, 'a) act" where
  "diskA m s = (case m (nd_disk s) of (r, d) \<Rightarrow> (r, s\<lparr>nd_disk := d\<rparr>))"

definition send :: "event \<Rightarrow> (('r, 'g, 'p, 's) session, unit) act" where
  "send e = modA (\<lambda>s. s\<lparr>sn_out := sn_out s @ [e]\<rparr>)"

definition send_lines :: "uuid \<Rightarrow> string list \<Rightarrow> (('r, 'g, 'p, 's) session, unit) act" where
  "send_lines req_id lines = forA lines (\<lambda>l. send (event_line req_id l))"

definition format_ring :: "ring \<Rightarrow> string" where
  "format_ring ring = (if ring_is_open ring
     then ''  '' @ ring @ '' (open '' @ em_dash @ '' publicly accessible)'' else ''  '' @ ring)"

definition resolve_target ::
    "('r, 'g, 'gt, 'p, 'pt, 's) env \<Rightarrow> string \<Rightarrow> (('r, 'g, 'p, 's) session, blob_hash) act" where
  "resolve_target E target =
     bindA (getA (\<lambda>s. os_exists (en_os E) (nd_disk s) target)) (\<lambda>found.
     if found then
       bindA (diskA (import_path (en_store E) (en_os E) (en_iroh E) target)) (\<lambda>(hash, _). ret hash)
     else liftA (parse_hash (en_iroh E) target))"

lemma send_run [act_simps]: "send e s = (Inr (), s\<lparr>sn_out := sn_out s @ [e]\<rparr>)"
  by (simp add: send_def act_simps)

lemma send_Inr: "send e s = (Inr u, s') \<longleftrightarrow> s' = s\<lparr>sn_out := sn_out s @ [e]\<rparr>"
  by (auto simp: send_run)

lemma forA_send [act_simps]: "forA xs (\<lambda>x. send (f x)) s = (Inr (), s\<lparr>sn_out := sn_out s @ map f xs\<rparr>)"
  by (induction xs arbitrary: s) (simp_all add: act_simps)

lemma send_lines_run [act_simps]:
  "send_lines q ls s = (Inr (), s\<lparr>sn_out := sn_out s @ map (event_line q) ls\<rparr>)"
  by (simp add: send_lines_def forA_send)

lemma registryU_run [act_simps]:
  "f (nd_registry s) = Inr r \<Longrightarrow> registryU f s = (Inr (), s\<lparr>nd_registry := r\<rparr>)"
  "f (nd_registry s) = Inl e \<Longrightarrow> registryU f s = (Inl (anyhow_msg e), s)"
  by (simp_all add: registryU_def act_simps)

lemma registryQ_run [act_simps]: "registryQ f s = (lift_err (f (nd_registry s)), s)"
  by (simp add: registryQ_def queryA_def)

lemma diskA_run [act_simps]: "m (nd_disk s) = (r, d) \<Longrightarrow> diskA m s = (r, s\<lparr>nd_disk := d\<rparr>)"
  by (simp add: diskA_def)

lemma diskA_Inr: "diskA m s = (Inr a, s') \<longleftrightarrow> (\<exists>d. m (nd_disk s) = (Inr a, d) \<and> s' = s\<lparr>nd_disk := d\<rparr>)"
  by (auto simp: diskA_def split: prod.splits)

section \<open>The event discipline of an action\<close>

text \<open>An action \<open>talks\<close> when it only adds body events; it \<open>replies\<close> when it adds body events
  and, exactly if it succeeds, one \<open>Done\<close> at the end.\<close>

definition talks :: "uuid \<Rightarrow> (('r, 'g, 'p, 's) session, 'a) act \<Rightarrow> bool" where
  "talks q m \<longleftrightarrow> (\<forall>s. \<exists>es. sn_out (snd (m s)) = sn_out s @ es \<and> body_events q es)"

definition replies :: "uuid \<Rightarrow> (('r, 'g, 'p, 's) session, 'a) act \<Rightarrow> bool" where
  "replies q m \<longleftrightarrow> (\<forall>s. \<exists>es. body_events q es \<and>
     sn_out (snd (m s)) = sn_out s @ es @ (if is_ok (fst (m s)) then [event_done q] else []))"

lemma talks_quiet: "(\<And>s. sn_out (snd (m s)) = sn_out s) \<Longrightarrow> talks q m"
  by (simp add: talks_def exI[of _ "[]"])

lemma talks_basic [spec_intros]:
  "talks q (ret a)" "talks q (fail e)" "talks q (liftA r)" "talks q (getA f)" "talks q (queryA h)"
  by (simp_all add: talks_quiet act_simps)

lemma talks_parts [spec_intros]:
  "talks q (registryQ f1)" "talks q (registryU f2)" "talks q (grantsQ f3)" "talks q (grantsU f4)"
  "talks q (peersQ f5)" "talks q (peersU f6)" "talks q (diskA m)"
  by (simp_all add: talks_quiet registryQ_def registryU_def grantsQ_def grantsU_def peersQ_def
      peersU_def diskA_def queryA_def updA_def bindR_def split: sum.splits prod.splits)

lemma talks_send [spec_intros]: "ev_req_id e = q \<Longrightarrow> \<not> is_eos e \<Longrightarrow> talks q (send e)"
  by (simp add: talks_def send_def act_simps)

lemma talks_bind [spec_intros]:
  assumes "talks q m" "\<And>a. talks q (f a)"
  shows "talks q (bindA m f)"
  unfolding talks_def
proof
  fix s
  obtain r s' where m: "m s = (r, s')" by (cases "m s")
  with assms(1) obtain es where es: "sn_out s' = sn_out s @ es" "body_events q es"
    by (auto simp: talks_def dest: spec[of _ s])
  show "\<exists>es. sn_out (snd (bindA m f s)) = sn_out s @ es \<and> body_events q es"
  proof (cases r)
    case (Inl e)
    with m es show ?thesis by (simp add: bindA_def)
  next
    case (Inr a)
    from assms(2)[of a] obtain fs where "sn_out (snd (f a s')) = sn_out s' @ fs" "body_events q fs"
      by (auto simp: talks_def dest: spec[of _ s'])
    with m es Inr show ?thesis by (intro exI[of _ "es @ fs"]) (simp add: bindA_def)
  qed
qed

lemma talks_then [spec_intros]: "talks q m \<Longrightarrow> talks q n \<Longrightarrow> talks q (thenA m n)"
  unfolding thenA_def by (rule talks_bind)

lemma talks_for [spec_intros]: "(\<And>x. talks q (f x)) \<Longrightarrow> talks q (forA xs f)"
  by (induction xs) (auto intro: spec_intros)

lemma talks_split [spec_intros]:
  "(b \<Longrightarrow> talks q m) \<Longrightarrow> (\<not> b \<Longrightarrow> talks q n) \<Longrightarrow> talks q (if b then m else n)"
  "talks q n0 \<Longrightarrow> (\<And>a. talks q (f a)) \<Longrightarrow> talks q (case v of None \<Rightarrow> n0 | Some a \<Rightarrow> f a)"
  "(\<And>a b. talks q (g a b)) \<Longrightarrow> talks q (case pr of (a, b) \<Rightarrow> g a b)"
  by (auto split: option.split prod.split)

lemma talks_let [spec_intros]: "(\<And>x. talks q (f x)) \<Longrightarrow> talks q (let x = t in f x)"
  by simp

lemma talks_send_lines [spec_intros]: "talks q (send_lines q ls)"
  unfolding send_lines_def by (intro spec_intros) simp_all

lemma replies_done [spec_intros]: "replies q (send (event_done q))"
  by (simp add: replies_def send_def act_simps exI[of _ "[]"])

lemma replies_bind [spec_intros]:
  assumes "talks q m" "\<And>a. replies q (f a)"
  shows "replies q (bindA m f)"
  unfolding replies_def
proof
  fix s
  obtain r s' where m: "m s = (r, s')" by (cases "m s")
  with assms(1) obtain es where es: "sn_out s' = sn_out s @ es" "body_events q es"
    by (auto simp: talks_def dest: spec[of _ s])
  show "\<exists>es. body_events q es \<and> sn_out (snd (bindA m f s))
      = sn_out s @ es @ (if is_ok (fst (bindA m f s)) then [event_done q] else [])"
  proof (cases r)
    case (Inl e)
    with m es show ?thesis by (simp add: bindA_def)
  next
    case (Inr a)
    from assms(2)[of a] obtain fs where "body_events q fs"
      "sn_out (snd (f a s')) = sn_out s' @ fs @ (if is_ok (fst (f a s')) then [event_done q] else [])"
      by (auto simp: replies_def dest: spec[of _ s'])
    with m es Inr show ?thesis by (intro exI[of _ "es @ fs"]) (simp add: bindA_def)
  qed
qed

lemma replies_then [spec_intros]: "talks q m \<Longrightarrow> replies q n \<Longrightarrow> replies q (thenA m n)"
  unfolding thenA_def by (rule replies_bind)

lemma replies_fail [spec_intros]: "replies q (fail e)"
  by (simp add: replies_def act_simps)

lemma replies_split [spec_intros]:
  "(b \<Longrightarrow> replies q m) \<Longrightarrow> (\<not> b \<Longrightarrow> replies q n) \<Longrightarrow> replies q (if b then m else n)"
  "replies q n0 \<Longrightarrow> (\<And>a. replies q (f a)) \<Longrightarrow> replies q (case v of None \<Rightarrow> n0 | Some a \<Rightarrow> f a)"
  "(\<And>a b. replies q (g a b)) \<Longrightarrow> replies q (case pr of (a, b) \<Rightarrow> g a b)"
  by (auto split: option.split prod.split)

lemma replies_let [spec_intros]: "(\<And>x. replies q (f x)) \<Longrightarrow> replies q (let x = t in f x)"
  by simp

lemma talks_resolve_target [spec_intros]: "talks q (resolve_target E target)"
  unfolding resolve_target_def by (intro spec_intros)

end
