(* ===== verification/RingHandlers.thy ===== *)
theory RingHandlers
  imports Handlers
begin

text \<open>
  \<open>src/src/daemon/server/handlers/ring.rs\<close>, \<open>peer.rs\<close> and \<open>grant.rs\<close>: rings, the address
  book and the catalog grants.  The lines an operation prints are part of its result.
\<close>

section \<open>Rings\<close>

definition ring_new_lines ::
    "('r, 'g, 'gt, 'p, 'pt, 's) env \<Rightarrow> string \<Rightarrow> (('r, 'g, 'p, 's) session, string list) act" where
  "ring_new_lines E name =
     thenA (registryU (\<lambda>r. rg_create_ring (en_registry E) r name))
       (ret [''Ring created: '' @ name, ''Add peers: rdrop ring add '' @ name @ '' <peer-id>''])"

fun ring_rows ::
    "('r, 'g, 'gt, 'p, 'pt, 's) env \<Rightarrow> ring list \<Rightarrow> string list \<Rightarrow> (('r, 'g, 'p, 's) session, string list) act" where
  "ring_rows E [] acc = ret acc"
| "ring_rows E (r # rs) acc =
     (if ring_is_open r then
        ring_rows E rs (acc @ [''  '' @ r @ ''  '' @ em_dash @ '' publicly accessible (no membership required)''])
      else bindA (registryQ (\<lambda>g. rg_list_ring_peers (en_registry E) g r)) (\<lambda>members.
        ring_rows E rs (acc @ [''  '' @ r @ ''  ('' @ show_nat (length members) @ '' members)''])))"

definition ring_list_lines ::
    "('r, 'g, 'gt, 'p, 'pt, 's) env \<Rightarrow> (('r, 'g, 'p, 's) session, string list) act" where
  "ring_list_lines E =
     bindA (registryQ (rg_list_rings (en_registry E))) (\<lambda>rings.
       ring_rows E rings [show_nat (length rings) @ '' rings:''])"

record expiry =
  ex_at :: system_time
  ex_remaining :: duration

definition future_expiry :: "system_time \<Rightarrow> u64 \<Rightarrow> expiry result" where
  "future_expiry now unix_secs =
     bindR (opt_ctx (''expiry timestamp '' @ show_nat (unat unix_secs) @ '' is out of range'')
       (time_checked_add UNIX_EPOCH (from_secs (unat unix_secs)))) (\<lambda>at.
     bindR (opt_ctx ''expiry must be in the future''
       (case duration_since at now of None \<Rightarrow> None
        | Some d \<Rightarrow> if d_secs d = 0 \<and> d_nanos d = 0 then None else Some d)) (\<lambda>remaining.
     Inr \<lparr>ex_at = at, ex_remaining = remaining\<rparr>))"

definition ring_add_lines ::
    "('r, 'g, 'gt, 'p, 'pt, 's) env \<Rightarrow> endpoint_id \<Rightarrow> ring \<Rightarrow> string \<Rightarrow> u64 option
     \<Rightarrow> (('r, 'g, 'p, 's) session, string list) act" where
  "ring_add_lines E public_id ring peer expires_at =
     (if ring = OPEN_RING_NAME then
        ret [''The open ring has no membership list '' @ em_dash @ '' everyone is welcome by default.'']
      else
        bindA (liftA (parse_peer_id (en_iroh E) peer)) (\<lambda>peer_id.
        if peer_id = public_id then fail (anyhow_msg ''cannot add yourself to a ring'')
        else
          bindA (liftA (transpose_map (future_expiry (en_now E)) expires_at)) (\<lambda>expiry.
          thenA (registryU (\<lambda>r. rg_add_peer_to_ring (en_registry E) r ring peer_id None (map_option ex_at expiry)))
         (thenA (peersU (peers_ensure (en_peers E) peer_id))
           (ret [case expiry of
              Some e \<Rightarrow> ''Added '' @ ir_show_id (en_iroh E) peer_id @ '' to ring '' @ ring
                @ '' (expires in '' @ format_remaining (ex_remaining e) @ '')''
            | None \<Rightarrow> ''Added '' @ ir_show_id (en_iroh E) peer_id @ '' to ring '' @ ring])))))"

definition ring_remove_lines ::
    "('r, 'g, 'gt, 'p, 'pt, 's) env \<Rightarrow> ring \<Rightarrow> string \<Rightarrow> (('r, 'g, 'p, 's) session, string list) act" where
  "ring_remove_lines E ring peer =
     (if ring = OPEN_RING_NAME then ret [''The open ring has no membership list to remove from.'']
      else
        bindA (liftA (parse_peer_id (en_iroh E) peer)) (\<lambda>peer_id.
        thenA (registryU (\<lambda>r. rg_remove_peer_from_ring (en_registry E) r ring peer_id))
          (ret [''Removed '' @ ir_show_id (en_iroh E) peer_id @ '' from ring '' @ ring])))"

definition member_line ::
    "('r, 'g, 'gt, 'p, 'pt, 's) env \<Rightarrow> 'p \<Rightarrow> ring_peer \<Rightarrow> string" where
  "member_line E pdb mem =
     (let peer = display_peer (en_peers E) (en_iroh E) (rp_peer mem) pdb in
      case rp_expires_at mem of
        Some at \<Rightarrow>
          (let remaining = (case duration_since at (en_now E) of Some d \<Rightarrow> d | None \<Rightarrow> from_secs 0) in
           ''  '' @ peer @ ''  '' @ em_dash @ '' expires in '' @ format_remaining remaining)
      | None \<Rightarrow> ''  '' @ peer)"

definition ring_members_lines ::
    "('r, 'g, 'gt, 'p, 'pt, 's) env \<Rightarrow> ring \<Rightarrow> (('r, 'g, 'p, 's) session, string list) act" where
  "ring_members_lines E ring =
     (if ring = OPEN_RING_NAME then
        ret [''The open ring is public '' @ em_dash @ '' any peer may access blobs tagged with it.'']
      else
        bindA (registryQ (\<lambda>r. rg_list_ring_peers (en_registry E) r ring)) (\<lambda>members.
        if members = [] then
          ret [''Ring '' @ quoted ring @ '' has no members yet.'',
               ''Add peers: rdrop ring add '' @ ring @ '' <peer-id>'',
               ''Peers print their peer-id with: rdrop id'']
        else
          bindA (getA nd_peers) (\<lambda>pdb.
          ret ((''Ring '' @ quoted ring @ '' '' @ em_dash @ '' '' @ show_nat (length members) @ '' members:'')
               # map (member_line E pdb) members))))"

section \<open>Peers\<close>

definition peer_add_lines ::
    "('r, 'g, 'gt, 'p, 'pt, 's) env \<Rightarrow> string \<Rightarrow> string option \<Rightarrow> (('r, 'g, 'p, 's) session, string list) act" where
  "peer_add_lines E peer_str nickname =
     bindA (liftA (parse_peer_id (en_iroh E) peer_str)) (\<lambda>peer_id.
     case nickname of
       Some nick \<Rightarrow> thenA (peersU (peers_upsert (en_peers E) peer_id (Some nick)))
         (ret [''Peer '' @ ir_show_id (en_iroh E) peer_id @ '' added ('' @ nick @ '')''])
     | None \<Rightarrow> thenA (peersU (peers_ensure (en_peers E) peer_id))
         (ret [''Peer '' @ ir_show_id (en_iroh E) peer_id @ '' added'']))"

definition peer_list_lines ::
    "('r, 'g, 'gt, 'p, 'pt, 's) env \<Rightarrow> (('r, 'g, 'p, 's) session, string list) act" where
  "peer_list_lines E =
     bindA (peersQ (peers_list (en_peers E) (en_iroh E))) (\<lambda>peers.
     if peers = [] then
       ret [''No peers yet.'', ''Add peers with: rdrop peer add <peer-id> [--nickname <name>]'']
     else
       ret ((show_nat (length peers) @ '' peers:'')
         # map (\<lambda>(peer, nick). ''  '' @ format_peer_entry (en_iroh E) peer nick) peers))"

text \<open>The loop over the rings collects the names of those the peer was in.\<close>

fun remove_from_rings ::
    "('r, 'g, 'gt, 'p, 'pt, 's) env \<Rightarrow> endpoint_id \<Rightarrow> ring list \<Rightarrow> string list
     \<Rightarrow> (('r, 'g, 'p, 's) session, string list) act" where
  "remove_from_rings E peer_id [] acc = ret acc"
| "remove_from_rings E peer_id (ring # rings) acc =
     (if ring_is_open ring then remove_from_rings E peer_id rings acc
      else
        bindA (registryQ (\<lambda>r. rg_list_ring_peers (en_registry E) r ring)) (\<lambda>members.
        if list_ex (\<lambda>m. rp_peer m = peer_id) members then
          thenA (registryU (\<lambda>r. rg_remove_peer_from_ring (en_registry E) r ring peer_id))
            (remove_from_rings E peer_id rings (acc @ [ring]))
        else remove_from_rings E peer_id rings acc))"

fun revoke_all ::
    "('r, 'g, 'gt, 'p, 'pt, 's) env \<Rightarrow> endpoint_id \<Rightarrow> privilege list \<Rightarrow> string list
     \<Rightarrow> (('r, 'g, 'p, 's) session, string list) act" where
  "revoke_all E peer_id [] acc = ret acc"
| "revoke_all E peer_id (pr # prs) acc =
     bindA (grantsQ (grants_has_grant (en_grants E) pr peer_id)) (\<lambda>has.
     if has then
       thenA (grantsU (grants_revoke (en_grants E) pr peer_id))
         (revoke_all E peer_id prs (acc @ [privilege_as_str pr]))
     else revoke_all E peer_id prs acc)"

definition peer_remove_lines ::
    "('r, 'g, 'gt, 'p, 'pt, 's) env \<Rightarrow> string \<Rightarrow> (('r, 'g, 'p, 's) session, string list) act" where
  "peer_remove_lines E peer_str =
     bindA (liftA (parse_peer_id (en_iroh E) peer_str)) (\<lambda>peer_id.
     bindA (peersQ (peers_get (en_peers E) peer_id)) (\<lambda>known.
     if known = None then fail (anyhow_msg (''peer not found: '' @ ir_show_id (en_iroh E) peer_id))
     else
       bindA (registryQ (rg_list_rings (en_registry E))) (\<lambda>rings.
       bindA (remove_from_rings E peer_id rings []) (\<lambda>removed_from.
       bindA (revoke_all E peer_id [BlobList] []) (\<lambda>revoked.
       thenA (peersU (peers_remove (en_peers E) (en_iroh E) peer_id))
         (ret ([''Removed peer '' @ ir_show_id (en_iroh E) peer_id]
            @ (if removed_from \<noteq> [] then [''  also removed from rings: '' @ join_str '', '' removed_from] else [])
            @ (if revoked \<noteq> [] then [''  also revoked grants: '' @ join_str '', '' revoked] else []))))))))"

section \<open>Grants\<close>

definition grant_lines ::
    "('r, 'g, 'gt, 'p, 'pt, 's) env \<Rightarrow> string \<Rightarrow> string \<Rightarrow> (('r, 'g, 'p, 's) session, string list) act" where
  "grant_lines E peer_str privilege_str =
     bindA (liftA (parse_peer_id (en_iroh E) peer_str)) (\<lambda>peer_id.
     bindA (liftA (privilege_try_from privilege_str)) (\<lambda>pr.
     thenA (grantsU (grants_grant (en_grants E) pr peer_id))
       (ret [''Granted '' @ privilege_str @ '' to '' @ ir_show_id (en_iroh E) peer_id])))"

definition revoke_lines ::
    "('r, 'g, 'gt, 'p, 'pt, 's) env \<Rightarrow> string \<Rightarrow> string \<Rightarrow> (('r, 'g, 'p, 's) session, string list) act" where
  "revoke_lines E peer_str privilege_str =
     bindA (liftA (parse_peer_id (en_iroh E) peer_str)) (\<lambda>peer_id.
     bindA (liftA (privilege_try_from privilege_str)) (\<lambda>pr.
     thenA (grantsU (grants_revoke (en_grants E) pr peer_id))
       (ret [''Revoked '' @ privilege_str @ '' from '' @ ir_show_id (en_iroh E) peer_id])))"

definition matching_grants ::
    "endpoint_id option \<Rightarrow> privilege option \<Rightarrow> (privilege \<times> endpoint_id) list \<Rightarrow> (privilege \<times> endpoint_id) list" where
  "matching_grants peer_id_filter priv_filter gs =
     filter (\<lambda>(pr, peer). (case peer_id_filter of None \<Rightarrow> True | Some f \<Rightarrow> peer = f)
        \<and> (case priv_filter of None \<Rightarrow> True | Some f \<Rightarrow> pr = f)) gs"

definition filtered_grant_lines ::
    "('r, 'g, 'gt, 'p, 'pt, 's) env \<Rightarrow> string option \<Rightarrow> string option \<Rightarrow> (('r, 'g, 'p, 's) session, string list) act" where
  "filtered_grant_lines E peer_filter privilege_filter =
     bindA (liftA (transpose_map (parse_peer_id (en_iroh E)) peer_filter)) (\<lambda>peer_id_filter.
     bindA (liftA (transpose_map privilege_try_from privilege_filter)) (\<lambda>priv_filter.
     bindA (grantsQ (grants_list (en_grants E) (en_iroh E))) (\<lambda>gs.
     let matching = matching_grants peer_id_filter priv_filter gs in
     if matching = [] then ret [''No grants.'']
     else ret ((show_nat (length matching) @ '' grants:'')
       # map (\<lambda>(pr, peer). ''  '' @ privilege_as_str pr @ ''  '' @ ir_show_id (en_iroh E) peer) matching))))"

definition handle_grant ::
    "('r, 'g, 'gt, 'p, 'pt, 's) env \<Rightarrow> uuid \<Rightarrow> string \<Rightarrow> string \<Rightarrow> (('r, 'g, 'p, 's) session, unit) act" where
  "handle_grant E req_id peer privilege =
     bindA (grant_lines E peer privilege) (\<lambda>lines.
     thenA (send_lines req_id lines) (send (event_done req_id)))"

definition handle_revoke ::
    "('r, 'g, 'gt, 'p, 'pt, 's) env \<Rightarrow> uuid \<Rightarrow> string \<Rightarrow> string \<Rightarrow> (('r, 'g, 'p, 's) session, unit) act" where
  "handle_revoke E req_id peer privilege =
     bindA (revoke_lines E peer privilege) (\<lambda>lines.
     thenA (send_lines req_id lines) (send (event_done req_id)))"

definition handle_grants ::
    "('r, 'g, 'gt, 'p, 'pt, 's) env \<Rightarrow> uuid \<Rightarrow> string option \<Rightarrow> string option \<Rightarrow> (('r, 'g, 'p, 's) session, unit) act" where
  "handle_grants E req_id peer privilege =
     bindA (liftA (transpose_map (parse_peer_id (en_iroh E)) peer)) (\<lambda>peer_id_filter.
     bindA (liftA (transpose_map privilege_try_from privilege)) (\<lambda>priv_filter.
     bindA (grantsQ (grants_list (en_grants E) (en_iroh E))) (\<lambda>gs.
     let matching = matching_grants peer_id_filter priv_filter gs in
     bindA (filtered_grant_lines E peer privilege) (\<lambda>lines.
     thenA (send_lines req_id lines)
    (thenA (forA matching (\<lambda>(pr, peer_id). send (event_record req_id (JObj
       [(''privilege'', JStr (privilege_as_str pr)), (''peer_id'', JStr (ir_show_id (en_iroh E) peer_id))]))))
       (send (event_done req_id)))))))"

section \<open>The event discipline\<close>

lemma talks_ring_rows [spec_intros]: "talks q (ring_rows E rs acc)"
  by (induction rs arbitrary: acc) (auto intro!: spec_intros)

lemma talks_remove_from_rings [spec_intros]: "talks q (remove_from_rings E p rs acc)"
  by (induction rs arbitrary: acc) (auto intro!: spec_intros)

lemma talks_revoke_all [spec_intros]: "talks q (revoke_all E p prs acc)"
  by (induction prs arbitrary: acc) (auto intro!: spec_intros)

lemma talks_lines [spec_intros]:
  "talks q (ring_new_lines E name)" "talks q (ring_list_lines E)"
  "talks q (ring_add_lines E me ring peer expires_at)" "talks q (ring_remove_lines E ring peer)"
  "talks q (ring_members_lines E ring)" "talks q (peer_add_lines E peer nickname)"
  "talks q (peer_list_lines E)" "talks q (peer_remove_lines E peer)"
  "talks q (grant_lines E peer privilege)" "talks q (revoke_lines E peer privilege)"
  "talks q (filtered_grant_lines E peer_f privilege_f)"
  unfolding ring_new_lines_def ring_list_lines_def ring_add_lines_def ring_remove_lines_def
    ring_members_lines_def peer_add_lines_def peer_list_lines_def peer_remove_lines_def
    grant_lines_def revoke_lines_def filtered_grant_lines_def
  by (intro spec_intros)+

lemma replies_grants [spec_intros]:
  "replies q (handle_grant E q peer privilege)" "replies q (handle_revoke E q peer privilege)"
  "replies q (handle_grants E q peer_f privilege_f)"
  unfolding handle_grant_def handle_revoke_def handle_grants_def
  by (intro spec_intros; simp)+

end
