(* ===== verification/Membership.thy ===== *)
theory Membership
  imports RingHandlers
begin

text \<open>
  What the ring, peer and grant handlers do to the registry, the grants and the address
  book, under the contracts of the three (the locale \<open>node_laws\<close>): expiries lie in the
  future, adding a member registers the peer and keeps its nickname, removing a peer
  takes every access away.
\<close>

definition without_peer :: "endpoint_id \<Rightarrow> ring list \<Rightarrow> (ring \<rightharpoonup> members) \<Rightarrow> ring \<rightharpoonup> members" where
  "without_peer p ns rs = (\<lambda>n. if n \<in> set ns \<and> \<not> ring_is_open n then map_option (\<lambda>m. m(p := None)) (rs n) else rs n)"

text \<open>All rings but the open one without the peer.\<close>

definition rings_without :: "endpoint_id \<Rightarrow> (ring \<rightharpoonup> members) \<Rightarrow> ring \<rightharpoonup> members" where
  "rings_without p rs = (\<lambda>n. if n = OPEN_RING_NAME then rs n else map_option (\<lambda>m. m(p := None)) (rs n))"

lemma without_peer_all: "set ns = dom rs \<Longrightarrow> without_peer p ns rs = rings_without p rs"
  by (auto simp: without_peer_def rings_without_def fun_eq_iff ring_is_open_def domIff)

locale node_laws =
  reg: live_registry "en_registry E" rings attached +
  gs: grant_store "en_grants E" gview gtview "en_iroh E" +
  ps: peer_store "en_peers E" pview ptview "en_iroh E"
  for E :: "('r, 'g, 'gt, 'p, 'pt, 's) env"
    and rings attached gview gtview pview ptview
begin

lemma without_peer_Cons:
  "without_peer p (n # ns) rs =
     without_peer p ns (if ring_is_open n then rs else rs(n := map_option (\<lambda>m. m(p := None)) (rs n)))"
  by (auto simp: without_peer_def fun_eq_iff option.map_comp comp_def)

lemma remove_from_rings_ok:
  assumes "set ns \<subseteq> dom (rings (nd_registry s))"
  shows "\<exists>removed r'. remove_from_rings E p ns acc s = (Inr (acc @ removed), s\<lparr>nd_registry := r'\<rparr>)
    \<and> rings r' = without_peer p ns (rings (nd_registry s)) \<and> attached r' = attached (nd_registry s)"
  using assms
proof (induction ns arbitrary: s acc)
  case Nil
  then show ?case by (auto simp: act_simps without_peer_def intro!: exI[of _ "nd_registry s"])
next
  case (Cons n ns)
  let ?r = "nd_registry s"
  have n: "n \<in> dom (rings ?r)" using Cons.prems by simp
  show ?case
  proof (cases "ring_is_open n")
    case True
    with Cons show ?thesis by (simp add: without_peer_Cons)
  next
    case False
    obtain ms where ms: "rg_list_ring_peers (en_registry E) ?r n = Inr ms"
      using reg.live_list_ring_peers[OF n] by blast
    have mem: "list_ex (\<lambda>m. rp_peer m = p) ms \<longleftrightarrow> p \<in> dom (members_of (rings ?r n))"
      using reg.ring_member_check[OF n, of p] ms by simp
    show ?thesis
    proof (cases "p \<in> dom (members_of (rings ?r n))")
      case True
      obtain r1 where r1: "rg_remove_peer_from_ring (en_registry E) ?r n p = Inr r1"
        using reg.live_remove_peer[OF n True] by blast
      note eff = reg.remove_peer[OF r1]
      have "set ns \<subseteq> dom (rings (nd_registry (s\<lparr>nd_registry := r1\<rparr>)))"
        using Cons.prems eff by auto
      from Cons.IH[OF this, of "acc @ [n]"] obtain removed r' where
        "remove_from_rings E p ns (acc @ [n]) (s\<lparr>nd_registry := r1\<rparr>)
          = (Inr ((acc @ [n]) @ removed), s\<lparr>nd_registry := r'\<rparr>)"
        "rings r' = without_peer p ns (rings r1)" "attached r' = attached r1" by auto
      with False True ms mem r1 eff show ?thesis
        by (intro exI[of _ "n # removed"] exI[of _ r'])
          (simp add: registryQ_def registryU_def act_simps without_peer_Cons)
    next
      case False
      then have "(rings ?r)(n := map_option (\<lambda>m. m(p := None)) (rings ?r n)) = rings ?r"
        by (cases "rings ?r n") (auto simp: fun_eq_iff members_of_def domIff)
      with Cons.IH[of s acc] Cons.prems False \<open>\<not> ring_is_open n\<close> ms mem show ?thesis
        by (auto simp: registryQ_def act_simps without_peer_Cons)
    qed
  qed
qed

lemma revoke_all_ok:
  "\<exists>revoked g'. revoke_all E p [BlobList] acc s = (Inr (acc @ revoked), s\<lparr>nd_grants := g'\<rparr>)
    \<and> grants_abs gview g' = grants_abs gview (nd_grants s) - {(BlobList, p)}
    \<and> (grants_ok (en_iroh E) gview (nd_grants s) \<longrightarrow> grants_ok (en_iroh E) gview g')"
proof (cases "(BlobList, p) \<in> grants_abs gview (nd_grants s)")
  case True
  from gs.revoke[of BlobList p "nd_grants s"] obtain g' where
    "grants_revoke (en_grants E) BlobList p (nd_grants s) = Inr g'"
    "grants_abs gview g' = grants_abs gview (nd_grants s) - {(BlobList, p)}"
    "grants_ok (en_iroh E) gview (nd_grants s) \<longrightarrow> grants_ok (en_iroh E) gview g'" by blast
  with True show ?thesis
    by (intro exI[of _ "[''blob-list'']"] exI[of _ g'])
      (simp add: grantsQ_def grantsU_def act_simps gs.has_grant)
next
  case False
  then show ?thesis
    by (intro exI[of _ "[]"] exI[of _ "nd_grants s"])
      (simp add: grantsQ_def act_simps gs.has_grant)
qed

text \<open>The effect of removing a known peer; an unknown one is an error and nothing changes.\<close>

lemma peer_remove_ok:
  assumes peer: "ir_parse_id (en_iroh E) str = Inr p"
    and known: "peers_abs pview (nd_peers s) p \<noteq> None"
  shows "\<exists>lines s'. peer_remove_lines E str s = (Inr lines, s')
    \<and> rings (nd_registry s') = rings_without p (rings (nd_registry s))
    \<and> attached (nd_registry s') = attached (nd_registry s)
    \<and> grants_abs gview (nd_grants s') = grants_abs gview (nd_grants s) - {(BlobList, p)}
    \<and> peers_abs pview (nd_peers s') = (peers_abs pview (nd_peers s))(p := None)"
proof -
  obtain ns where ns: "rg_list_rings (en_registry E) (nd_registry s) = Inr ns"
    using reg.live_list_rings by blast
  then have dom: "set ns = dom (rings (nd_registry s))" using reg.list_rings by blast
  then obtain removed r' where r': "remove_from_rings E p ns [] s = (Inr removed, s\<lparr>nd_registry := r'\<rparr>)"
    "rings r' = rings_without p (rings (nd_registry s))" "attached r' = attached (nd_registry s)"
    unfolding without_peer_all[OF dom, symmetric]
    using remove_from_rings_ok[of ns s p "[]"] by auto
  obtain revoked g' where g': "revoke_all E p [BlobList] [] (s\<lparr>nd_registry := r'\<rparr>)
      = (Inr revoked, s\<lparr>nd_registry := r', nd_grants := g'\<rparr>)"
    "grants_abs gview g' = grants_abs gview (nd_grants s) - {(BlobList, p)}"
    using revoke_all_ok[of p "[]" "s\<lparr>nd_registry := r'\<rparr>"] by auto
  obtain p' where p': "peers_remove (en_peers E) (en_iroh E) p (nd_peers s) = Inr p'"
    "peers_abs pview p' = (peers_abs pview (nd_peers s))(p := None)"
    using ps.remove_known[of "nd_peers s" p] known by blast
  with peer known ns r' g' p' show ?thesis
    by (simp add: peer_remove_lines_def registryQ_def peersQ_def peersU_def act_simps ps.get_nick
        parse_peer_id_def del: revoke_all.simps)
qed

text \<open>Adding a member: what a success means, on the registry and on the address book.\<close>

lemma ring_add_ok:
  assumes ok: "ring_add_lines E me ring str ex s = (Inr lines, s')" and ring: "ring \<noteq> OPEN_RING_NAME"
  shows "\<exists>p expiry m'. ir_parse_id (en_iroh E) str = Inr p \<and> p \<noteq> me
    \<and> transpose_map (future_expiry (en_now E)) ex = Inr expiry
    \<and> rings (nd_registry s') = (rings (nd_registry s))(ring \<mapsto> m')
    \<and> (\<forall>q. q \<noteq> p \<longrightarrow> m' q = members_of (rings (nd_registry s) ring) q)
    \<and> (expiry = None \<longrightarrow> p \<in> dom m')
    \<and> (\<forall>e. expiry = Some e \<longrightarrow> m' p = None \<or> m' p = Some (Some (ex_at e)))
    \<and> attached (nd_registry s') = attached (nd_registry s) \<and> nd_grants s' = nd_grants s
    \<and> peers_abs pview (nd_peers s') = (if peers_abs pview (nd_peers s) p = None
        then (peers_abs pview (nd_peers s))(p \<mapsto> None) else peers_abs pview (nd_peers s))"
proof -
  from ok ring obtain p expiry r' where p: "ir_parse_id (en_iroh E) str = Inr p" "p \<noteq> me"
    and ex: "transpose_map (future_expiry (en_now E)) ex = Inr expiry"
    and r': "rg_add_peer_to_ring (en_registry E) (nd_registry s) ring p None (map_option ex_at expiry) = Inr r'"
    and s': "\<exists>p'. peers_ensure (en_peers E) p (nd_peers s) = Inr p' \<and> s' = s\<lparr>nd_registry := r', nd_peers := p'\<rparr>"
    by (auto simp: ring_add_lines_def registryU_def peersU_def act_Inr bindR_Inr split: if_splits)
  from s' obtain p' where p': "peers_ensure (en_peers E) p (nd_peers s) = Inr p'"
    and s'_eq: "s' = s\<lparr>nd_registry := r', nd_peers := p'\<rparr>" by blast
  from ps.ensure[of p "nd_peers s"] p' have "peers_abs pview p' = (if peers_abs pview (nd_peers s) p = None
        then (peers_abs pview (nd_peers s))(p \<mapsto> None) else peers_abs pview (nd_peers s))" by simp
  moreover from reg.add_peer[OF r'] obtain m' where "rings r' = (rings (nd_registry s))(ring \<mapsto> m')"
    "\<forall>q. q \<noteq> p \<longrightarrow> m' q = members_of (rings (nd_registry s) ring) q"
    "expiry = None \<longrightarrow> p \<in> dom m'" "\<forall>e. expiry = Some e \<longrightarrow> m' p = None \<or> m' p = Some (Some (ex_at e))"
    "attached r' = attached (nd_registry s)" by fastforce
  ultimately show ?thesis using p ex s'_eq by (intro exI[of _ p] exI[of _ expiry] exI[of _ m']) simp
qed

end

section \<open>Expiries\<close>

definition duration_ns :: "duration \<Rightarrow> int" where
  "duration_ns d = int (d_secs d) * 1000000000 + int (d_nanos d)"

lemma duration_since_Some:
  "duration_since a b = Some d \<Longrightarrow> b \<le> a \<and> duration_ns d = a - b \<and> d_nanos d < 1000000000"
  by (auto simp: duration_since_def duration_ns_def split: if_splits)

lemma epoch_add: "time_checked_add UNIX_EPOCH (from_secs n) = (if n < 2 ^ 63 then Some (int n * 1000000000) else None)"
proof -
  have "int n * 1000000000 div 1000000000 = int n" by simp
  then show ?thesis by (simp add: time_checked_add_def UNIX_EPOCH_def from_secs_def Let_def)
qed

lemma future_expiry_iff:
  "future_expiry now u = Inr e \<longleftrightarrow>
     unat u < 2 ^ 63 \<and> now < int (unat u) * 1000000000 \<and> ex_at e = int (unat u) * 1000000000
     \<and> duration_since (ex_at e) now = Some (ex_remaining e)"
proof (cases "unat u < 2 ^ 63")
  case False
  then show ?thesis by (auto simp: future_expiry_def epoch_add bindR_Inr)
next
  case True
  let ?at = "int (unat u) * 1000000000"
  have pos: "(d_secs d = 0 \<and> d_nanos d = 0) \<longleftrightarrow> ?at = now" if "duration_since ?at now = Some d" for d
    using duration_since_Some[OF that] by (auto simp: duration_ns_def)
  have ge: "duration_since ?at now = None \<longleftrightarrow> ?at < now" by (simp add: duration_since_def)
  show ?thesis
  proof (cases "duration_since ?at now")
    case None
    with True ge show ?thesis by (auto simp: future_expiry_def epoch_add)
  next
    case (Some d)
    with True ge pos[OF Some] duration_since_Some[OF Some] show ?thesis
      by (cases e) (auto simp: future_expiry_def epoch_add)
  qed
qed

section \<open>The in-memory node\<close>

definition mem_env :: "(mem_reg, (byte list, unit) mem_db, (byte list, unit) mem_db,
    (byte list, string) mem_db, (byte list, string) mem_db, mem_disk) env" where
  "mem_env = \<lparr>en_registry = mem_registry, en_grants = mem_redb, en_peers = mem_redb,
     en_iroh = hex_iroh, en_codec = ref_codec, en_store = mem_store, en_os = mem_os,
     en_addr = sample_addr, en_now = 0, en_dial = sample_dial,
     en_connect = (\<lambda>_. Inr mem_transfer), en_qr = (\<lambda>s. Inr [s])\<rparr>"

lemma mem_env_simps [simp]:
  "en_registry mem_env = mem_registry" "en_grants mem_env = mem_redb" "en_peers mem_env = mem_redb"
  "en_iroh mem_env = hex_iroh" "en_codec mem_env = ref_codec" "en_store mem_env = mem_store"
  "en_os mem_env = mem_os" "en_addr mem_env = sample_addr" "en_now mem_env = 0"
  "en_dial mem_env = sample_dial" "en_connect mem_env = (\<lambda>_. Inr mem_transfer)" "en_qr mem_env = (\<lambda>s. Inr [s])"
  by (simp_all add: mem_env_def)

definition sample_peers :: "(byte list, string) mem_db" where
  "sample_peers = [(peer_key (EndpointId 5), ''alice'')]"

definition sample_session ::
    "(mem_reg, (byte list, unit) mem_db, (byte list, string) mem_db, mem_disk) session" where
  "sample_session = \<lparr>nd_registry = sample_reg, nd_grants = sample_grants, nd_peers = sample_peers,
     nd_disk = sample_disk, sn_out = []\<rparr>"

interpretation mem_node: node_laws mem_env mem_rings mem_attached map_of map_of map_of map_of
  unfolding node_laws_def mem_env_simps
  using mem_reg.live_registry_axioms mem_grants.grant_store_axioms mem_peers.peer_store_axioms by blast

definition sample_id :: string where "sample_id = hex_encode (id_bytes (EndpointId 5))"

lemma hex_sample_id [simp]: "hex_word sample_id = Inr 5"
  by (simp add: sample_id_def id_bytes_def)

section \<open>Properties\<close>

text \<open>
  C11: Removing a known peer always succeeds and takes every access away: it leaves all
  rings but the open one, its catalog grant and its address book entry are gone, nobody
  else's are touched, and afterwards it can reach a blob only through the open ring.
\<close>
theorem peer_remove_takes_all_access:
  assumes "node_laws E rings attached gview gtview pview ptview"
    and "ir_parse_id (en_iroh E) str = Inr p" "peers_abs pview (nd_peers s) p \<noteq> None"
  shows "\<exists>lines s'. peer_remove_lines E str s = (Inr lines, s')
    \<and> rings (nd_registry s') = rings_without p (rings (nd_registry s))
    \<and> attached (nd_registry s') = attached (nd_registry s)
    \<and> grants_abs gview (nd_grants s') = grants_abs gview (nd_grants s) - {(BlobList, p)}
    \<and> peers_abs pview (nd_peers s') = (peers_abs pview (nd_peers s))(p := None)
    \<and> (\<forall>h perm. allowed (rings (nd_registry s')) (attached (nd_registry s')) p h perm \<longleftrightarrow>
        perm \<in> perms_of (attached (nd_registry s) h OPEN_RING_NAME))"
proof -
  from node_laws.peer_remove_ok[OF assms] obtain lines s' where
    run: "peer_remove_lines E str s = (Inr lines, s')"
    and eff: "rings (nd_registry s') = rings_without p (rings (nd_registry s))"
      "attached (nd_registry s') = attached (nd_registry s)"
      "grants_abs gview (nd_grants s') = grants_abs gview (nd_grants s) - {(BlobList, p)}"
      "peers_abs pview (nd_peers s') = (peers_abs pview (nd_peers s))(p := None)" by blast
  have "in_ring (rings_without p (rings (nd_registry s))) n p \<longleftrightarrow> n = OPEN_RING_NAME" for n
    by (auto simp: in_ring_def rings_without_def members_of_def split: option.splits)
  then have "allowed (rings (nd_registry s')) (attached (nd_registry s')) p h perm \<longleftrightarrow>
      perm \<in> perms_of (attached (nd_registry s) h OPEN_RING_NAME)" for h perm
    by (auto simp: allowed_def eff perms_of_def split: option.splits)
  with run eff show ?thesis by blast
qed

lemma peer_remove_takes_all_access_witness:
  "\<exists>lines s'. peer_remove_lines mem_env sample_id sample_session = (Inr lines, s')
    \<and> \<not> allowed (mem_rings (nd_registry s')) (mem_attached (nd_registry s')) (EndpointId 5) 1 Read
    \<and> allowed (mem_rings sample_reg) (mem_attached sample_reg) (EndpointId 5) 1 Read"
proof -
  have "peers_abs map_of (nd_peers sample_session) (EndpointId 5) \<noteq> None"
    by (simp add: sample_session_def sample_peers_def peers_abs_def)
  moreover have "ir_parse_id (en_iroh mem_env) sample_id = Inr (EndpointId 5)" by simp
  ultimately obtain lines s' where s': "peer_remove_lines mem_env sample_id sample_session = (Inr lines, s')"
    "\<forall>h perm. allowed (mem_rings (nd_registry s')) (mem_attached (nd_registry s')) (EndpointId 5) h perm \<longleftrightarrow>
        perm \<in> perms_of (mem_attached (nd_registry sample_session) h OPEN_RING_NAME)"
    using peer_remove_takes_all_access[OF mem_node.node_laws_axioms] by blast
  have "perms_of (mem_attached sample_reg 1 OPEN_RING_NAME) = {}"
    by (simp add: perms_of_def mem_attached_def assoc_map_eq mem_attachments_def sample_reg_def OPEN_RING_NAME_def)
  with s' sample_allowed(1) show ?thesis by (auto simp: sample_session_def)
qed

text \<open>
  When adding a member succeeds on a ring other than the open one, the peer is another
  node, exactly its entry in that ring changes (to a member for good, keeping a live
  expiry, or to one that expires in the future), attachments and grants stay, and the
  peer is in the address book with the nickname it had.
\<close>
theorem ring_add_effect:
  assumes "node_laws E rings attached gview gtview pview ptview"
    and "ring_add_lines E me ring str ex s = (Inr lines, s')" "ring \<noteq> OPEN_RING_NAME"
  shows "\<exists>p expiry m'. ir_parse_id (en_iroh E) str = Inr p \<and> p \<noteq> me
    \<and> transpose_map (future_expiry (en_now E)) ex = Inr expiry
    \<and> rings (nd_registry s') = (rings (nd_registry s))(ring \<mapsto> m')
    \<and> (\<forall>q. q \<noteq> p \<longrightarrow> m' q = members_of (rings (nd_registry s) ring) q)
    \<and> (expiry = None \<longrightarrow> p \<in> dom m')
    \<and> (\<forall>e. expiry = Some e \<longrightarrow> m' p = None \<or> m' p = Some (Some (ex_at e)))
    \<and> attached (nd_registry s') = attached (nd_registry s) \<and> nd_grants s' = nd_grants s
    \<and> peers_abs pview (nd_peers s') = (if peers_abs pview (nd_peers s) p = None
        then (peers_abs pview (nd_peers s))(p \<mapsto> None) else peers_abs pview (nd_peers s))"
  using node_laws.ring_add_ok[OF assms] .

lemma ring_add_effect_witness:
  "\<exists>lines s'. ring_add_lines mem_env (EndpointId 7) ''friends'' sample_id None sample_session = (Inr lines, s')
     \<and> peers_abs map_of (nd_peers s') (EndpointId 5) = Some (Some ''alice'')"
proof -
  have run: "\<exists>lines s'. ring_add_lines mem_env (EndpointId 7) ''friends'' sample_id None sample_session = (Inr lines, s')"
    by (simp add: ring_add_lines_def OPEN_RING_NAME_def parse_peer_id_def registryU_def peersU_def
        act_simps mem_registry_def peers_ensure_def sample_session_def sample_peers_def
        with_read_def peer_key_def)
  then obtain lines s' where s': "ring_add_lines mem_env (EndpointId 7) ''friends'' sample_id None sample_session = (Inr lines, s')"
    by blast
  have "peers_abs map_of (nd_peers sample_session) (EndpointId 5) = Some (Some ''alice'')"
    by (simp add: sample_session_def sample_peers_def peers_abs_def)
  with ring_add_effect[OF mem_node.node_laws_axioms s'] s' show ?thesis
    by (auto simp: OPEN_RING_NAME_def)
qed

text \<open>
  Adding the node itself, an invalid peer id, or an expiry that is not in the future
  or out of range is refused, and nothing changes.
\<close>
theorem ring_add_refuses:
  assumes "ring \<noteq> OPEN_RING_NAME"
    and "ir_parse_id (en_iroh E) str = Inr me \<or> (\<exists>e. ir_parse_id (en_iroh E) str = Inl e)
      \<or> (\<exists>u. ex = Some u \<and> (int (unat u) * 1000000000 \<le> en_now E \<or> 2 ^ 63 \<le> unat u))"
  shows "\<exists>e. ring_add_lines E me ring str ex s = (Inl e, s)"
proof (cases "parse_peer_id (en_iroh E) str")
  case (Inl e)
  with assms(1) show ?thesis by (simp add: ring_add_lines_def act_simps)
next
  case (Inr p)
  then have p: "ir_parse_id (en_iroh E) str = Inr p" by simp
  show ?thesis
  proof (cases "p = me")
    case True
    with assms(1) Inr show ?thesis by (simp add: ring_add_lines_def act_simps)
  next
    case False
    with assms(2) p obtain u where u: "ex = Some u" "int (unat u) * 1000000000 \<le> en_now E \<or> 2 ^ 63 \<le> unat u"
      by auto
    then have "\<nexists>x. future_expiry (en_now E) u = Inr x" by (auto simp: future_expiry_iff)
    then obtain e where "future_expiry (en_now E) u = Inl e" by (cases "future_expiry (en_now E) u") auto
    with assms(1) Inr False u(1) show ?thesis by (simp add: ring_add_lines_def act_simps)
  qed
qed

lemma ring_add_refuses_witness:
  "\<exists>e. ring_add_lines mem_env (EndpointId 5) ''friends'' sample_id (Some 1) sample_session = (Inl e, sample_session)"
  by (rule ring_add_refuses) (simp_all add: OPEN_RING_NAME_def)

end
