(* ===== verification/BlobHandlers.thy ===== *)
theory BlobHandlers
  imports Membership
begin

text \<open>
  \<open>src/src/daemon/server/handlers/blob.rs\<close> and \<open>remote.rs\<close>: import, listing, removal,
  attaching and detaching of blobs, and the listing of a remote catalog.
\<close>

section \<open>Import\<close>

definition import_warning :: "iroh \<Rightarrow> blob_hash \<Rightarrow> string list" where
  "import_warning I hash =
     [''Warning: not attached to any ring '' @ em_dash @ '' this blob won'' @ [CHR 0x27] @ ''t be served to any peer.'',
      ''Attach to a ring with:'',
      ''  rdrop blob attach '' @ ir_show_hash I hash @ '' <ring-name>'',
      ''  rdrop blob attach '' @ ir_show_hash I hash @ '' --open'']"

definition attach_ring ::
    "('r, 'g, 'gt, 'p, 'pt, 's) env \<Rightarrow> blob_hash \<Rightarrow> ring \<Rightarrow> (('r, 'g, 'p, 's) session, unit) act" where
  "attach_ring E hash ring =
     registryU (\<lambda>r. rg_add_ring_to_resource (en_registry E) r (hash_word hash) ring [Read])"

text \<open>The end of an import: the ticket, as lines and as a record.\<close>

definition import_report ::
    "('r, 'g, 'gt, 'p, 'pt, 's) env \<Rightarrow> uuid \<Rightarrow> string \<Rightarrow> blob_hash \<Rightarrow> blob_format
     \<Rightarrow> (('r, 'g, 'p, 's) session, unit) act" where
  "import_report E req_id path hash format =
     (let display_name = leaf_name path in
      bindA (liftA (ticket_to_uri (en_codec E) (make_ticket (en_addr E) hash format display_name))) (\<lambda>ticket_str.
      thenA (send (event_blank req_id))
     (thenA (send (event_line req_id ''Ticket:''))
     (thenA (send (event_line req_id (''  '' @ ticket_str)))
     (thenA (send (event_blank req_id))
     (thenA (send (event_line req_id ''Peers receive with:''))
     (thenA (send (event_line req_id (''  rdrop receive '' @ ticket_str)))
     (thenA (send (event_record req_id (JObj
        [(''hash'', JStr (ir_show_hash (en_iroh E) hash)),
         (''format'', JStr (if format = HashSeq then ''hash_seq'' else ''raw'')),
         (''name'', JStr (case display_name of Some n \<Rightarrow> n | None \<Rightarrow> [])),
         (''ticket'', JStr ticket_str)])))
        (send (event_done req_id))))))))))"

definition handle_import ::
    "('r, 'g, 'gt, 'p, 'pt, 's) env \<Rightarrow> uuid \<Rightarrow> string \<Rightarrow> string list \<Rightarrow> bool
     \<Rightarrow> (('r, 'g, 'p, 's) session, unit) act" where
  "handle_import E req_id path rings open_ring =
     bindA (diskA (import_path (en_store E) (en_os E) (en_iroh E) path)) (\<lambda>(hash, format).
     let effective_rings = (if open_ring then [OPEN_RING_NAME] else rings) in
     thenA
       (if effective_rings = [] then
          bindA (registryQ (\<lambda>r. rg_list_resource_rings (en_registry E) r (hash_word hash))) (\<lambda>existing.
          if existing = [] then send_lines req_id (import_warning (en_iroh E) hash)
          else thenA (send (event_line req_id ''Already attached to:''))
            (forA existing (\<lambda>(r, _). send (event_line req_id (format_ring r)))))
        else
          forA effective_rings (\<lambda>ring.
            thenA (attach_ring E hash ring)
             (send (event_line req_id (if ring = OPEN_RING_NAME
                then ''Attached to open ring (publicly accessible)''
                else ''Attached to ring '' @ quoted ring)))))
      (import_report E req_id path hash format))"

section \<open>Listing\<close>

definition kind_str :: "blob_format \<Rightarrow> nat option \<Rightarrow> string" where
  "kind_str format file_count = (case format of
     HashSeq \<Rightarrow> ''dir, '' @ (case file_count of Some n \<Rightarrow> show_nat n @ '' files'' | None \<Rightarrow> ''dir'')
   | Raw \<Rightarrow> ''file'')"

definition size_str :: "u64 option \<Rightarrow> string" where
  "size_str total_size = (case total_size of Some n \<Rightarrow> format_size (unat n) | None \<Rightarrow> ''?'')"

definition list_entry ::
    "('r, 'g, 'gt, 'p, 'pt, 's) env \<Rightarrow> uuid \<Rightarrow> blob_list_entry \<Rightarrow> (('r, 'g, 'p, 's) session, unit) act" where
  "list_entry E req_id entry =
     bindA (registryQ (\<lambda>r. rg_list_resource_rings (en_registry E) r (hash_word (be_hash entry)))) (\<lambda>blob_rings.
     bindA (liftA (ticket_to_uri (en_codec E)
       (make_ticket (en_addr E) (be_hash entry) (be_format entry) (Some (be_name entry))))) (\<lambda>ticket_str.
     let kind = kind_str (be_format entry) (be_file_count entry);
         names = map fst blob_rings in
     thenA (send (event_blank req_id))
    (thenA (send (event_line req_id (''  '' @ ir_show_hash (en_iroh E) (be_hash entry) @ ''  ('' @ be_name entry @ '')'')))
    (thenA (send (event_line req_id (''    kind:   '' @ kind @ ''  ('' @ size_str (be_total_size entry) @ '')'')))
    (thenA (send (event_line req_id (if blob_rings = []
        then ''    rings:  (none '' @ em_dash @ '' inaccessible to all peers)''
        else ''    rings:  '' @ join_str '', '' names)))
    (thenA (send (event_line req_id (''    ticket: '' @ ticket_str)))
       (send (event_record req_id (JObj
         [(''hash'', JStr (ir_show_hash (en_iroh E) (be_hash entry))),
          (''name'', JStr (be_name entry)), (''kind'', JStr kind),
          (''file_count'', json_opt JNum (be_file_count entry)),
          (''size_bytes'', json_opt (JNum \<circ> unat) (be_total_size entry)),
          (''rings'', JArr (map JStr names)), (''ticket'', JStr ticket_str)])))))))))"

definition handle_blob_list ::
    "('r, 'g, 'gt, 'p, 'pt, 's) env \<Rightarrow> uuid \<Rightarrow> string option \<Rightarrow> string list option
     \<Rightarrow> (('r, 'g, 'p, 's) session, unit) act" where
  "handle_blob_list E req_id peer rings =
     bindA (queryA (\<lambda>s. list_blobs (en_registry E) (en_iroh E) (en_store E) (nd_registry s) (nd_disk s) peer rings)) (\<lambda>blobs.
     thenA
       (if blobs = [] then
          send (event_line req_id (''No blobs in local store''
            @ (case peer of Some p \<Rightarrow> '' accessible by peer '' @ p | None \<Rightarrow> []) @ ''.''))
        else
          thenA (send (event_line req_id (show_nat (length blobs) @ '' blobs:'')))
            (forA blobs (list_entry E req_id)))
       (send (event_done req_id)))"

section \<open>Removal, attaching, detaching\<close>

definition handle_blob_remove ::
    "('r, 'g, 'gt, 'p, 'pt, 's) env \<Rightarrow> uuid \<Rightarrow> string \<Rightarrow> (('r, 'g, 'p, 's) session, unit) act" where
  "handle_blob_remove E req_id target =
     bindA (resolve_target E target) (\<lambda>hash.
     thenA (registryU (\<lambda>r. rg_remove_ring_from_resource (en_registry E) r (hash_word hash)))
    (thenA (diskA (delete_blob (en_store E) (en_iroh E) hash))
    (thenA (send (event_line req_id (''Removed '' @ ir_show_hash (en_iroh E) hash)))
    (thenA (send (event_line req_id ''Disk space will be reclaimed on the next GC cycle.''))
    (thenA (send (event_record req_id (JObj [(''hash'', JStr (ir_show_hash (en_iroh E) hash))])))
       (send (event_done req_id)))))))"

definition nl :: string where "nl = [CHR 0x0A]"

definition nothing_to_attach :: "string \<Rightarrow> string" where
  "nothing_to_attach target =
     ''nothing to attach: specify at least one ring name or --open'' @ nl @ nl
     @ ''Examples:'' @ nl @ ''  rdrop blob attach '' @ target @ '' <ring-name>'' @ nl
     @ ''  rdrop blob attach '' @ target @ '' --open''"

definition handle_attach ::
    "('r, 'g, 'gt, 'p, 'pt, 's) env \<Rightarrow> uuid \<Rightarrow> string \<Rightarrow> string list \<Rightarrow> bool
     \<Rightarrow> (('r, 'g, 'p, 's) session, unit) act" where
  "handle_attach E req_id target rings open_ring =
     (if rings = [] \<and> \<not> open_ring then fail (anyhow_msg (nothing_to_attach target))
      else
        bindA (resolve_target E target) (\<lambda>hash.
        thenA (forA rings (\<lambda>ring.
          thenA (attach_ring E hash ring)
            (send (event_line req_id (''Attached '' @ ir_show_hash (en_iroh E) hash @ '' to ring '' @ quoted ring)))))
       (thenA (if open_ring then
            thenA (attach_ring E hash OPEN_RING_NAME)
              (send (event_line req_id (''Attached '' @ ir_show_hash (en_iroh E) hash
                @ '' to open ring (publicly accessible)'')))
          else ret ())
          (send (event_done req_id)))))"

text \<open>The write half of the read-modify-write of a selective detach.\<close>

definition rewrite_rings ::
    "('r, 'g, 'gt, 'p, 'pt, 's) env \<Rightarrow> blob_hash \<Rightarrow> (ring \<times> permission list) list
     \<Rightarrow> (('r, 'g, 'p, 's) session, unit) act" where
  "rewrite_rings E hash remaining =
     thenA (registryU (\<lambda>r. rg_remove_ring_from_resource (en_registry E) r (hash_word hash)))
       (forA remaining (\<lambda>(ring, perms).
          registryU (\<lambda>r. rg_add_ring_to_resource (en_registry E) r (hash_word hash) ring perms)))"

definition handle_detach ::
    "('r, 'g, 'gt, 'p, 'pt, 's) env \<Rightarrow> uuid \<Rightarrow> string \<Rightarrow> string list \<Rightarrow> bool \<Rightarrow> bool
     \<Rightarrow> (('r, 'g, 'p, 's) session, unit) act" where
  "handle_detach E req_id target rings open_ring detach_all =
     bindA (resolve_target E target) (\<lambda>hash.
     let shown = ir_show_hash (en_iroh E) hash in
     if detach_all then
       thenA (registryU (\<lambda>r. rg_remove_ring_from_resource (en_registry E) r (hash_word hash)))
      (thenA (send (event_line req_id (''Detached '' @ shown @ '' from all rings'')))
         (send (event_done req_id)))
     else
       let to_remove = (if open_ring then [OPEN_RING_NAME] else rings) in
       bindA (registryQ (\<lambda>r. rg_list_resource_rings (en_registry E) r (hash_word hash))) (\<lambda>current.
       let actually_removed = filter (\<lambda>name. list_ex (\<lambda>(r, _). r = name) current) to_remove in
       if actually_removed = [] then
         fail (anyhow_msg (''blob '' @ shown @ '' is not attached to: '' @ join_str '', '' to_remove))
       else
         let remaining = filter (\<lambda>(ring, _). ring \<notin> set to_remove) current in
         thenA (rewrite_rings E hash remaining)
        (thenA (forA actually_removed (\<lambda>name.
            send (event_line req_id (''Detached '' @ shown @ '' from ring '' @ quoted name))))
           (send (event_done req_id)))))"

section \<open>Remote catalog\<close>

definition remote_entry ::
    "('r, 'g, 'gt, 'p, 'pt, 's) env \<Rightarrow> uuid \<Rightarrow> catalog_entry \<Rightarrow> (('r, 'g, 'p, 's) session, unit) act" where
  "remote_entry E req_id entry =
     bindA (liftA (ticket_to_uri (en_codec E) (ce_ticket entry))) (\<lambda>ticket_str.
     let kind = kind_str (ce_format entry) (ce_file_count entry) in
     thenA (send (event_blank req_id))
    (thenA (send (event_line req_id (''  '' @ ir_show_hash (en_iroh E) (ce_hash entry) @ ''  ('' @ ce_name entry @ '')'')))
    (thenA (send (event_line req_id (''    kind:   '' @ kind @ ''  ('' @ size_str (ce_total_size entry) @ '')'')))
    (thenA (send (event_line req_id (''    ticket: '' @ ticket_str)))
       (send (event_record req_id (JObj
         [(''hash'', JStr (ir_show_hash (en_iroh E) (ce_hash entry))),
          (''name'', JStr (ce_name entry)), (''kind'', JStr kind),
          (''file_count'', json_opt JNum (ce_file_count entry)),
          (''size_bytes'', json_opt (JNum \<circ> unat) (ce_total_size entry)),
          (''ticket'', JStr ticket_str)])))))))"

definition handle_remote_blob_list ::
    "('r, 'g, 'gt, 'p, 'pt, 's) env \<Rightarrow> uuid \<Rightarrow> string \<Rightarrow> (('r, 'g, 'p, 's) session, unit) act" where
  "handle_remote_blob_list E req_id peer =
     bindA (liftA (parse_peer_id (en_iroh E) peer)) (\<lambda>peer_id.
     bindA (liftA (catalog_connect (en_codec E) (en_dial E) (addr_new peer_id))) (\<lambda>entries.
     thenA
       (if entries = [] then send (event_line req_id ''No accessible blobs on remote node.'')
        else
          thenA (send (event_line req_id (show_nat (length entries) @ '' blobs:'')))
            (forA entries (remote_entry E req_id)))
       (send (event_done req_id))))"

section \<open>The event discipline\<close>

lemma talks_blob_parts [spec_intros]:
  "talks q (attach_ring E h ring)" "talks q (rewrite_rings E h remaining)"
  "talks q (list_entry E q entry)" "talks q (remote_entry E q centry)"
  unfolding attach_ring_def rewrite_rings_def list_entry_def remote_entry_def
  by (intro spec_intros; simp)+

lemma replies_blobs [spec_intros]:
  "replies q (handle_import E q path rings open_ring)" "replies q (handle_blob_list E q peer ring_names)"
  "replies q (handle_blob_remove E q target)" "replies q (handle_attach E q target rings open_ring)"
  "replies q (handle_detach E q target rings open_ring detach_all)" "replies q (handle_remote_blob_list E q rpeer)"
  unfolding handle_import_def import_report_def handle_blob_list_def handle_blob_remove_def handle_attach_def
    handle_detach_def handle_remote_blob_list_def
  by (intro spec_intros; simp)+

section \<open>Attachments\<close>

lemma assoc_map_filter:
  "assoc_map (filter (\<lambda>(n, _). n \<notin> A) l) = (assoc_map l) |` (- A)"
proof
  fix n
  have "map_of (filter (\<lambda>(n, _). n \<notin> A) l) n = (if n \<in> A then None else map_of l n)"
    by (induction l) auto
  then show "assoc_map (filter (\<lambda>(n, _). n \<notin> A) l) n = ((assoc_map l) |` (- A)) n"
    by (simp add: assoc_map_eq restrict_map_def)
qed

lemma assoc_map_dom: "dom (assoc_map l) = fst ` set l"
proof -
  have "dom (assoc_map l) = dom (map_of l)" by (auto simp: dom_def assoc_map_eq)
  then show ?thesis by (simp add: dom_map_of_conv_image_fst)
qed

lemma assoc_map_Cons: "assoc_map ((n, ps) # l) = (assoc_map l)(n \<mapsto> set ps)"
  by (simp add: assoc_map_def)

text \<open>Attaching: what the rings of a blob may look like afterwards.\<close>

definition attached_read ::
    "(bytes32 \<Rightarrow> ring \<rightharpoonup> permission set) \<Rightarrow> bytes32 \<Rightarrow> ring set \<Rightarrow> (bytes32 \<Rightarrow> ring \<rightharpoonup> permission set) \<Rightarrow> bool" where
  "attached_read as h ns as' \<longleftrightarrow>
     (\<forall>g n. g \<noteq> h \<or> n \<notin> ns \<longrightarrow> as' g n = as g n) \<and>
     (\<forall>n \<in> ns. \<exists>ps. as' h n = Some ps \<and> Read \<in> ps \<and> ps \<subseteq> insert Read (perms_of (as h n)))"

lemma attached_read_perms:
  assumes "attached_read as h ns as'"
  shows "perms_of (as' h n) \<subseteq> insert Read (perms_of (as h n))"
proof (cases "n \<in> ns")
  case True
  with assms obtain ps where "as' h n = Some ps" "ps \<subseteq> insert Read (perms_of (as h n))"
    unfolding attached_read_def by blast
  then show ?thesis by (simp add: perms_of_def)
next
  case False
  with assms have "as' h n = as h n" by (simp add: attached_read_def)
  then show ?thesis by auto
qed

lemma attached_read_trans:
  assumes a: "attached_read as h ns as1" and b: "attached_read as1 h ms as2"
  shows "attached_read as h (ns \<union> ms) as2"
  unfolding attached_read_def
proof (intro conjI allI ballI impI)
  fix g k assume "g \<noteq> h \<or> k \<notin> ns \<union> ms"
  with a b show "as2 g k = as g k" by (auto simp: attached_read_def)
next
  fix k assume k: "k \<in> ns \<union> ms"
  show "\<exists>ps. as2 h k = Some ps \<and> Read \<in> ps \<and> ps \<subseteq> insert Read (perms_of (as h k))"
  proof (cases "k \<in> ms")
    case True
    with b obtain ps where "as2 h k = Some ps" "Read \<in> ps" "ps \<subseteq> insert Read (perms_of (as1 h k))"
      unfolding attached_read_def by blast
    with attached_read_perms[OF a, of k] show ?thesis by blast
  next
    case False
    with k a b show ?thesis by (auto simp: attached_read_def)
  qed
qed

context node_laws
begin

lemma attach_fresh:
  assumes "rg_add_ring_to_resource (en_registry E) r h n ps = Inr r'" "attached r h n = None"
  shows "attached r' = (attached r)(h := (attached r h)(n \<mapsto> set ps)) \<and> rings r' = rings r"
  using reg.add_ring_to_resource[OF assms(1)] assms(2) by (auto simp: perms_of_def)

lemma add_rings_ok:
  assumes "distinct (map fst l)" "fst ` set l \<subseteq> dom (rings (nd_registry s))"
    and "\<And>n. n \<in> fst ` set l \<Longrightarrow> attached (nd_registry s) h n = None"
  shows "\<exists>r'. forA l (\<lambda>(ring, perms). registryU (\<lambda>r. rg_add_ring_to_resource (en_registry E) r h ring perms)) s
      = (Inr (), s\<lparr>nd_registry := r'\<rparr>)
    \<and> attached r' = (attached (nd_registry s))(h := attached (nd_registry s) h ++ assoc_map l)
    \<and> rings r' = rings (nd_registry s)"
  using assms
proof (induction l arbitrary: s)
  case Nil
  then show ?case by (intro exI[of _ "nd_registry s"]) (simp add: act_simps assoc_map_def)
next
  case (Cons np l)
  obtain n ps where np: "np = (n, ps)" by (cases np)
  have n: "n \<in> dom (rings (nd_registry s))" "attached (nd_registry s) h n = None" "n \<notin> fst ` set l"
    using Cons.prems np by auto
  obtain r1 where r1: "rg_add_ring_to_resource (en_registry E) (nd_registry s) h n ps = Inr r1"
    using reg.live_add_ring[OF n(1)] by blast
  note eff = attach_fresh[OF r1 n(2)]
  have fresh: "attached (nd_registry (s\<lparr>nd_registry := r1\<rparr>)) h k = None" if "k \<in> fst ` set l" for k
  proof -
    have "k \<noteq> n" using that n(3) by auto
    moreover have "attached (nd_registry s) h k = None" using that Cons.prems(3) by simp
    ultimately show ?thesis by (simp add: eff)
  qed
  have "distinct (map fst l)" "fst ` set l \<subseteq> dom (rings (nd_registry (s\<lparr>nd_registry := r1\<rparr>)))"
    using Cons.prems(1,2) eff by auto
  from Cons.IH[OF this fresh] have "\<exists>r'. forA l (\<lambda>(ring, perms).
        registryU (\<lambda>r. rg_add_ring_to_resource (en_registry E) r h ring perms))
        (s\<lparr>nd_registry := r1\<rparr>) = (Inr (), s\<lparr>nd_registry := r'\<rparr>)
      \<and> attached r' = (attached r1)(h := attached r1 h ++ assoc_map l) \<and> rings r' = rings r1"
    by (simp add: fun_upd_def)
  then obtain r' where r': "forA l (\<lambda>(ring, perms).
        registryU (\<lambda>r. rg_add_ring_to_resource (en_registry E) r h ring perms))
        (s\<lparr>nd_registry := r1\<rparr>) = (Inr (), s\<lparr>nd_registry := r'\<rparr>)"
      "attached r' = (attached r1)(h := attached r1 h ++ assoc_map l)" "rings r' = rings r1" by blast
  have absent: "assoc_map l n = None" using n(3) by (metis assoc_map_dom domIff)
  have "(attached (nd_registry s) h)(n \<mapsto> set ps) ++ assoc_map l
      = attached (nd_registry s) h ++ (assoc_map l)(n \<mapsto> set ps)"
    using absent by (auto simp: fun_eq_iff map_add_def split: option.splits)
  then have "attached r' = (attached (nd_registry s))(h := attached (nd_registry s) h ++ assoc_map (np # l))"
    by (simp add: r'(2) eff np assoc_map_Cons)
  moreover have "forA (np # l) (\<lambda>(ring, perms). registryU (\<lambda>r. rg_add_ring_to_resource (en_registry E) r h ring perms)) s
      = (Inr (), s\<lparr>nd_registry := r'\<rparr>)"
    using r1 r'(1) np by (simp add: act_simps)
  moreover have "rings r' = rings (nd_registry s)" using r'(3) eff by simp
  ultimately show ?case by blast
qed

text \<open>The write half: whatever the attachments were, they become those it was given.\<close>

lemma rewrite_rings_ok:
  assumes "distinct (map fst l)" "fst ` set l \<subseteq> dom (rings (nd_registry s))"
  shows "\<exists>r'. rewrite_rings E h l s = (Inr (), s\<lparr>nd_registry := r'\<rparr>)
    \<and> attached r' = (attached (nd_registry s))(hash_word h := assoc_map l) \<and> rings r' = rings (nd_registry s)"
proof -
  obtain r1 where r1: "rg_remove_ring_from_resource (en_registry E) (nd_registry s) (hash_word h) = Inr r1"
    using reg.live_remove_ring by blast
  note eff = reg.remove_ring_from_resource[OF r1]
  from add_rings_ok[of l "s\<lparr>nd_registry := r1\<rparr>" "hash_word h"] assms eff obtain r' where
    "forA l (\<lambda>(ring, perms). registryU (\<lambda>r. rg_add_ring_to_resource (en_registry E) r (hash_word h) ring perms))
        (s\<lparr>nd_registry := r1\<rparr>) = (Inr (), s\<lparr>nd_registry := r'\<rparr>)"
      "attached r' = (attached r1)(hash_word h := attached r1 (hash_word h) ++ assoc_map l)" "rings r' = rings r1"
    by auto
  with r1 eff show ?thesis by (intro exI[of _ r']) (simp add: rewrite_rings_def act_simps)
qed

lemma detach_ok:
  assumes target: "resolve_target E target s = (Inr h, s1)"
    and known: "dom (attached (nd_registry s1) (hash_word h)) \<subseteq> dom (rings (nd_registry s1))"
    and some: "\<exists>n \<in> set (if open_ring then [OPEN_RING_NAME] else names). attached (nd_registry s1) (hash_word h) n \<noteq> None"
  shows "\<exists>s'. handle_detach E q target names open_ring False s = (Inr (), s')
    \<and> attached (nd_registry s') = (attached (nd_registry s1))(hash_word h :=
        attached (nd_registry s1) (hash_word h) |` (- set (if open_ring then [OPEN_RING_NAME] else names)))
    \<and> rings (nd_registry s') = rings (nd_registry s1)"
proof -
  let ?rm = "if open_ring then [OPEN_RING_NAME] else names"
  obtain l where l: "rg_list_resource_rings (en_registry E) (nd_registry s1) (hash_word h) = Inr l"
    using reg.live_list_resource_rings by blast
  note d = reg.list_resource_rings[OF l, THEN conjunct1] and a = reg.list_resource_rings[OF l, THEN conjunct2]
  let ?rest = "filter (\<lambda>(ring, _). ring \<notin> set ?rm) l"
  have "list_ex (\<lambda>(r, _). r = n) l \<longleftrightarrow> attached (nd_registry s1) (hash_word h) n \<noteq> None" for n
    unfolding a[symmetric] list_ex_iff using assoc_names[of l "\<lambda>m. m = n"] by auto
  with some have ne: "filter (\<lambda>name. list_ex (\<lambda>(r, _). r = name) l) ?rm \<noteq> []"
    by (auto simp: filter_empty_conv)
  have "distinct (map fst ?rest)" using d by (simp add: distinct_map_filter)
  moreover have "fst ` set ?rest \<subseteq> dom (rings (nd_registry s1))"
    using known unfolding a[symmetric] assoc_map_dom by auto
  ultimately obtain r' where r': "rewrite_rings E h ?rest s1 = (Inr (), s1\<lparr>nd_registry := r'\<rparr>)"
    "attached r' = (attached (nd_registry s1))(hash_word h := assoc_map ?rest)" "rings r' = rings (nd_registry s1)"
    using rewrite_rings_ok[of ?rest s1 h] by blast
  from r'(2) have "attached r' = (attached (nd_registry s1))(hash_word h := attached (nd_registry s1) (hash_word h) |` (- set ?rm))"
    unfolding assoc_map_filter a .
  moreover have "\<exists>s'. handle_detach E q target names open_ring False s = (Inr (), s') \<and> nd_registry s' = r'"
    using target l ne r'(1) by (simp add: handle_detach_def act_simps Let_def del: set_simps)
  ultimately show ?thesis using r'(3) by auto
qed

lemma detach_none:
  assumes target: "resolve_target E target s = (Inr h, s1)"
    and none: "\<forall>n \<in> set (if open_ring then [OPEN_RING_NAME] else names). attached (nd_registry s1) (hash_word h) n = None"
  shows "\<exists>e. handle_detach E q target names open_ring False s = (Inl e, s1)"
proof -
  let ?rm = "if open_ring then [OPEN_RING_NAME] else names"
  obtain l where l: "rg_list_resource_rings (en_registry E) (nd_registry s1) (hash_word h) = Inr l"
    using reg.live_list_resource_rings by blast
  note a = reg.list_resource_rings[OF l, THEN conjunct2]
  have "list_ex (\<lambda>(r, _). r = n) l \<longleftrightarrow> attached (nd_registry s1) (hash_word h) n \<noteq> None" for n
    unfolding a[symmetric] list_ex_iff using assoc_names[of l "\<lambda>m. m = n"] by auto
  with none have "filter (\<lambda>name. list_ex (\<lambda>(r, _). r = name) l) ?rm = []"
    by (auto simp: filter_empty_conv)
  with target l show ?thesis by (simp add: handle_detach_def act_simps Let_def del: set_simps)
qed

lemma attach_ring_ok:
  assumes "attach_ring E h n s = (Inr (), s')"
  shows "attached_read (attached (nd_registry s)) (hash_word h) {n} (attached (nd_registry s'))
    \<and> rings (nd_registry s') = rings (nd_registry s)"
proof -
  from assms obtain r' where r': "rg_add_ring_to_resource (en_registry E) (nd_registry s) (hash_word h) n [Read] = Inr r'"
    and s': "s' = s\<lparr>nd_registry := r'\<rparr>"
    by (auto simp: attach_ring_def registryU_def act_Inr bindR_Inr)
  from reg.add_ring_to_resource[OF r'] obtain ps where
    "attached r' = (attached (nd_registry s))(hash_word h := (attached (nd_registry s) (hash_word h))(n \<mapsto> ps))"
    "{Read} \<subseteq> ps" "ps \<subseteq> {Read} \<union> perms_of (attached (nd_registry s) (hash_word h) n)"
    "rings r' = rings (nd_registry s)" by auto
  then show ?thesis by (auto simp: attached_read_def s')
qed

lemma attach_rings_ok:
  "forA names (\<lambda>n. thenA (attach_ring E h n) (send (f n))) s = (Inr (), s') \<Longrightarrow>
     attached_read (attached (nd_registry s)) (hash_word h) (set names) (attached (nd_registry s'))
     \<and> rings (nd_registry s') = rings (nd_registry s)"
proof (induction names arbitrary: s)
  case Nil
  then show ?case by (auto simp: act_apply attached_read_def)
next
  case (Cons n names)
  then obtain s1 where s1: "attach_ring E h n s = (Inr (), s1)"
    and rest: "forA names (\<lambda>n. thenA (attach_ring E h n) (send (f n))) (s1\<lparr>sn_out := sn_out s1 @ [f n]\<rparr>) = (Inr (), s')"
    by (auto simp: act_Inr send_Inr)
  from attached_read_trans[OF attach_ring_ok[OF s1, THEN conjunct1]] attach_ring_ok[OF s1] Cons.IH[OF rest]
  show ?case by fastforce
qed

lemma handle_attach_ok:
  assumes "handle_attach E q target names open_ring s = (Inr (), s')"
  shows "\<exists>h s1. resolve_target E target s = (Inr h, s1)
    \<and> attached_read (attached (nd_registry s1)) (hash_word h)
        (set names \<union> (if open_ring then {OPEN_RING_NAME} else {})) (attached (nd_registry s'))
    \<and> rings (nd_registry s') = rings (nd_registry s1)"
proof -
  let ?msg = "\<lambda>h n. event_line q (''Attached '' @ ir_show_hash (en_iroh E) h @ '' to ring '' @ quoted n)"
  show ?thesis
  proof (cases open_ring)
    case False
    from assms False obtain h s1 s2 where
      s1: "resolve_target E target s = (Inr h, s1)"
      and loop: "forA names (\<lambda>n. thenA (attach_ring E h n) (send (?msg h n))) s1 = (Inr (), s2)"
      and s': "nd_registry s' = nd_registry s2"
      by (auto simp: handle_attach_def act_Inr send_Inr split: if_splits)
    with attach_rings_ok[OF loop] False show ?thesis by auto
  next
    case True
    from assms True obtain h s1 s2 s3 where
      s1: "resolve_target E target s = (Inr h, s1)"
      and loop: "forA names (\<lambda>n. thenA (attach_ring E h n) (send (?msg h n))) s1 = (Inr (), s2)"
      and s3: "attach_ring E h OPEN_RING_NAME s2 = (Inr (), s3)" and s': "nd_registry s' = nd_registry s3"
      by (auto simp: handle_attach_def act_Inr send_Inr)
    note a = attach_rings_ok[OF loop] and o = attach_ring_ok[OF s3]
    have "attached_read (attached (nd_registry s1)) (hash_word h) (set names \<union> {OPEN_RING_NAME}) (attached (nd_registry s3))"
      using a o attached_read_trans by blast
    with s1 a o s' True show ?thesis by (intro exI[of _ h] exI[of _ s1]) simp
  qed
qed

lemma rewrite_overwrites:
  assumes read: "rg_list_resource_rings (en_registry E) (nd_registry s) (hash_word h) = Inr current"
    and exist: "dom (attached (nd_registry s) (hash_word h)) \<subseteq> dom (rings (nd_registry s1))"
  shows "\<exists>s2. rewrite_rings E h (filter (\<lambda>(ring, _). ring \<notin> set to_remove) current) s1 = (Inr (), s2)
    \<and> attached (nd_registry s2) = (attached (nd_registry s1))(hash_word h :=
        attached (nd_registry s) (hash_word h) |` (- set to_remove))
    \<and> rings (nd_registry s2) = rings (nd_registry s1)"
proof -
  let ?rest = "filter (\<lambda>(ring, _). ring \<notin> set to_remove) current"
  note d = reg.list_resource_rings[OF read, THEN conjunct1] and a = reg.list_resource_rings[OF read, THEN conjunct2]
  have "distinct (map fst ?rest)" using d by (simp add: distinct_map_filter)
  moreover have "fst ` set ?rest \<subseteq> dom (rings (nd_registry s1))"
    using exist unfolding a[symmetric] assoc_map_dom by auto
  ultimately obtain r' where "rewrite_rings E h ?rest s1 = (Inr (), s1\<lparr>nd_registry := r'\<rparr>)"
    "attached r' = (attached (nd_registry s1))(hash_word h := assoc_map ?rest)" "rings r' = rings (nd_registry s1)"
    using rewrite_rings_ok[of ?rest s1 h] by blast
  then show ?thesis by (intro exI[of _ "s1\<lparr>nd_registry := r'\<rparr>"]) (simp add: assoc_map_filter a)
qed

lemma concurrent_attach_lost:
  assumes read: "rg_list_resource_rings (en_registry E) (nd_registry s) (hash_word h) = Inr current"
    and fresh: "attached (nd_registry s) (hash_word h) n = None"
    and attach: "attach_ring E h n s = (Inr (), s1)"
    and exist: "dom (attached (nd_registry s) (hash_word h)) \<subseteq> dom (rings (nd_registry s))"
  shows "Read \<in> perms_of (attached (nd_registry s1) (hash_word h) n)
    \<and> (\<exists>s2. rewrite_rings E h (filter (\<lambda>(ring, _). ring \<notin> set to_remove) current) s1 = (Inr (), s2)
        \<and> attached (nd_registry s2) (hash_word h) n = None)"
proof -
  note eff = attach_ring_ok[OF attach]
  have "Read \<in> perms_of (attached (nd_registry s1) (hash_word h) n)"
    using eff by (auto simp: attached_read_def perms_of_def)
  moreover have "dom (attached (nd_registry s) (hash_word h)) \<subseteq> dom (rings (nd_registry s1))" using exist eff by simp
  ultimately show ?thesis
    using rewrite_overwrites[OF read, of s1 to_remove] fresh by (auto simp: restrict_map_def)
qed

end

definition sample_target :: string where "sample_target = hex_encode (hash_bytes (Hash 1))"

lemma sample_resolve: "nd_disk s = sample_disk \<Longrightarrow> resolve_target mem_env sample_target s = (Inr (Hash 1), s)"
proof -
  have "sample_target \<noteq> ''/x/a.txt''"
  proof
    assume "sample_target = ''/x/a.txt''"
    then have "length sample_target = length ''/x/a.txt''" by simp
    then show False by (simp add: sample_target_def)
  qed
  moreover have "parse_hash hex_iroh sample_target = Inr (Hash 1)"
    by (simp add: sample_target_def hash_bytes_def)
  ultimately show "nd_disk s = sample_disk \<Longrightarrow> resolve_target mem_env sample_target s = (Inr (Hash 1), s)"
    by (simp add: resolve_target_def act_simps mem_os_def sample_disk_def)
qed

lemma sample_attached:
  "mem_attached sample_reg 1 = [''friends'' \<mapsto> {Read}]"
  by (auto simp: fun_eq_iff mem_attached_def assoc_map_eq mem_attachments_def sample_reg_def)

lemma sample_rings: "''friends'' \<in> dom (mem_rings sample_reg)"
  by (simp add: mem_rings_def sample_reg_def dom_def)

section \<open>Properties\<close>

text \<open>
  Attaching a blob: on success every named ring (and the open ring, with \<open>--open\<close>)
  grants \<open>Read\<close> on the blob, no ring gains any other permission, and no other ring,
  blob or membership changes.  With \<open>--open\<close> the named rings are attached as well.
\<close>
theorem attach_effect:
  assumes "node_laws E rings attached gview gtview pview ptview"
    and "handle_attach E q target names open_ring s = (Inr (), s')"
  shows "\<exists>h s1. resolve_target E target s = (Inr h, s1)
    \<and> attached_read (attached (nd_registry s1)) (hash_word h)
        (set names \<union> (if open_ring then {OPEN_RING_NAME} else {})) (attached (nd_registry s'))
    \<and> rings (nd_registry s') = rings (nd_registry s1)"
  using node_laws.handle_attach_ok[OF assms] .

lemma attach_effect_witness:
  "\<exists>s'. handle_attach mem_env 0 sample_target [''friends''] True sample_session = (Inr (), s')
     \<and> Read \<in> perms_of (mem_attached (nd_registry s') 1 OPEN_RING_NAME)"
proof -
  have "\<exists>s'. handle_attach mem_env 0 sample_target [''friends''] True sample_session = (Inr (), s')"
    by (simp add: handle_attach_def sample_resolve sample_session_def act_simps attach_ring_def
        mem_registry_def sample_reg_def)
  then obtain s' where s': "handle_attach mem_env 0 sample_target [''friends''] True sample_session = (Inr (), s')"
    by blast
  from attach_effect[OF mem_node.node_laws_axioms s'] obtain h s1 where
    h: "resolve_target mem_env sample_target sample_session = (Inr h, s1)"
    and a: "attached_read (mem_attached (nd_registry s1)) (hash_word h) ({''friends''} \<union> {OPEN_RING_NAME})
      (mem_attached (nd_registry s'))" by auto
  from h have "h = Hash 1" by (simp add: sample_resolve sample_session_def)
  with a have "Read \<in> perms_of (mem_attached (nd_registry s') 1 OPEN_RING_NAME)"
    by (auto simp: attached_read_def perms_of_def)
  with s' show ?thesis by blast
qed

text \<open>
  C15: A selective detach of a blob whose rings all exist removes exactly the named
  attachments (the open ring's, with \<open>--open\<close>), keeps every other one with its
  permissions, and does so whenever at least one of them is there; when none is, it
  fails and changes nothing.
\<close>
theorem detach_effect:
  assumes "node_laws E rings attached gview gtview pview ptview"
    and "resolve_target E target s = (Inr h, s1)"
    and "dom (attached (nd_registry s1) (hash_word h)) \<subseteq> dom (rings (nd_registry s1))"
    and rm: "rm = (if open_ring then [OPEN_RING_NAME] else names)"
  shows "if \<exists>n \<in> set rm. attached (nd_registry s1) (hash_word h) n \<noteq> None
    then \<exists>s'. handle_detach E q target names open_ring False s = (Inr (), s')
      \<and> attached (nd_registry s') = (attached (nd_registry s1))(hash_word h :=
          attached (nd_registry s1) (hash_word h) |` (- set rm))
      \<and> rings (nd_registry s') = rings (nd_registry s1)
    else \<exists>e. handle_detach E q target names open_ring False s = (Inl e, s1)"
  using node_laws.detach_ok[OF assms(1-3), of open_ring names q]
    node_laws.detach_none[OF assms(1,2), of open_ring names q]
  unfolding rm by (cases "\<exists>n \<in> set (if open_ring then [OPEN_RING_NAME] else names).
    attached (nd_registry s1) (hash_word h) n \<noteq> None") auto

lemma detach_effect_witness:
  "\<exists>s'. handle_detach mem_env 0 sample_target [''friends'', ''work''] False False sample_session = (Inr (), s')
     \<and> mem_attached (nd_registry s') 1 = Map.empty"
proof -
  have r: "resolve_target mem_env sample_target sample_session = (Inr (Hash 1), sample_session)"
    by (simp add: sample_resolve sample_session_def)
  have d: "dom (mem_attached (nd_registry sample_session) (hash_word (Hash 1))) \<subseteq> dom (mem_rings (nd_registry sample_session))"
    using sample_rings by (simp add: sample_session_def sample_attached)
  have "[''friends'', ''work''] = (if False then [OPEN_RING_NAME] else [''friends'', ''work''])" by simp
  from detach_effect[OF mem_node.node_laws_axioms r d this, of 0] show ?thesis
    by (auto simp: sample_session_def sample_attached restrict_map_def fun_eq_iff)
qed

text \<open>
  The read-modify-write of a selective detach is not atomic: an attachment that
  another request adds between its read and its write is lost.  The daemon runs its
  connections as concurrent tasks, so this order of steps can happen.
\<close>
theorem detach_loses_concurrent_attach:
  assumes "node_laws E rings attached gview gtview pview ptview"
    and read: "rg_list_resource_rings (en_registry E) (nd_registry s) (hash_word h) = Inr current"
    and fresh: "attached (nd_registry s) (hash_word h) n = None"
    and attach: "attach_ring E h n s = (Inr (), s1)"
    and exist: "dom (attached (nd_registry s) (hash_word h)) \<subseteq> dom (rings (nd_registry s))"
  shows "Read \<in> perms_of (attached (nd_registry s1) (hash_word h) n)
    \<and> (\<exists>s2. rewrite_rings E h (filter (\<lambda>(ring, _). ring \<notin> set to_remove) current) s1 = (Inr (), s2)
        \<and> attached (nd_registry s2) (hash_word h) n = None)"
  using node_laws.concurrent_attach_lost[OF assms] .

lemma detach_loses_concurrent_attach_witness:
  "\<exists>s1 s2. attach_ring mem_env (Hash 1) OPEN_RING_NAME sample_session = (Inr (), s1)
     \<and> rewrite_rings mem_env (Hash 1) [] s1 = (Inr (), s2)
     \<and> mem_attached (nd_registry s2) 1 OPEN_RING_NAME = None"
proof -
  have l: "rg_list_resource_rings (en_registry mem_env) (nd_registry sample_session) (hash_word (Hash 1))
      = Inr [(''friends'', [Read])]"
    by (simp add: sample_session_def sample_reg_def mem_attachments_def)
  have f: "mem_attached (nd_registry sample_session) (hash_word (Hash 1)) OPEN_RING_NAME = None"
    by (simp add: sample_session_def sample_attached OPEN_RING_NAME_def)
  have "\<exists>s1. attach_ring mem_env (Hash 1) OPEN_RING_NAME sample_session = (Inr (), s1)"
    by (simp add: attach_ring_def act_simps mem_registry_def)
  then obtain s1 where a: "attach_ring mem_env (Hash 1) OPEN_RING_NAME sample_session = (Inr (), s1)" by blast
  have d: "dom (mem_attached (nd_registry sample_session) (hash_word (Hash 1))) \<subseteq> dom (mem_rings (nd_registry sample_session))"
    using sample_rings by (simp add: sample_session_def sample_attached)
  from detach_loses_concurrent_attach[OF mem_node.node_laws_axioms l f a d, of "[''friends'']"] a
  show ?thesis by auto
qed

text \<open>
  C23: The write of a selective detach overwrites whatever other requests did to the blob's
  attachments since its read: it puts back those that it read.  An attachment made in
  between is lost, and one that was removed in between, by a \<open>detach\<close> that reported
  success, is there again, and with it the access of the ring's members.
\<close>
theorem detach_overwrites_concurrent_changes:
  assumes "node_laws E rings attached gview gtview pview ptview"
    and "rg_list_resource_rings (en_registry E) (nd_registry s) (hash_word h) = Inr current"
    and "dom (attached (nd_registry s) (hash_word h)) \<subseteq> dom (rings (nd_registry s1))"
    and "Read \<in> perms_of (attached (nd_registry s) (hash_word h) n)" "n \<notin> set to_remove"
    and "in_ring (rings (nd_registry s1)) n p"
  shows "\<exists>s2. rewrite_rings E h (filter (\<lambda>(ring, _). ring \<notin> set to_remove) current) s1 = (Inr (), s2)
    \<and> attached (nd_registry s2) = (attached (nd_registry s1))(hash_word h :=
        attached (nd_registry s) (hash_word h) |` (- set to_remove))
    \<and> allowed (rings (nd_registry s2)) (attached (nd_registry s2)) p (hash_word h) Read"
proof -
  from node_laws.rewrite_overwrites[OF assms(1-3), of to_remove] obtain s2 where
    s2: "rewrite_rings E h (filter (\<lambda>(ring, _). ring \<notin> set to_remove) current) s1 = (Inr (), s2)"
      "attached (nd_registry s2) = (attached (nd_registry s1))(hash_word h :=
        attached (nd_registry s) (hash_word h) |` (- set to_remove))"
      "rings (nd_registry s2) = rings (nd_registry s1)" by blast
  have "Read \<in> perms_of (attached (nd_registry s2) (hash_word h) n)"
    using assms(4,5) by (simp add: s2(2))
  with assms(6) s2(3) have "allowed (rings (nd_registry s2)) (attached (nd_registry s2)) p (hash_word h) Read"
    by (auto simp: allowed_iff)
  with s2 show ?thesis by blast
qed

lemma detach_overwrites_concurrent_changes_witness:
  "\<exists>s1 s2. handle_detach mem_env 0 sample_target [] False True sample_session = (Inr (), s1)
     \<and> \<not> allowed (mem_rings (nd_registry s1)) (mem_attached (nd_registry s1)) (EndpointId 5) 1 Read
     \<and> rewrite_rings mem_env (Hash 1) [(''friends'', [Read])] s1 = (Inr (), s2)
     \<and> allowed (mem_rings (nd_registry s2)) (mem_attached (nd_registry s2)) (EndpointId 5) 1 Read"
proof -
  let ?r = "sample_reg\<lparr>mr_attached := []\<rparr>"
  have "\<exists>s1. handle_detach mem_env 0 sample_target [] False True sample_session = (Inr (), s1) \<and> nd_registry s1 = ?r"
    by (simp add: handle_detach_def sample_resolve sample_session_def act_simps mem_registry_def sample_reg_def)
  then obtain s1 where s1: "handle_detach mem_env 0 sample_target [] False True sample_session = (Inr (), s1)"
    "nd_registry s1 = ?r" by blast
  have l: "rg_list_resource_rings (en_registry mem_env) (nd_registry sample_session) (hash_word (Hash 1))
      = Inr [(''friends'', [Read])]"
    by (simp add: sample_session_def sample_reg_def mem_attachments_def)
  have r: "mem_rings ?r = mem_rings sample_reg"
    by (simp add: fun_eq_iff mem_rings_def mem_ring_names_def mem_members_def)
  have d: "dom (mem_attached (nd_registry sample_session) (hash_word (Hash 1))) \<subseteq> dom (mem_rings (nd_registry s1))"
    using sample_rings by (simp add: sample_session_def sample_attached s1(2) r)
  have p: "Read \<in> perms_of (mem_attached (nd_registry sample_session) (hash_word (Hash 1)) ''friends'')"
    by (simp add: sample_session_def sample_attached perms_of_def)
  have m: "in_ring (mem_rings (nd_registry s1)) ''friends'' (EndpointId 5)"
    unfolding s1(2) r by (simp add: in_ring_def mem_members_of mem_members_def sample_reg_def)
  have "\<not> allowed (mem_rings (nd_registry s1)) (mem_attached (nd_registry s1)) (EndpointId 5) 1 Read"
    by (simp add: allowed_def s1(2) mem_attached_def assoc_map_eq mem_attachments_def)
  with detach_overwrites_concurrent_changes[OF mem_node.node_laws_axioms l d p _ m, of "[]"] s1(1)
  show ?thesis by auto
qed

end
