(* ===== verification/ReceiveHandler.thy ===== *)
theory ReceiveHandler
  imports BlobHandlers
begin

text \<open>
  \<open>src/src/daemon/server/handlers/receive.rs\<close>: where a received blob goes, the checks
  before anything is fetched, the download with its forwarded progress, and the message
  of a failure.
\<close>

section \<open>The destination\<close>

definition expand_tilde :: "string \<Rightarrow> string option \<Rightarrow> string" where
  "expand_tilde path home = (case (path_strip_prefix ''~'' path, home) of
     (Some rest, Some home) \<Rightarrow> path_join home rest | _ \<Rightarrow> path)"

datatype resolved_dest = Explicit string | Directory string

definition resolve_dest :: "string option \<Rightarrow> string option \<Rightarrow> string option \<Rightarrow> resolved_dest result" where
  "resolve_dest dest default_receive_dir home =
     (case dest of
        Some dest \<Rightarrow> if dest = [] then bail ''--dest must not be empty'' else Inr (Explicit dest)
      | None \<Rightarrow> Inr (Directory (case default_receive_dir of
          Some d \<Rightarrow> if d = [] then ''.'' else expand_tilde d home
        | None \<Rightarrow> ''.'')))"

definition reject_existing :: "'s os \<Rightarrow> 's \<Rightarrow> string \<Rightarrow> bool \<Rightarrow> string result" where
  "reject_existing Os s expected force_overwrite =
     (if os_exists Os s expected \<and> \<not> force_overwrite
      then bail (''destination '' @ quoted expected @ '' already exists; ''
        @ ''use --dest to choose a different location or --force-overwrite to replace it'')
      else Inr expected)"

definition check_dest :: "'s os \<Rightarrow> 's \<Rightarrow> string \<Rightarrow> string option \<Rightarrow> string \<Rightarrow> bool \<Rightarrow> string result" where
  "check_dest Os s dest name hash_hex force_overwrite =
     reject_existing Os s
       (if os_is_dir Os s dest then path_join dest (case name of Some n \<Rightarrow> n | None \<Rightarrow> hash_hex) else dest)
       force_overwrite"

definition check_dir_dest :: "'s os \<Rightarrow> 's \<Rightarrow> string \<Rightarrow> string option \<Rightarrow> string \<Rightarrow> bool \<Rightarrow> string result" where
  "check_dir_dest Os s dir name hash_hex force_overwrite =
     (if os_exists Os s dir \<and> \<not> os_is_dir Os s dir
      then bail (''receive directory '' @ quoted dir @ '' exists but is not a directory'')
      else reject_existing Os s (path_join dir (case name of Some n \<Rightarrow> n | None \<Rightarrow> hash_hex)) force_overwrite)"

section \<open>Progress and the failure message\<close>

text \<open>The forwarding task: byte events are labelled with the file started last.\<close>

fun forward_progress :: "uuid \<Rightarrow> (nat \<times> nat \<times> string) option \<Rightarrow> progress_event list \<Rightarrow> event list" where
  "forward_progress q current [] = []"
| "forward_progress q current (FileStart idx tot name # evs) = forward_progress q (Some (idx, tot, name)) evs"
| "forward_progress q current (Bytes n tot # evs) =
     (case current of
        Some (fi, ft, name) \<Rightarrow> event_file_progress q (of_nat fi) (of_nat ft) name n tot
      | None \<Rightarrow> event_progress q n tot) # forward_progress q current evs"

fun contains_str :: "string \<Rightarrow> string \<Rightarrow> bool" where
  "contains_str sub [] \<longleftrightarrow> sub = []"
| "contains_str sub (c # s) \<longleftrightarrow> take (length sub) (c # s) = sub \<or> contains_str sub s"

definition transfer_failed :: "iroh \<Rightarrow> endpoint_id \<Rightarrow> anyhow \<Rightarrow> string" where
  "transfer_failed I public_id e =
     ''Transfer failed: '' @ err_alternate e
     @ (if contains_str ''access denied'' (err_to_string e) then
          nl @ nl @ ''Your peer-id: '' @ ir_show_id I public_id @ nl
          @ ''Ask the file owner to run:'' @ nl @ ''  rdrop ring add <ring-name> '' @ ir_show_id I public_id
        else [])"

section \<open>The handler\<close>

text \<open>The download runs on the disk and produces progress events; its result is a value
  because the handler sends the progress before it looks at it.\<close>

definition run_download ::
    "('r, 'g, 'gt, 'p, 'pt, 's) env \<Rightarrow> share_ticket \<Rightarrow> string
     \<Rightarrow> (('r, 'g, 'p, 's) session, unit result \<times> progress_event list) act" where
  "run_download E ticket dest s =
     (case download_impl (en_store E) (en_os E) (en_iroh E) (en_connect E) ticket dest
        \<lparr>rs_disk = nd_disk s, rs_progress = []\<rparr> of
      (r, t) \<Rightarrow> (Inr (r, rs_progress t), s\<lparr>nd_disk := rs_disk t\<rparr>))"

definition handle_receive ::
    "('r, 'g, 'gt, 'p, 'pt, 's) env \<Rightarrow> uuid \<Rightarrow> string \<Rightarrow> string option \<Rightarrow> string option \<Rightarrow> bool
     \<Rightarrow> (('r, 'g, 'p, 's) session, unit) act" where
  "handle_receive E req_id ticket_str dest default_receive_dir force_overwrite =
     bindA (liftA (ticket_from_uri (en_codec E) ticket_str)) (\<lambda>ticket.
     let hash_hex = ir_show_hash (en_iroh E) (st_hash ticket); name = st_name ticket in
     bindA (queryA (\<lambda>s. resolve_dest dest default_receive_dir (os_home (en_os E) (nd_disk s)))) (\<lambda>resolved.
     bindA (queryA (\<lambda>s. case resolved of
         Explicit dest \<Rightarrow> check_dest (en_os E) (nd_disk s) dest name hash_hex force_overwrite
       | Directory dir \<Rightarrow> check_dir_dest (en_os E) (nd_disk s) dir name hash_hex force_overwrite)) (\<lambda>dest_path.
     thenA (diskA (updA (\<lambda>s. case resolved of
         Directory dir \<Rightarrow> ctxs (''creating receive directory '' @ quoted dir) (os_create_dir_all (en_os E) s dir)
       | Explicit _ \<Rightarrow> Inr s)))
    (thenA (send (event_line req_id (''Fetching '' @ hash_hex @ '' from ''
         @ ir_show_id (en_iroh E) (ticket_peer_id ticket)
         @ (case name of Some n \<Rightarrow> '' ('' @ n @ '')'' | None \<Rightarrow> []))))
    (thenA (send (event_line req_id (''Destination: '' @ dest_path)))
    (thenA (send (event_line req_id ''(If interrupted, re-run this command to resume from where it stopped.)''))
    (bindA (run_download E ticket dest_path) (\<lambda>(outcome, evs).
     thenA (forA (forward_progress req_id None evs) send)
       (bindA (liftA (case outcome of
          Inr _ \<Rightarrow> Inr ()
        | Inl e \<Rightarrow> Inl (anyhow_msg (transfer_failed (en_iroh E) (ea_id (en_addr E)) e)))) (\<lambda>_.
        thenA (send (event_line req_id ''Transfer complete.''))
          (send (event_done req_id))))))))))))"

section \<open>The event discipline\<close>

lemma forward_progress_body: "body_events q (forward_progress q current evs)"
  by (induction q current evs rule: forward_progress.induct) (auto split: option.split)

lemma talks_send_all: "body_events q es \<Longrightarrow> talks q (forA es send)"
proof (induction es)
  case (Cons e es)
  then show ?case by (simp add: talks_then talks_send)
qed (simp add: talks_basic)

lemma talks_download [spec_intros]: "talks q (run_download E ticket dest)"
  by (rule talks_quiet) (simp add: run_download_def split: prod.split)

lemma replies_receive [spec_intros]:
  "replies q (handle_receive E q ticket_str dest default_dir force_overwrite)"
  unfolding handle_receive_def
  by (intro spec_intros talks_send_all forward_progress_body; simp)

text \<open>The path that \<open>--dest\<close> or the receive directory stands for.\<close>

definition target_path :: "'s os \<Rightarrow> 's \<Rightarrow> resolved_dest \<Rightarrow> string \<Rightarrow> string" where
  "target_path Os s resolved leaf = (case resolved of
     Explicit dest \<Rightarrow> if os_is_dir Os s dest then path_join dest leaf else dest
   | Directory dir \<Rightarrow> path_join dir leaf)"

definition blob_leaf :: "iroh \<Rightarrow> share_ticket \<Rightarrow> string" where
  "blob_leaf I t = (case st_name t of Some n \<Rightarrow> n | None \<Rightarrow> ir_show_hash I (st_hash t))"

lemma check_target:
  "(case resolved of
      Explicit dest \<Rightarrow> check_dest Os s dest (st_name t) (ir_show_hash I (st_hash t)) force
    | Directory dir \<Rightarrow> check_dir_dest Os s dir (st_name t) (ir_show_hash I (st_hash t)) force) = Inr p \<longleftrightarrow>
   p = target_path Os s resolved (blob_leaf I t)
   \<and> (os_exists Os s p \<longrightarrow> force)
   \<and> (\<forall>dir. resolved = Directory dir \<longrightarrow> os_exists Os s dir \<longrightarrow> os_is_dir Os s dir)"
  by (cases resolved)
    (auto simp: check_dest_def check_dir_dest_def reject_existing_def target_path_def blob_leaf_def)

definition sample_uri :: "share_ticket \<Rightarrow> string" where
  "sample_uri t = unwrap_or (ticket_to_uri ref_codec t) []"

lemma sample_uri: "ticket_from_uri ref_codec (sample_uri t) = Inr t"
proof -
  obtain u where "ticket_to_uri ref_codec t = Inr u" using ref_to_uri by blast
  then show ?thesis using ref_codec.from_uri_to_uri by (simp add: sample_uri_def)
qed

section \<open>Properties\<close>

text \<open>
  C16: Without \<open>--force-overwrite\<close> nothing is fetched and nothing changes when the path
  the blob would be written to exists: not on disk, not in the store, no event.
\<close>
theorem receive_refuses_existing:
  assumes "ticket_from_uri (en_codec E) uri = Inr t"
    and "resolve_dest dest default_dir (os_home (en_os E) (nd_disk s)) = Inr resolved"
    and "os_exists (en_os E) (nd_disk s) (target_path (en_os E) (nd_disk s) resolved (blob_leaf (en_iroh E) t))"
  shows "\<exists>e. handle_receive E q uri dest default_dir False s = (Inl e, s)"
proof -
  let ?check = "case resolved of
      Explicit dest \<Rightarrow> check_dest (en_os E) (nd_disk s) dest (st_name t) (ir_show_hash (en_iroh E) (st_hash t)) False
    | Directory dir \<Rightarrow> check_dir_dest (en_os E) (nd_disk s) dir (st_name t) (ir_show_hash (en_iroh E) (st_hash t)) False"
  have "\<nexists>p. ?check = Inr p" using assms(3) check_target[of "en_os E" "nd_disk s" t "en_iroh E" False resolved] by auto
  then obtain e where "?check = Inl e" by (cases ?check) auto
  with assms(1,2) show ?thesis by (simp add: handle_receive_def act_simps Let_def)
qed

lemma receive_refuses_existing_witness:
  "\<exists>e. handle_receive mem_env 0 (sample_uri (ticket_new sample_addr (Hash 9) (Some ''a.txt''))) (Some ''/x/a.txt'') None False
     sample_session = (Inl e, sample_session)"
proof (rule receive_refuses_existing[where t = "ticket_new sample_addr (Hash 9) (Some ''a.txt'')"])
  show "ticket_from_uri (en_codec mem_env) (sample_uri (ticket_new sample_addr (Hash 9) (Some ''a.txt'')))
      = Inr (ticket_new sample_addr (Hash 9) (Some ''a.txt''))" by (simp add: sample_uri)
  show "resolve_dest (Some ''/x/a.txt'') None (os_home (en_os mem_env) (nd_disk sample_session))
      = Inr (Explicit ''/x/a.txt'')" by (simp add: resolve_dest_def)
qed (simp add: target_path_def mem_os_def sample_session_def sample_disk_def)



end
