(* ===== verification/Server.thy ===== *)
theory Server
  imports ReceiveHandler
begin

text \<open>
  \<open>src/src/daemon/server/mod.rs\<close> and \<open>src/src/daemon/client.rs\<close>: dispatch of a request,
  one connection of the daemon, and the client that reads the reply.  Line framing and
  JSON are a parameter (the record \<open>ipc_codec\<close>).  The central facts: every request is
  answered by a complete reply, and the client ends exactly with it.
\<close>

section \<open>Dispatch\<close>

definition handle_node_id ::
    "('r, 'g, 'gt, 'p, 'pt, 's) env \<Rightarrow> uuid \<Rightarrow> bool \<Rightarrow> (('r, 'g, 'p, 's) session, unit) act" where
  "handle_node_id E req_id qr_code =
     (let peer_id = ir_show_id (en_iroh E) (ea_id (en_addr E)) in
      thenA (send (event_line req_id peer_id))
     (thenA (if qr_code then
          bindA (liftA (ctxs ''failed to generate QR code for peer-id'' (en_qr E peer_id))) (\<lambda>lines.
          thenA (send (event_blank req_id)) (send_lines req_id lines))
        else ret ())
     (thenA (send (event_record req_id (JObj [(''peer_id'', JStr peer_id)])))
        (send (event_done req_id)))))"

text \<open>The records of a member listing; an expiry before the epoch is an error.\<close>

definition member_record ::
    "('r, 'g, 'gt, 'p, 'pt, 's) env \<Rightarrow> uuid \<Rightarrow> ring_peer \<Rightarrow> (('r, 'g, 'p, 's) session, unit) act" where
  "member_record E req_id mem =
     bindA (getA (\<lambda>s. case ok_option (peers_get (en_peers E) (rp_peer mem) (nd_peers s)) of
         Some (Some nick) \<Rightarrow> nick | _ \<Rightarrow> None)) (\<lambda>nickname.
     bindA (liftA (case rp_expires_at mem of
         None \<Rightarrow> Inr []
       | Some at \<Rightarrow> bindR (ctxs ''membership expiry is before the Unix epoch''
           (case duration_since at UNIX_EPOCH of
              None \<Rightarrow> Inl ''second time provided was later than self'' | Some d \<Rightarrow> Inr d)) (\<lambda>d.
           Inr [(''expires_at'', JNum (d_secs d))]))) (\<lambda>expires.
     send (event_record req_id (JObj
       ([(''peer_id'', JStr (ir_show_id (en_iroh E) (rp_peer mem))),
         (''nickname'', json_opt JStr nickname)] @ expires)))))"

definition send_ok ::
    "uuid \<Rightarrow> (('r, 'g, 'p, 's) session, string list) act \<Rightarrow> (('r, 'g, 'p, 's) session, unit) act" where
  "send_ok req_id m = bindA m (\<lambda>lines. thenA (send_lines req_id lines) (send (event_done req_id)))"

definition handle_ring_list ::
    "('r, 'g, 'gt, 'p, 'pt, 's) env \<Rightarrow> uuid \<Rightarrow> (('r, 'g, 'p, 's) session, unit) act" where
  "handle_ring_list E req_id =
     bindA (ring_list_lines E) (\<lambda>lines.
     thenA (send_lines req_id lines)
    (bindA (registryQ (rg_list_rings (en_registry E))) (\<lambda>rings.
     thenA (forA rings (\<lambda>ring. send (event_record req_id (JObj
         [(''name'', JStr ring), (''open'', JBool (ring_is_open ring))]))))
       (send (event_done req_id)))))"

definition handle_ring_members ::
    "('r, 'g, 'gt, 'p, 'pt, 's) env \<Rightarrow> uuid \<Rightarrow> ring \<Rightarrow> (('r, 'g, 'p, 's) session, unit) act" where
  "handle_ring_members E req_id ring =
     bindA (ring_members_lines E ring) (\<lambda>lines.
     thenA (send_lines req_id lines)
    (thenA (if ring \<noteq> OPEN_RING_NAME then
          bindA (registryQ (\<lambda>r. rg_list_ring_peers (en_registry E) r ring)) (\<lambda>members.
            forA members (member_record E req_id))
        else ret ())
       (send (event_done req_id))))"

definition handle_peer_list ::
    "('r, 'g, 'gt, 'p, 'pt, 's) env \<Rightarrow> uuid \<Rightarrow> (('r, 'g, 'p, 's) session, unit) act" where
  "handle_peer_list E req_id =
     bindA (peer_list_lines E) (\<lambda>lines.
     thenA (send_lines req_id lines)
    (bindA (peersQ (peers_list (en_peers E) (en_iroh E))) (\<lambda>peers.
     thenA (forA peers (\<lambda>(peer_id, nick). send (event_record req_id (JObj
         [(''peer_id'', JStr (ir_show_id (en_iroh E) peer_id)), (''nickname'', json_opt JStr nick)]))))
       (send (event_done req_id)))))"

text \<open>\<open>Shutdown\<close> never reaches \<open>handle_op\<close>; its branch there is unreachable.\<close>

fun handle_op ::
    "('r, 'g, 'gt, 'p, 'pt, 's) env \<Rightarrow> string option \<Rightarrow> uuid \<Rightarrow> op \<Rightarrow> (('r, 'g, 'p, 's) session, unit) act" where
  "handle_op E default_dir q (NodeId qr_code) = handle_node_id E q qr_code"
| "handle_op E default_dir q (Import path rings open_ring) = handle_import E q path rings open_ring"
| "handle_op E default_dir q (OpBlobList peer rings) = handle_blob_list E q peer rings"
| "handle_op E default_dir q (BlobRemove target) = handle_blob_remove E q target"
| "handle_op E default_dir q (BlobAttach target rings open_ring) = handle_attach E q target rings open_ring"
| "handle_op E default_dir q (BlobDetach target rings open_ring detach_all) =
     handle_detach E q target rings open_ring detach_all"
| "handle_op E default_dir q (RingNew name) =
     bindA (ring_new_lines E name) (\<lambda>lines.
     thenA (send_lines q lines)
    (thenA (send (event_record q (JObj [(''name'', JStr name)]))) (send (event_done q))))"
| "handle_op E default_dir q RingList = handle_ring_list E q"
| "handle_op E default_dir q (RingAdd ring peer expires_at) =
     send_ok q (ring_add_lines E (ea_id (en_addr E)) ring peer expires_at)"
| "handle_op E default_dir q (RingRemove ring peer) = send_ok q (ring_remove_lines E ring peer)"
| "handle_op E default_dir q (RingMembers ring) = handle_ring_members E q ring"
| "handle_op E default_dir q (PeerAdd peer nickname) =
     bindA (peer_add_lines E peer nickname) (\<lambda>lines.
     thenA (send_lines q lines)
    (thenA (send (event_record q (JObj [(''peer_id'', JStr peer), (''nickname'', json_opt JStr nickname)])))
       (send (event_done q))))"
| "handle_op E default_dir q PeerList = handle_peer_list E q"
| "handle_op E default_dir q (PeerRemove peer) = send_ok q (peer_remove_lines E peer)"
| "handle_op E default_dir q (Receive ticket dest force_overwrite) =
     handle_receive E q ticket dest default_dir force_overwrite"
| "handle_op E default_dir q (OpGrant peer privilege) = handle_grant E q peer privilege"
| "handle_op E default_dir q (OpRevoke peer privilege) = handle_revoke E q peer privilege"
| "handle_op E default_dir q (OpGrants peer privilege) = handle_grants E q peer privilege"
| "handle_op E default_dir q (RemoteBlobList peer) = handle_remote_blob_list E q peer"
| "handle_op E default_dir q Shutdown = fail (anyhow_msg ''handled before handle_op'')"

text \<open>The result: the session afterwards, and whether the daemon was asked to stop.\<close>

definition dispatch ::
    "('r, 'g, 'gt, 'p, 'pt, 's) env \<Rightarrow> string option \<Rightarrow> request \<Rightarrow> ('r, 'g, 'p, 's) session
     \<Rightarrow> ('r, 'g, 'p, 's) session \<times> bool" where
  "dispatch E default_dir req s =
     (if rq_op req = Shutdown then (snd (send (event_done (rq_req_id req)) s), True)
      else (case handle_op E default_dir (rq_req_id req) (rq_op req) s of
          (Inr _, s') \<Rightarrow> (s', False)
        | (Inl e, s') \<Rightarrow> (snd (send (event_error (rq_req_id req) (err_to_string e)) s'), False)))"

lemma replies_send_ok [spec_intros]: "talks q m \<Longrightarrow> replies q (send_ok q m)"
  unfolding send_ok_def by (intro spec_intros)

lemma talks_member_record [spec_intros]: "talks q (member_record E q mem)"
  unfolding member_record_def by (intro spec_intros; simp)

lemma replies_lists [spec_intros]:
  "replies q (handle_node_id E q qr)" "replies q (handle_ring_list E q)"
  "replies q (handle_ring_members E q ring)" "replies q (handle_peer_list E q)"
  unfolding handle_node_id_def handle_ring_list_def handle_ring_members_def handle_peer_list_def
  by (intro spec_intros; simp)+

lemma replies_handle_op: "replies q (handle_op E default_dir q op)"
  by (cases op) (simp only: handle_op.simps; intro spec_intros; simp)+

text \<open>Every request is answered by a complete reply with its own id.\<close>

lemma dispatch_replies:
  assumes "dispatch E default_dir req s = (s', stop)"
  shows "\<exists>es. sn_out s' = sn_out s @ es \<and> complete_reply (rq_req_id req) es"
proof (cases "rq_op req = Shutdown")
  case True
  with assms show ?thesis
    using complete_replyI[of "rq_req_id req" "[]" "event_done (rq_req_id req)"]
    by (auto simp: dispatch_def send_run)
next
  case False
  let ?q = "rq_req_id req"
  obtain r t where run: "handle_op E default_dir ?q (rq_op req) s = (r, t)"
    by (cases "handle_op E default_dir ?q (rq_op req) s")
  from replies_handle_op[of ?q E default_dir "rq_op req"] obtain es where
    es: "body_events ?q es" "sn_out t = sn_out s @ es @ (if is_ok r then [event_done ?q] else [])"
    unfolding replies_def using run by (metis fst_conv snd_conv)
  show ?thesis
  proof (cases r)
    case (Inl e)
    with assms False run es show ?thesis
      using complete_replyI[OF es(1), of "event_error ?q (err_to_string e)"]
      by (auto simp: dispatch_def send_run)
  next
    case (Inr u)
    with assms False run es show ?thesis
      using complete_replyI[OF es(1), of "event_done ?q"] by (auto simp: dispatch_def)
  qed
qed

end
