(* ===== verification/Connection.thy ===== *)
theory Connection
  imports Server
begin

text \<open>
  One connection of the daemon (\<open>handle_connection\<close> and \<open>emit\<close> of
  \<open>src/src/daemon/server/mod.rs\<close>) and the client at its other end
  (\<open>src/src/daemon/client.rs\<close>).  JSON is a parameter, the record \<open>ipc_codec\<close>, whose
  parsers invert its printers (locale \<open>ipc_laws\<close>); a line is framed by its length.
\<close>

definition MAX_LINE_BYTES :: nat where "MAX_LINE_BYTES = 512 * 1024"

record ipc_codec =
  ic_parse_request :: "string \<Rightarrow> string + request"
  ic_value_req_id :: "string \<Rightarrow> uuid option"
  ic_show_request :: "request \<Rightarrow> string + string"
  ic_show_event :: "event \<Rightarrow> string + string"
  ic_parse_event :: "string \<Rightarrow> string + event"

section \<open>The server side\<close>

datatype framed = Eof | TooLong | FrameErr string | LineIn string

definition frame_line :: "string \<Rightarrow> framed" where
  "frame_line l = (if MAX_LINE_BYTES < length l then TooLong else LineIn l)"

text \<open>The socket takes \<open>wr_room\<close> more lines before the client is gone.\<close>

record writer =
  wr_lines :: "string list"
  wr_room :: "nat option"

definition new_writer :: "nat option \<Rightarrow> writer" where
  "new_writer room = \<lparr>wr_lines = [], wr_room = room\<rparr>"

definition emit :: "ipc_codec \<Rightarrow> event \<Rightarrow> writer \<Rightarrow> bool \<times> writer" where
  "emit C e w = (case ic_show_event C e of Inl _ \<Rightarrow> (False, w)
     | Inr json \<Rightarrow> (case wr_room w of
         None \<Rightarrow> (True, w\<lparr>wr_lines := wr_lines w @ [json]\<rparr>)
       | Some 0 \<Rightarrow> (False, w)
       | Some (Suc k) \<Rightarrow> (True, w\<lparr>wr_lines := wr_lines w @ [json], wr_room := Some k\<rparr>)))"

fun emit_all :: "ipc_codec \<Rightarrow> event list \<Rightarrow> writer \<Rightarrow> writer" where
  "emit_all C [] w = w"
| "emit_all C (e # es) w = (case emit C e w of (ok, w') \<Rightarrow> if ok then emit_all C es w' else w')"

text \<open>The operation runs in a task of its own: it is not stopped when the client goes away.
  The events of the connection are those the channel carries, so the session starts
  with none.\<close>

definition handle_connection ::
    "('r, 'g, 'gt, 'p, 'pt, 's) env \<Rightarrow> ipc_codec \<Rightarrow> string option \<Rightarrow> framed \<Rightarrow> ('r, 'g, 'p, 's) session \<Rightarrow> writer
     \<Rightarrow> unit result \<times> ('r, 'g, 'p, 's) session \<times> bool \<times> writer" where
  "handle_connection E C default_dir item s w =
     (case item of
        Eof \<Rightarrow> (Inr (), s, False, w)
      | TooLong \<Rightarrow>
          (Inr (), s, False, snd (emit C (event_error uuid_nil ''request exceeds maximum line length'') w))
      | FrameErr e \<Rightarrow> (Inl (anyhow_msg e), s, False, w)
      | LineIn l \<Rightarrow> (case ic_parse_request C l of
          Inl e \<Rightarrow>
            (let req_id = (case ic_value_req_id C l of Some q \<Rightarrow> q | None \<Rightarrow> uuid_nil) in
             (Inr (), s, False, snd (emit C (event_error req_id e) w)))
        | Inr req \<Rightarrow> (case dispatch E default_dir req (s\<lparr>sn_out := []\<rparr>) of
            (s', stop) \<Rightarrow> (Inr (), s', stop, emit_all C (sn_out s') w))))"

section \<open>The client\<close>

fun client_read :: "ipc_codec \<Rightarrow> framed list \<Rightarrow> event list \<times> unit result" where
  "client_read C [] = ([], bail ''rdrop daemon closed connection before sending Done or Error'')"
| "client_read C (Eof # _) = ([], bail ''rdrop daemon closed connection before sending Done or Error'')"
| "client_read C (TooLong # _) = ([], ctxs ''framing error reading from daemon'' (Inl ''max line length exceeded''))"
| "client_read C (FrameErr e # _) = ([], ctxs ''framing error reading from daemon'' (Inl e))"
| "client_read C (LineIn l # rest) = (case ic_parse_event C l of
     Inl e \<Rightarrow> ([], ctxs (''malformed event from daemon: '' @ l) (Inl e))
   | Inr ev \<Rightarrow> if is_eos ev then ([ev], Inr ())
       else (case client_read C rest of (evs, r) \<Rightarrow> (ev # evs, r)))"

text \<open>The events given to the callback and the result; \<open>connect\<close> is the daemon seen from
  here: it answers a request line with framed lines, or cannot be reached or written to.\<close>

definition client_send ::
    "ipc_codec \<Rightarrow> string \<Rightarrow> string + (string \<Rightarrow> string + framed list) \<Rightarrow> uuid \<Rightarrow> op \<Rightarrow> event list \<times> unit result" where
  "client_send C addr connect q op =
     (case ctxs (''cannot connect to rdrop daemon at '' @ addr @ '' '' @ em_dash @ '' start it with: rdrop daemon start'') connect of
        Inl e \<Rightarrow> ([], Inl e)
      | Inr stream \<Rightarrow> (case lift_err (ic_show_request C \<lparr>rq_req_id = q, rq_op = op\<rparr>) of
          Inl e \<Rightarrow> ([], Inl e)
        | Inr json_req \<Rightarrow> (case lift_err (stream json_req) of
            Inl e \<Rightarrow> ([], Inl e)
          | Inr lines \<Rightarrow> client_read C lines)))"

fun event_text :: "event_kind \<Rightarrow> string option" where
  "event_text (Line t) = Some t"
| "event_text _ = None"

fun last_error :: "string option \<Rightarrow> event list \<Rightarrow> string option" where
  "last_error err [] = err"
| "last_error err (e # es) = last_error (case ev_kind e of Error m \<Rightarrow> Some m | _ \<Rightarrow> err) es"

text \<open>\<open>run\<close>: what is printed, and the result of the command.\<close>

definition client_run ::
    "ipc_codec \<Rightarrow> string \<Rightarrow> string + (string \<Rightarrow> string + framed list) \<Rightarrow> uuid \<Rightarrow> op \<Rightarrow> string list \<times> unit result" where
  "client_run C addr connect q op =
     (case client_send C addr connect q op of (evs, r) \<Rightarrow>
       (List.map_filter (\<lambda>e. event_text (ev_kind e)) evs,
        bindR r (\<lambda>_. case last_error None evs of Some m \<Rightarrow> bail m | None \<Rightarrow> Inr ())))"

section \<open>The two sides together\<close>

locale ipc_laws =
  fixes C :: ipc_codec
  assumes request_inverse: "ic_show_request C req = Inr l \<Longrightarrow> ic_parse_request C l = Inr req"
    and event_inverse: "ic_show_event C e = Inr l \<Longrightarrow> ic_parse_event C l = Inr e"

text \<open>Events that print to lines of admissible length.\<close>

definition sendable :: "ipc_codec \<Rightarrow> event \<Rightarrow> bool" where
  "sendable C e = (case ic_show_event C e of Inl _ \<Rightarrow> False | Inr l \<Rightarrow> length l \<le> MAX_LINE_BYTES)"

definition event_json :: "ipc_codec \<Rightarrow> event \<Rightarrow> string" where
  "event_json C e = (case ic_show_event C e of Inl _ \<Rightarrow> [] | Inr l \<Rightarrow> l)"

lemma sendable_show: "sendable C e \<Longrightarrow> ic_show_event C e = Inr (event_json C e) \<and> length (event_json C e) \<le> MAX_LINE_BYTES"
  by (auto simp: sendable_def event_json_def split: sum.splits)

lemma emit_all_open:
  assumes "\<And>e. e \<in> set es \<Longrightarrow> sendable C e" "wr_room w = None"
  shows "emit_all C es w = w\<lparr>wr_lines := wr_lines w @ map (event_json C) es\<rparr>"
  using assms by (induction es arbitrary: w) (simp_all add: emit_def sendable_show)

text \<open>However the connection breaks, the client was sent a prefix of the reply.\<close>

lemma emit_all_prefix: "\<exists>k. wr_lines (emit_all C es w) = wr_lines w @ map (event_json C) (take k es)"
proof (induction es arbitrary: w)
  case Nil
  show ?case by simp
next
  case (Cons e es)
  obtain ok w' where em: "emit C e w = (ok, w')" by (cases "emit C e w")
  show ?case
  proof (cases ok)
    case False
    with em have "wr_lines w' = wr_lines w"
      by (auto simp: emit_def split: sum.splits option.splits nat.splits)
    with em False show ?thesis by (intro exI[of _ 0]) simp
  next
    case True
    with em have "wr_lines w' = wr_lines w @ [event_json C e]"
      by (auto simp: emit_def event_json_def split: sum.splits option.splits nat.splits)
    moreover obtain k where "wr_lines (emit_all C es w') = wr_lines w' @ map (event_json C) (take k es)"
      using Cons.IH by blast
    ultimately show ?thesis using em True by (intro exI[of _ "Suc k"]) simp
  qed
qed

context ipc_laws
begin

lemma client_read_event:
  assumes "sendable C e"
  shows "client_read C (frame_line (event_json C e) # rest)
    = (if is_eos e then ([e], Inr ()) else (case client_read C rest of (evs, r) \<Rightarrow> (e # evs, r)))"
proof -
  have "ic_parse_event C (event_json C e) = Inr e" using sendable_show[OF assms] event_inverse by blast
  with sendable_show[OF assms] show ?thesis by (simp add: frame_line_def)
qed

lemma client_read_reply:
  assumes "complete_reply q es" "\<And>e. e \<in> set es \<Longrightarrow> sendable C e"
  shows "client_read C (map (frame_line \<circ> event_json C) es @ rest) = (es, Inr ())"
proof -
  from assms(1) obtain body e where es: "es = body @ [e]" and b: "body_events q body" and e: "is_eos e"
    by (auto simp: complete_reply_def)
  have "client_read C (map (frame_line \<circ> event_json C) (body @ [e]) @ rest) = (body @ [e], Inr ())"
    if "\<And>x. x \<in> set (body @ [e]) \<Longrightarrow> sendable C x" "body_events q body" for body
    using that by (induction body) (simp_all add: client_read_event e)
  with assms(2) b es show ?thesis by blast
qed

text \<open>A prefix that misses the last event leaves the client without a result.\<close>

lemma client_read_prefix:
  assumes "body_events q es" "\<And>e. e \<in> set es \<Longrightarrow> sendable C e"
  shows "client_read C (map (frame_line \<circ> event_json C) es)
    = (es, bail ''rdrop daemon closed connection before sending Done or Error'')"
  using assms by (induction es) (simp_all add: client_read_event)

end

section \<open>A reference codec\<close>

text \<open>It prints the events and requests the samples need: a letter, the request id, the text.\<close>

definition tagged :: "char \<Rightarrow> uuid \<Rightarrow> string \<Rightarrow> string" where
  "tagged c q t = c # bytes_str (le_bytes 16 q) @ t"

definition tag_id :: "string \<Rightarrow> uuid" where
  "tag_id l = le_word (str_bytes (take 16 (tl l)))"

lemma tagged_parts [simp]:
  "hd (tagged c q t) = c" "tag_id (tagged c q t) = q" "drop 17 (tagged c q t) = t" "tagged c q t \<noteq> []"
  "length (tagged c q t) = 17 + length t"
  by (simp_all add: tagged_def tag_id_def le_word_le_bytes)

definition mem_ipc :: ipc_codec where
  "mem_ipc = \<lparr>
     ic_parse_request = (\<lambda>l. if l = [] then Inl ''empty''
       else if hd l = CHR ''P'' then Inr \<lparr>rq_req_id = tag_id l, rq_op = PeerRemove (drop 17 l)\<rparr>
       else if hd l = CHR ''S'' then Inr \<lparr>rq_req_id = tag_id l, rq_op = Shutdown\<rparr> else Inl ''unknown''),
     ic_value_req_id = (\<lambda>l. None),
     ic_show_request = (\<lambda>r. case rq_op r of
         PeerRemove p \<Rightarrow> Inr (tagged CHR ''P'' (rq_req_id r) p)
       | Shutdown \<Rightarrow> Inr (tagged CHR ''S'' (rq_req_id r) []) | _ \<Rightarrow> Inl ''unsupported''),
     ic_show_event = (\<lambda>e. case ev_kind e of
         Line t \<Rightarrow> Inr (tagged CHR ''L'' (ev_req_id e) t)
       | Done \<Rightarrow> Inr (tagged CHR ''D'' (ev_req_id e) [])
       | Error t \<Rightarrow> Inr (tagged CHR ''E'' (ev_req_id e) t) | _ \<Rightarrow> Inl ''unsupported''),
     ic_parse_event = (\<lambda>l. if l = [] then Inl ''empty''
       else if hd l = CHR ''L'' then Inr (event_line (tag_id l) (drop 17 l))
       else if hd l = CHR ''D'' then Inr (event_done (tag_id l))
       else if hd l = CHR ''E'' then Inr (event_error (tag_id l) (drop 17 l)) else Inl ''unknown'') \<rparr>"

interpretation mem_ipc: ipc_laws mem_ipc
proof
  fix req l assume "ic_show_request mem_ipc req = Inr l"
  then show "ic_parse_request mem_ipc l = Inr req"
    by (cases req) (auto simp: mem_ipc_def split: op.splits)
next
  fix e l assume "ic_show_event mem_ipc e = Inr l"
  then show "ic_parse_event mem_ipc l = Inr e"
    by (cases e) (auto simp: mem_ipc_def event_line_def event_done_def event_error_def split: event_kind.splits)
qed

section \<open>A request and its reply\<close>

definition op_result :: "op \<Rightarrow> unit result \<Rightarrow> unit result" where
  "op_result op r = (if op = Shutdown then Inr () else (case r of Inr _ \<Rightarrow> Inr () | Inl e \<Rightarrow> bail (err_to_string e)))"

lemma last_error_reply:
  "body_events q body \<Longrightarrow> last_error err (body @ [e]) = (case ev_kind e of Error m \<Rightarrow> Some m | _ \<Rightarrow> err)"
  by (induction body arbitrary: err) (auto simp: is_eos_def split: event_kind.split)

lemma dispatch_last_error:
  assumes d: "dispatch E default_dir \<lparr>rq_req_id = q, rq_op = op\<rparr> (s\<lparr>sn_out := []\<rparr>) = (s', stop)"
  shows "(case last_error None (sn_out s') of Some m \<Rightarrow> bail m | None \<Rightarrow> Inr ())
    = op_result op (fst (handle_op E default_dir q op (s\<lparr>sn_out := []\<rparr>)))"
proof (cases "op = Shutdown")
  case True
  with d have "sn_out s' = [] @ [event_done q]" by (auto simp: dispatch_def send_run)
  with True show ?thesis using last_error_reply[of q "[]" None "event_done q"] by (simp add: event_done_def op_result_def)
next
  case False
  let ?s = "s\<lparr>sn_out := []\<rparr>"
  obtain x t where run: "handle_op E default_dir q op ?s = (x, t)" by (cases "handle_op E default_dir q op ?s")
  from replies_handle_op[of q E default_dir op] obtain es where
    es: "body_events q es" "sn_out t = es @ (if is_ok x then [event_done q] else [])"
    unfolding replies_def using run
    by (metis (no_types, lifting) append_Nil fst_conv session.select_convs(5) session.surjective session.update_convs(5) snd_conv)
  show ?thesis
  proof (cases x)
    case (Inl e)
    with False d run es have "sn_out s' = es @ [event_error q (err_to_string e)]" by (auto simp: dispatch_def send_run)
    with False run Inl show ?thesis using last_error_reply[OF es(1)] by (simp add: event_error_def op_result_def)
  next
    case (Inr u)
    with False d run es have "sn_out s' = es @ [event_done q]" by (auto simp: dispatch_def)
    with False run Inr show ?thesis using last_error_reply[OF es(1)] by (simp add: event_done_def op_result_def)
  qed
qed

text \<open>The daemon as a client sees it, when it serves one connection from the state \<open>s\<close>.\<close>

definition daemon_at ::
    "('r, 'g, 'gt, 'p, 'pt, 's) env \<Rightarrow> ipc_codec \<Rightarrow> string option \<Rightarrow> ('r, 'g, 'p, 's) session \<Rightarrow> string \<Rightarrow> string + framed list" where
  "daemon_at E C default_dir s l = (case handle_connection E C default_dir (frame_line l) s (new_writer None) of
     (_, _, _, w) \<Rightarrow> Inr (map frame_line (wr_lines w)))"

context ipc_laws
begin

lemma connection_reply:
  assumes show_request: "ic_show_request C \<lparr>rq_req_id = q, rq_op = op\<rparr> = Inr l"
    and conn: "handle_connection E C default_dir (LineIn l) s (new_writer None) = (r, s', stop, w)"
    and fits: "\<And>e. e \<in> set (sn_out s') \<Longrightarrow> sendable C e"
  shows "dispatch E default_dir \<lparr>rq_req_id = q, rq_op = op\<rparr> (s\<lparr>sn_out := []\<rparr>) = (s', stop)"
    "client_read C (map frame_line (wr_lines w)) = (sn_out s', Inr ())"
proof -
  let ?req = "\<lparr>rq_req_id = q, rq_op = op\<rparr>"
  have parse: "ic_parse_request C l = Inr ?req" by (rule request_inverse[OF show_request])
  from conn parse show d: "dispatch E default_dir ?req (s\<lparr>sn_out := []\<rparr>) = (s', stop)"
    by (auto simp: handle_connection_def split: prod.splits)
  from conn parse d have w: "w = emit_all C (sn_out s') (new_writer None)"
    by (auto simp: handle_connection_def split: prod.splits)
  from dispatch_replies[OF d] have reply: "complete_reply q (sn_out s')" by simp
  have "wr_lines w = map (event_json C) (sn_out s')"
    unfolding w using emit_all_open[OF fits, where w = "new_writer None"] by (simp add: new_writer_def)
  with client_read_reply[OF reply fits, of "[]"] show "client_read C (map frame_line (wr_lines w)) = (sn_out s', Inr ())"
    by simp
qed

text \<open>Sending to a daemon that serves the connection from \<open>s\<close>.\<close>

lemma client_run_daemon:
  assumes show_request: "ic_show_request C \<lparr>rq_req_id = q, rq_op = op\<rparr> = Inr l" and short: "length l \<le> MAX_LINE_BYTES"
    and d: "dispatch E default_dir \<lparr>rq_req_id = q, rq_op = op\<rparr> (s\<lparr>sn_out := []\<rparr>) = (s', stop)"
    and fits: "\<And>e. e \<in> set (sn_out s') \<Longrightarrow> sendable C e"
  shows "client_run C addr (Inr (daemon_at E C default_dir s)) q op
    = (List.map_filter (\<lambda>e. event_text (ev_kind e)) (sn_out s'),
       op_result op (fst (handle_op E default_dir q op (s\<lparr>sn_out := []\<rparr>))))"
proof -
  obtain r t stop' w where conn: "handle_connection E C default_dir (LineIn l) s (new_writer None) = (r, t, stop', w)"
    by (cases "handle_connection E C default_dir (LineIn l) s (new_writer None)")
  have "t = s'"
    using conn request_inverse[OF show_request] d by (auto simp: handle_connection_def split: prod.splits)
  with conn have c: "handle_connection E C default_dir (LineIn l) s (new_writer None) = (r, s', stop', w)" by simp
  have "daemon_at E C default_dir s l = Inr (map frame_line (wr_lines w))"
    using short c by (simp add: daemon_at_def frame_line_def)
  with connection_reply(2)[OF show_request c fits] dispatch_last_error[OF d] show ?thesis
    by (simp add: client_run_def client_send_def show_request)
qed

end

section \<open>Properties\<close>

text \<open>
  Every request the daemon accepts is answered by a complete reply: events that all
  carry the id of the request, of which the last, and only the last, is \<open>Done\<close> or
  \<open>Error\<close>.
\<close>
theorem dispatch_complete_reply:
  "\<exists>es. sn_out (fst (dispatch E default_dir req s)) = sn_out s @ es \<and> complete_reply (rq_req_id req) es
    \<and> (\<exists>!i. i < length es \<and> is_eos (es ! i))"
  using dispatch_replies[of E default_dir req s] complete_reply_unique by (metis prod.collapse)

text \<open>
  The client sees exactly the events of its request and no other, and its command
  succeeds when the operation did and otherwise fails with the operation's message.
\<close>
theorem client_sees_reply:
  assumes "ipc_laws C" and show_request: "ic_show_request C \<lparr>rq_req_id = q, rq_op = op\<rparr> = Inr l"
    and conn: "handle_connection E C default_dir (LineIn l) s (new_writer None) = (r, s', stop, w)"
    and fits: "\<And>e. e \<in> set (sn_out s') \<Longrightarrow> sendable C e"
  shows "client_send C addr (Inr (\<lambda>_. Inr (map frame_line (wr_lines w)))) q op = (sn_out s', Inr ())
    \<and> snd (client_run C addr (Inr (\<lambda>_. Inr (map frame_line (wr_lines w)))) q op)
      = (if op = Shutdown then Inr () else (case fst (handle_op E default_dir q op (s\<lparr>sn_out := []\<rparr>)) of
          Inr _ \<Rightarrow> Inr () | Inl e \<Rightarrow> bail (err_to_string e)))"
proof -
  note reply = ipc_laws.connection_reply[OF assms(1) show_request conn fits]
  have send: "client_send C addr (Inr (\<lambda>_. Inr (map frame_line (wr_lines w)))) q op = (sn_out s', Inr ())"
    using reply(2) by (simp add: client_send_def show_request)
  with dispatch_last_error[OF reply(1)] show ?thesis unfolding op_result_def by (simp add: client_run_def)
qed

lemma bad_peer_run:
  "handle_op mem_env None 3 (PeerRemove ''zz'') s = (bail ''invalid peer id: invalid hex'', s)"
proof -
  have "hex_word ''zz'' = Inl ''invalid hex''" by (simp add: hex_word_def hex_val_def Let_def)
  then have "parse_peer_id hex_iroh ''zz'' = bail ''invalid peer id: invalid hex''"
    by (simp add: parse_peer_id_def)
  then show ?thesis by (simp add: send_ok_def peer_remove_lines_def act_simps bail_def)
qed

lemma client_sees_reply_witness:
  "\<exists>w :: writer. snd (client_run mem_ipc ''127.0.0.1:60001'' (Inr (\<lambda>_. Inr (map frame_line (wr_lines w)))) 3 (PeerRemove ''zz''))
     = bail ''invalid peer id: invalid hex''"
proof -
  let ?l = "tagged CHR ''P'' 3 ''zz''"
  have l: "ic_show_request mem_ipc \<lparr>rq_req_id = 3, rq_op = PeerRemove ''zz''\<rparr> = Inr ?l" by (simp add: mem_ipc_def)
  obtain r s' stop w where c: "handle_connection mem_env mem_ipc None (LineIn ?l) sample_session (new_writer None) = (r, s', stop, w)"
    by (cases "handle_connection mem_env mem_ipc None (LineIn ?l) sample_session (new_writer None)")
  have "sn_out s' = [event_error 3 ''invalid peer id: invalid hex'']"
    using c mem_ipc.request_inverse[OF l]
    by (auto simp: handle_connection_def dispatch_def bad_peer_run bail_def anyhow_msg_def err_to_string_def
        send_run simp del: handle_op.simps)
  then have fits: "sendable mem_ipc e" if "e \<in> set (sn_out s')" for e
    using that by (simp add: sendable_def mem_ipc_def event_error_def MAX_LINE_BYTES_def)
  note seen = client_sees_reply[where addr = "''127.0.0.1:60001''", OF mem_ipc.ipc_laws_axioms l c fits]
  then have "snd (client_run mem_ipc ''127.0.0.1:60001'' (Inr (\<lambda>_. Inr (map frame_line (wr_lines w)))) 3 (PeerRemove ''zz''))
     = bail ''invalid peer id: invalid hex''"
    by (simp add: bad_peer_run bail_def anyhow_msg_def err_to_string_def del: handle_op.simps)
  then show ?thesis by blast
qed



end
