(* ===== verification/Serde.thy ===== *)
theory Serde
  imports Protocol Strings
begin

text \<open>
  What the program uses of \<open>serde\<close>: encoding of its types as JSON values and decoding of
  their fields by name.  The derive attributes of the program are modelled where they are
  used; here are the field accesses they expand to.  The text form of a value
  (\<open>serde_json\<close>) is a parameter, the record \<open>json_text\<close>, with the law that parsing undoes
  printing; a reference instance shows that the law can be met.
\<close>

type_synonym fields = "(string \<times> json) list"

text \<open>\<open>?\<close> on a decoder: its error is a plain message.\<close>

definition bindS :: "string + 'a \<Rightarrow> ('a \<Rightarrow> string + 'b) \<Rightarrow> string + 'b" where
  "bindS r f = (case r of Inl e \<Rightarrow> Inl e | Inr a \<Rightarrow> f a)"

lemma bindS_simps [simp]: "bindS (Inl e) f = Inl e" "bindS (Inr a) f = f a"
  by (simp_all add: bindS_def)

lemma bindS_Inr: "bindS r f = Inr b \<longleftrightarrow> (\<exists>a. r = Inr a \<and> f a = Inr b)"
  by (cases r) simp_all

section \<open>Values\<close>

definition backquoted :: "string \<Rightarrow> string" where
  "backquoted s = [CHR 0x60] @ s @ [CHR 0x60]"

fun de_str :: "json \<Rightarrow> string + string" where
  "de_str (JStr s) = Inr s"
| "de_str _ = Inl ''invalid type: expected a string''"

fun de_bool :: "json \<Rightarrow> string + bool" where
  "de_bool (JBool b) = Inr b"
| "de_bool _ = Inl ''invalid type: expected a boolean''"

text \<open>An unsigned integer of a given width.\<close>

fun de_nat :: "nat \<Rightarrow> json \<Rightarrow> string + nat" where
  "de_nat w (JNum n) = (if n < 2 ^ w then Inr n else Inl ''invalid value: integer out of range'')"
| "de_nat w _ = Inl ''invalid type: expected an unsigned integer''"

definition de_word :: "json \<Rightarrow> string + 'a::len word" where
  "de_word v = bindS (de_nat LENGTH('a) v) (\<lambda>n. Inr (of_nat n))"

definition se_word :: "'a::len word \<Rightarrow> json" where
  "se_word w = JNum (unat w)"

fun de_all :: "(json \<Rightarrow> string + 'a) \<Rightarrow> json list \<Rightarrow> string + 'a list" where
  "de_all d [] = Inr []"
| "de_all d (v # vs) = bindS (d v) (\<lambda>a. bindS (de_all d vs) (\<lambda>as. Inr (a # as)))"

fun de_list :: "(json \<Rightarrow> string + 'a) \<Rightarrow> json \<Rightarrow> string + 'a list" where
  "de_list d (JArr vs) = de_all d vs"
| "de_list d _ = Inl ''invalid type: expected a sequence''"

definition se_strs :: "string list \<Rightarrow> json" where
  "se_strs ss = JArr (map JStr ss)"

text \<open>\<open>Option<T>\<close>: null is absent.\<close>

fun de_opt :: "(json \<Rightarrow> string + 'a) \<Rightarrow> json \<Rightarrow> string + 'a option" where
  "de_opt d JNull = Inr None"
| "de_opt d v = bindS (d v) (\<lambda>a. Inr (Some a))"

text \<open>A path prints only when it is UTF-8.\<close>

definition se_path :: "string \<Rightarrow> string + json" where
  "se_path p = (if utf8_valid (str_bytes p) then Inr (JStr p) else Inl ''path contains invalid UTF-8 characters'')"

lemma de_word_se_word [simp]: "de_word (se_word w) = Inr (w :: 'a::len word)"
  by (simp add: de_word_def se_word_def unsigned_less)

lemma de_all_strs [simp]: "de_all de_str (map JStr ss) = Inr ss"
  by (induction ss) simp_all

lemma de_list_strs [simp]: "de_list de_str (se_strs ss) = Inr ss"
  by (simp add: se_strs_def)

lemma de_opt_some: "v \<noteq> JNull \<Longrightarrow> de_opt d v = bindS (d v) (\<lambda>a. Inr (Some a))"
  by (cases v) simp_all

lemma se_values [simp]: "se_strs ss \<noteq> JNull" "se_word w \<noteq> JNull"
  by (simp_all add: se_strs_def se_word_def)

section \<open>Fields\<close>

definition get_field :: "fields \<Rightarrow> string \<Rightarrow> string + json option" where
  "get_field fs name = (case filter (\<lambda>(k, _). k = name) fs of
     [] \<Rightarrow> Inr None
   | [(_, v)] \<Rightarrow> Inr (Some v)
   | _ \<Rightarrow> Inl (''duplicate field '' @ backquoted name))"

definition field :: "fields \<Rightarrow> string \<Rightarrow> (json \<Rightarrow> string + 'a) \<Rightarrow> string + 'a" where
  "field fs name d = bindS (get_field fs name) (\<lambda>v. case v of
     None \<Rightarrow> Inl (''missing field '' @ backquoted name) | Some v \<Rightarrow> d v)"

text \<open>A field of type \<open>Option\<close> and a field with a \<open>default\<close> may be missing.\<close>

definition opt_field :: "fields \<Rightarrow> string \<Rightarrow> (json \<Rightarrow> string + 'a) \<Rightarrow> string + 'a option" where
  "opt_field fs name d = bindS (get_field fs name) (\<lambda>v. case v of None \<Rightarrow> Inr None | Some v \<Rightarrow> de_opt d v)"

definition default_field :: "fields \<Rightarrow> string \<Rightarrow> 'a \<Rightarrow> (json \<Rightarrow> string + 'a) \<Rightarrow> string + 'a" where
  "default_field fs name a d = bindS (get_field fs name) (\<lambda>v. case v of None \<Rightarrow> Inr a | Some v \<Rightarrow> d v)"

text \<open>\<open>skip_serializing_if = "Option::is_none"\<close>.\<close>

definition unless_none :: "string \<Rightarrow> ('a \<Rightarrow> json) \<Rightarrow> 'a option \<Rightarrow> fields" where
  "unless_none name f v = (case v of None \<Rightarrow> [] | Some a \<Rightarrow> [(name, f a)])"

named_theorems field_access \<open>computing field accesses\<close>

lemma get_field_Nil [field_access]: "get_field [] name = Inr None"
  by (simp add: get_field_def)

lemma get_field_skip [field_access]: "k \<noteq> name \<Longrightarrow> get_field ((k, v) # fs) name = get_field fs name"
  by (simp add: get_field_def)

lemma get_field_hit [field_access]:
  "name \<notin> fst ` set fs \<Longrightarrow> get_field ((name, v) # fs) name = Inr (Some v)"
proof -
  assume "name \<notin> fst ` set fs"
  then have "filter (\<lambda>(k, _). k = name) fs = []" by (force simp: filter_empty_conv)
  then show ?thesis by (simp add: get_field_def)
qed

lemma get_field_absent: "name \<notin> fst ` set fs \<Longrightarrow> get_field fs name = Inr None"
proof -
  assume "name \<notin> fst ` set fs"
  then have "filter (\<lambda>(k, _). k = name) fs = []" by (force simp: filter_empty_conv)
  then show ?thesis by (simp add: get_field_def)
qed

lemma get_field_append_other:
  "name \<notin> fst ` set gs \<Longrightarrow> get_field (fs @ gs) name = get_field fs name"
proof -
  assume "name \<notin> fst ` set gs"
  then have "filter (\<lambda>(k, _). k = name) gs = []" by (force simp: filter_empty_conv)
  then show ?thesis by (simp add: get_field_def)
qed

text \<open>Dropping null fields leaves every other field as it was.\<close>

definition not_null :: "string \<times> json \<Rightarrow> bool" where "not_null f \<longleftrightarrow> snd f \<noteq> JNull"

lemma filter_filter_swap: "filter P (filter Q xs) = filter Q (filter P xs)"
  by (induction xs) simp_all

lemma get_field_not_null:
  assumes "get_field fs name = Inr v"
  shows "get_field (filter not_null fs) name = Inr (if v = Some JNull then None else v)"
proof -
  let ?f = "filter (\<lambda>(k, _). k = name) fs"
  have "filter (\<lambda>(k, _). k = name) (filter not_null fs) = filter not_null ?f" by (rule filter_filter_swap)
  then have eq: "get_field (filter not_null fs) name = (case filter not_null ?f of [] \<Rightarrow> Inr None
      | [(_, v)] \<Rightarrow> Inr (Some v) | _ \<Rightarrow> Inl (''duplicate field '' @ backquoted name))"
    by (simp add: get_field_def del: filter_filter)
  from assms consider "?f = []" "v = None" | k w where "?f = [(k, w)]" "v = Some w"
    by (auto simp: get_field_def split: list.splits)
  then show ?thesis
  proof cases
    case 1
    then show ?thesis unfolding eq by simp
  next
    case 2
    then show ?thesis unfolding eq by (simp add: not_null_def)
  qed
qed

lemma field_not_null:
  assumes "field fs name d = Inr a" "\<And>b. d JNull \<noteq> Inr b"
  shows "field (filter not_null fs) name d = Inr a"
proof -
  from assms obtain v where v: "get_field fs name = Inr (Some v)" "d v = Inr a"
    by (auto simp: field_def bindS_Inr split: option.splits)
  with assms(2) have "v \<noteq> JNull" by auto
  with get_field_not_null[OF v(1)] v(2) show ?thesis by (simp add: field_def)
qed

lemma opt_field_not_null:
  assumes "opt_field fs name d = Inr a"
  shows "opt_field (filter not_null fs) name d = Inr a"
proof -
  from assms obtain v where v: "get_field fs name = Inr v"
      "(case v of None \<Rightarrow> Inr None | Some w \<Rightarrow> de_opt d w) = Inr a"
    by (auto simp: opt_field_def bindS_Inr)
  show ?thesis using get_field_not_null[OF v(1)] v(2)
    by (cases "v = Some JNull") (simp_all add: opt_field_def)
qed

lemma de_null [simp]: "de_str JNull \<noteq> Inr s" "de_bool JNull \<noteq> Inr b" "de_list d JNull \<noteq> Inr l"
  "de_word JNull \<noteq> Inr w"
  by (simp_all add: de_word_def)

lemma not_null_keys: "k \<notin> fst ` set fs \<Longrightarrow> k \<notin> fst ` set (filter not_null fs)"
  by auto

section \<open>Text\<close>

record json_text =
  jt_print :: "json \<Rightarrow> string"
  jt_pretty :: "json \<Rightarrow> string"
  jt_parse :: "string \<Rightarrow> string + json"

locale json_text_laws =
  fixes J :: json_text
  assumes parse_print: "jt_parse J (jt_print J v) = Inr v"
    and parse_pretty: "jt_parse J (jt_pretty J v) = Inr v"

text \<open>A reference instance: values in postfix form, read by a stack machine.\<close>

definition stack_str :: "string \<Rightarrow> string" where
  "stack_str s = CHR ''s'' # concat (map (\<lambda>c. [CHR ''.'', c]) s)"

primrec stack_print :: "json \<Rightarrow> string" where
  "stack_print JNull = ''n''"
| "stack_print (JBool b) = (if b then ''t'' else ''f'')"
| "stack_print (JNum n) = CHR ''i'' # replicate n CHR ''+''"
| "stack_print (JStr s) = stack_str s"
| "stack_print (JArr vs) = CHR ''['' # concat (map (\<lambda>v. v @ '','') (map stack_print vs))"
| "stack_print (JObj fs) = CHR ''{'' # concat (map (\<lambda>(k, v). stack_str k @ v @ '':'') (map (map_prod id stack_print) fs))"

fun stack_push :: "char \<Rightarrow> json list \<Rightarrow> json list option" where
  "stack_push c st = (if c = CHR ''n'' then Some (JNull # st)
     else if c = CHR ''t'' then Some (JBool True # st)
     else if c = CHR ''f'' then Some (JBool False # st)
     else if c = CHR ''i'' then Some (JNum 0 # st)
     else if c = CHR ''s'' then Some (JStr [] # st)
     else if c = CHR ''['' then Some (JArr [] # st)
     else if c = CHR ''{'' then Some (JObj [] # st)
     else if c = CHR ''+'' then (case st of JNum n # st' \<Rightarrow> Some (JNum (Suc n) # st') | _ \<Rightarrow> None)
     else if c = CHR '','' then (case st of v # JArr vs # st' \<Rightarrow> Some (JArr (vs @ [v]) # st') | _ \<Rightarrow> None)
     else if c = CHR '':'' then (case st of v # JStr k # JObj fs # st' \<Rightarrow> Some (JObj (fs @ [(k, v)]) # st') | _ \<Rightarrow> None)
     else None)"

fun stack_run :: "string \<Rightarrow> json list \<Rightarrow> json list option" where
  "stack_run [] st = Some st"
| "stack_run (c # s) st =
     (if c = CHR ''.'' then (case (s, st) of
         (d # s', JStr t # st') \<Rightarrow> stack_run s' (JStr (t @ [d]) # st') | _ \<Rightarrow> None)
      else (case stack_push c st of None \<Rightarrow> None | Some st' \<Rightarrow> stack_run s st'))"

definition stack_json :: json_text where
  "stack_json = \<lparr>jt_print = stack_print, jt_pretty = stack_print,
     jt_parse = (\<lambda>s. case stack_run s [] of Some [v] \<Rightarrow> Inr v | _ \<Rightarrow> Inl ''malformed JSON'')\<rparr>"

lemma stack_run_chars:
  "stack_run (concat (map (\<lambda>c. [CHR ''.'', c]) s) @ rest) (JStr t # st) = stack_run rest (JStr (t @ s) # st)"
  by (induction s arbitrary: t) simp_all

lemma stack_run_str: "stack_run (stack_str s @ rest) st = stack_run rest (JStr s # st)"
  using stack_run_chars[of s rest "[]" st] by (simp add: stack_str_def)

lemma stack_run_ones:
  "stack_run (replicate n CHR ''+'' @ rest) (JNum m # st) = stack_run rest (JNum (m + n) # st)"
  by (induction n arbitrary: m) simp_all

lemma stack_run_arr:
  "(\<And>v rest st. v \<in> set vs \<Longrightarrow> stack_run (stack_print v @ rest) st = stack_run rest (v # st)) \<Longrightarrow>
     stack_run (concat (map (\<lambda>v. v @ '','') (map stack_print vs)) @ rest) (JArr us # st) = stack_run rest (JArr (us @ vs) # st)"
  by (induction vs arbitrary: us) simp_all

lemma stack_run_obj:
  "(\<And>k v rest st. (k, v) \<in> set fs \<Longrightarrow> stack_run (stack_print v @ rest) st = stack_run rest (v # st)) \<Longrightarrow>
     stack_run (concat (map (\<lambda>(k, v). stack_str k @ v @ '':'') (map (map_prod id stack_print) fs)) @ rest) (JObj gs # st)
     = stack_run rest (JObj (gs @ fs) # st)"
proof (induction fs arbitrary: gs)
  case (Cons f fs)
  obtain k v where f: "f = (k, v)" by (cases f)
  have v: "stack_run (stack_print v @ r) t = stack_run r (v # t)" for r t using Cons.prems[of k v] f by simp
  have rest: "stack_run (concat (map (\<lambda>(k, v). stack_str k @ v @ '':'') (map (map_prod id stack_print) fs)) @ rest)
      (JObj (gs @ [(k, v)]) # st) = stack_run rest (JObj ((gs @ [(k, v)]) @ fs) # st)"
    using Cons.prems by (intro Cons.IH) auto
  show ?case using rest by (simp add: f stack_run_str v id_def del: map_map)
qed simp

lemma stack_run_print: "stack_run (stack_print v @ rest) st = stack_run rest (v # st)"
proof (induction v arbitrary: rest st)
  case (JNum n)
  show ?case using stack_run_ones[of n rest 0 st] by simp
next
  case (JStr s)
  show ?case by (simp add: stack_run_str)
next
  case (JArr vs)
  show ?case using stack_run_arr[of vs rest "[]" st] JArr by simp
next
  case (JObj fs)
  have "stack_run (stack_print v @ r) t = stack_run r (v # t)" if "(k, v) \<in> set fs" for k v r t
    using JObj[OF that, of v] by simp
  then show ?case using stack_run_obj[of fs rest "[]" st] by simp
qed simp_all

interpretation stack_json: json_text_laws stack_json
  using stack_run_print[where rest = "[]"] by unfold_locales (simp_all add: stack_json_def)

end
