(* ===== verification/Wire.thy ===== *)
theory Wire
  imports Connection Serde "HOL-Library.Multiset"
begin

text \<open>
  The JSON of the daemon protocol: what \<open>#[derive(Serialize, Deserialize)]\<close> makes of the
  types of \<open>src/src/daemon/protocol.rs\<close>.  A request is its id and, flattened beside it,
  the operation, tagged by the field \<open>op\<close>; an event is its id and the payload, tagged by
  \<open>type\<close>.  The text of a JSON value and of a UUID are parameters (\<open>json_text\<close>,
  \<open>uuid_text\<close>); with them the encodings give the codec that \<open>Connection\<close> assumes.
\<close>

record uuid_text =
  ut_show :: "uuid \<Rightarrow> string"
  ut_parse :: "string \<Rightarrow> string + uuid"

section \<open>Operations\<close>

fun op_tag :: "op \<Rightarrow> string" where
  "op_tag (NodeId _) = ''node_id''"
| "op_tag (Import _ _ _) = ''import''"
| "op_tag (OpBlobList _ _) = ''blob_list''"
| "op_tag (BlobRemove _) = ''blob_remove''"
| "op_tag (BlobAttach _ _ _) = ''blob_attach''"
| "op_tag (BlobDetach _ _ _ _) = ''blob_detach''"
| "op_tag (RingNew _) = ''ring_new''"
| "op_tag RingList = ''ring_list''"
| "op_tag (RingAdd _ _ _) = ''ring_add''"
| "op_tag (RingRemove _ _) = ''ring_remove''"
| "op_tag (RingMembers _) = ''ring_members''"
| "op_tag (Receive _ _ _) = ''receive''"
| "op_tag (OpGrant _ _) = ''grant''"
| "op_tag (OpRevoke _ _) = ''revoke''"
| "op_tag (OpGrants _ _) = ''grants''"
| "op_tag (RemoteBlobList _) = ''remote_blob_list''"
| "op_tag (PeerAdd _ _) = ''peer_add''"
| "op_tag PeerList = ''peer_list''"
| "op_tag (PeerRemove _) = ''peer_remove''"
| "op_tag Shutdown = ''shutdown''"

text \<open>A path that is not UTF-8 does not print.\<close>

fun op_fields :: "op \<Rightarrow> string + fields" where
  "op_fields (NodeId qr_code) = Inr [(''qr_code'', JBool qr_code)]"
| "op_fields (Import path rings opn) = bindS (se_path path) (\<lambda>p.
     Inr [(''path'', p), (''rings'', se_strs rings), (''open'', JBool opn)])"
| "op_fields (OpBlobList peer rings) = Inr [(''peer'', json_opt JStr peer), (''rings'', json_opt se_strs rings)]"
| "op_fields (BlobRemove target) = Inr [(''target'', JStr target)]"
| "op_fields (BlobAttach target rings opn) =
     Inr [(''target'', JStr target), (''rings'', se_strs rings), (''open'', JBool opn)]"
| "op_fields (BlobDetach target rings opn al) =
     Inr [(''target'', JStr target), (''rings'', se_strs rings), (''open'', JBool opn), (''all'', JBool al)]"
| "op_fields (RingNew name) = Inr [(''name'', JStr name)]"
| "op_fields RingList = Inr []"
| "op_fields (RingAdd ring peer expires_at) =
     Inr ([(''ring'', JStr ring), (''peer'', JStr peer)] @ unless_none ''expires_at'' se_word expires_at)"
| "op_fields (RingRemove ring peer) = Inr [(''ring'', JStr ring), (''peer'', JStr peer)]"
| "op_fields (RingMembers ring) = Inr [(''ring'', JStr ring)]"
| "op_fields (Receive ticket dest force_overwrite) =
     bindS (case dest of None \<Rightarrow> Inr JNull | Some d \<Rightarrow> se_path d) (\<lambda>d.
       Inr [(''ticket'', JStr ticket), (''dest'', d), (''force_overwrite'', JBool force_overwrite)])"
| "op_fields (OpGrant peer privilege) = Inr [(''peer'', JStr peer), (''privilege'', JStr privilege)]"
| "op_fields (OpRevoke peer privilege) = Inr [(''peer'', JStr peer), (''privilege'', JStr privilege)]"
| "op_fields (OpGrants peer privilege) =
     Inr (unless_none ''peer'' JStr peer @ unless_none ''privilege'' JStr privilege)"
| "op_fields (RemoteBlobList peer) = Inr [(''peer'', JStr peer)]"
| "op_fields (PeerAdd peer nickname) = Inr ((''peer'', JStr peer) # unless_none ''nickname'' JStr nickname)"
| "op_fields PeerList = Inr []"
| "op_fields (PeerRemove peer) = Inr [(''peer'', JStr peer)]"
| "op_fields Shutdown = Inr []"

definition op_decoders :: "(string \<times> (fields \<Rightarrow> string + op)) list" where
  "op_decoders = [
     (''node_id'', \<lambda>fs. bindS (field fs ''qr_code'' de_bool) (\<lambda>b. Inr (NodeId b))),
     (''import'', \<lambda>fs. bindS (field fs ''path'' de_str) (\<lambda>p. bindS (field fs ''rings'' (de_list de_str)) (\<lambda>r.
        bindS (field fs ''open'' de_bool) (\<lambda>b. Inr (Import p r b))))),
     (''blob_list'', \<lambda>fs. bindS (opt_field fs ''peer'' de_str) (\<lambda>p.
        bindS (opt_field fs ''rings'' (de_list de_str)) (\<lambda>r. Inr (OpBlobList p r)))),
     (''blob_remove'', \<lambda>fs. bindS (field fs ''target'' de_str) (\<lambda>t. Inr (BlobRemove t))),
     (''blob_attach'', \<lambda>fs. bindS (field fs ''target'' de_str) (\<lambda>t. bindS (field fs ''rings'' (de_list de_str)) (\<lambda>r.
        bindS (field fs ''open'' de_bool) (\<lambda>b. Inr (BlobAttach t r b))))),
     (''blob_detach'', \<lambda>fs. bindS (field fs ''target'' de_str) (\<lambda>t. bindS (field fs ''rings'' (de_list de_str)) (\<lambda>r.
        bindS (field fs ''open'' de_bool) (\<lambda>b. bindS (field fs ''all'' de_bool) (\<lambda>a. Inr (BlobDetach t r b a)))))),
     (''ring_new'', \<lambda>fs. bindS (field fs ''name'' de_str) (\<lambda>n. Inr (RingNew n))),
     (''ring_list'', \<lambda>fs. Inr RingList),
     (''ring_add'', \<lambda>fs. bindS (field fs ''ring'' de_str) (\<lambda>r. bindS (field fs ''peer'' de_str) (\<lambda>p.
        bindS (opt_field fs ''expires_at'' de_word) (\<lambda>e. Inr (RingAdd r p e))))),
     (''ring_remove'', \<lambda>fs. bindS (field fs ''ring'' de_str) (\<lambda>r. bindS (field fs ''peer'' de_str) (\<lambda>p.
        Inr (RingRemove r p)))),
     (''ring_members'', \<lambda>fs. bindS (field fs ''ring'' de_str) (\<lambda>r. Inr (RingMembers r))),
     (''receive'', \<lambda>fs. bindS (field fs ''ticket'' de_str) (\<lambda>t. bindS (opt_field fs ''dest'' de_str) (\<lambda>d.
        bindS (field fs ''force_overwrite'' de_bool) (\<lambda>b. Inr (Receive t d b))))),
     (''grant'', \<lambda>fs. bindS (field fs ''peer'' de_str) (\<lambda>p. bindS (field fs ''privilege'' de_str) (\<lambda>v.
        Inr (OpGrant p v)))),
     (''revoke'', \<lambda>fs. bindS (field fs ''peer'' de_str) (\<lambda>p. bindS (field fs ''privilege'' de_str) (\<lambda>v.
        Inr (OpRevoke p v)))),
     (''grants'', \<lambda>fs. bindS (opt_field fs ''peer'' de_str) (\<lambda>p. bindS (opt_field fs ''privilege'' de_str) (\<lambda>v.
        Inr (OpGrants p v)))),
     (''remote_blob_list'', \<lambda>fs. bindS (field fs ''peer'' de_str) (\<lambda>p. Inr (RemoteBlobList p))),
     (''peer_add'', \<lambda>fs. bindS (field fs ''peer'' de_str) (\<lambda>p. bindS (opt_field fs ''nickname'' de_str) (\<lambda>n.
        Inr (PeerAdd p n)))),
     (''peer_list'', \<lambda>fs. Inr PeerList),
     (''peer_remove'', \<lambda>fs. bindS (field fs ''peer'' de_str) (\<lambda>p. Inr (PeerRemove p))),
     (''shutdown'', \<lambda>fs. Inr Shutdown)]"

definition tagged_union :: "(string \<times> (fields \<Rightarrow> string + 'a)) list \<Rightarrow> string \<Rightarrow> fields \<Rightarrow> string + 'a" where
  "tagged_union ds tag fs = bindS (field fs tag de_str) (\<lambda>t. case map_of ds t of
     None \<Rightarrow> Inl (''unknown variant '' @ backquoted t) | Some d \<Rightarrow> d fs)"

definition op_from_fields :: "fields \<Rightarrow> string + op" where
  "op_from_fields = tagged_union op_decoders ''op''"

section \<open>Requests\<close>

definition request_to_json :: "uuid_text \<Rightarrow> request \<Rightarrow> string + json" where
  "request_to_json U req = bindS (op_fields (rq_op req)) (\<lambda>fs.
     Inr (JObj ([(''req_id'', JStr (ut_show U (rq_req_id req))), (''op'', JStr (op_tag (rq_op req)))] @ fs)))"

definition de_uuid :: "uuid_text \<Rightarrow> json \<Rightarrow> string + uuid" where
  "de_uuid U v = bindS (de_str v) (ut_parse U)"

fun request_from_json :: "uuid_text \<Rightarrow> json \<Rightarrow> string + request" where
  "request_from_json U (JObj fs) = bindS (field fs ''req_id'' (de_uuid U)) (\<lambda>q.
     bindS (op_from_fields fs) (\<lambda>op. Inr \<lparr>rq_req_id = q, rq_op = op\<rparr>))"
| "request_from_json U _ = Inl ''invalid type: expected a map''"

text \<open>The id that an unreadable request is answered with: the last field of that name in the
  value, when it is a string and a UUID.\<close>

fun value_req_id :: "uuid_text \<Rightarrow> json \<Rightarrow> uuid option" where
  "value_req_id U (JObj fs) = (case map_of (rev fs) ''req_id'' of
     Some (JStr s) \<Rightarrow> (case ut_parse U s of Inl _ \<Rightarrow> None | Inr q \<Rightarrow> Some q) | _ \<Rightarrow> None)"
| "value_req_id U _ = None"

section \<open>Events\<close>

fun kind_tag :: "event_kind \<Rightarrow> string" where
  "kind_tag (Line _) = ''line''"
| "kind_tag (Progress _ _) = ''progress''"
| "kind_tag (FileProgress _ _ _ _ _) = ''file_progress''"
| "kind_tag Done = ''done''"
| "kind_tag (Error _) = ''error''"
| "kind_tag (Record _) = ''record''"

fun kind_fields :: "event_kind \<Rightarrow> fields" where
  "kind_fields (Line txt) = [(''text'', JStr txt)]"
| "kind_fields (Progress n tot) = [(''done'', se_word n), (''total'', se_word tot)]"
| "kind_fields (FileProgress fi ft fname n tot) =
     [(''file_index'', se_word fi), (''file_total'', se_word ft), (''file_name'', JStr fname),
      (''done'', se_word n), (''total'', se_word tot)]"
| "kind_fields Done = []"
| "kind_fields (Error msg) = [(''message'', JStr msg)]"
| "kind_fields (Record v) = [(''value'', v)]"

definition kind_decoders :: "(string \<times> (fields \<Rightarrow> string + event_kind)) list" where
  "kind_decoders = [
     (''line'', \<lambda>fs. bindS (field fs ''text'' de_str) (\<lambda>t. Inr (Line t))),
     (''progress'', \<lambda>fs. bindS (field fs ''done'' de_word) (\<lambda>n. bindS (field fs ''total'' de_word) (\<lambda>t.
        Inr (Progress n t)))),
     (''file_progress'', \<lambda>fs. bindS (field fs ''file_index'' de_word) (\<lambda>i. bindS (field fs ''file_total'' de_word) (\<lambda>k.
        bindS (field fs ''file_name'' de_str) (\<lambda>f. bindS (field fs ''done'' de_word) (\<lambda>n.
          bindS (field fs ''total'' de_word) (\<lambda>t. Inr (FileProgress i k f n t))))))),
     (''done'', \<lambda>fs. Inr Done),
     (''error'', \<lambda>fs. bindS (field fs ''message'' de_str) (\<lambda>m. Inr (Error m))),
     (''record'', \<lambda>fs. bindS (field fs ''value'' Inr) (\<lambda>v. Inr (Record v)))]"

definition event_to_json :: "uuid_text \<Rightarrow> event \<Rightarrow> json" where
  "event_to_json U e = JObj ([(''req_id'', JStr (ut_show U (ev_req_id e))), (''type'', JStr (kind_tag (ev_kind e)))]
     @ kind_fields (ev_kind e))"

fun event_from_json :: "uuid_text \<Rightarrow> json \<Rightarrow> string + event" where
  "event_from_json U (JObj fs) = bindS (field fs ''req_id'' (de_uuid U)) (\<lambda>q.
     bindS (tagged_union kind_decoders ''type'' fs) (\<lambda>k. Inr \<lparr>ev_req_id = q, ev_kind = k\<rparr>))"
| "event_from_json U _ = Inl ''invalid type: expected a map''"

definition json_codec :: "json_text \<Rightarrow> uuid_text \<Rightarrow> ipc_codec" where
  "json_codec J U = \<lparr>
     ic_parse_request = (\<lambda>l. bindS (jt_parse J l) (request_from_json U)),
     ic_value_req_id = (\<lambda>l. case jt_parse J l of Inl _ \<Rightarrow> None | Inr v \<Rightarrow> value_req_id U v),
     ic_show_request = (\<lambda>req. bindS (request_to_json U req) (\<lambda>v. Inr (jt_print J v))),
     ic_show_event = (\<lambda>e. Inr (jt_print J (event_to_json U e))),
     ic_parse_event = (\<lambda>l. bindS (jt_parse J l) (event_from_json U)) \<rparr>"

section \<open>What is read from the fields\<close>

text \<open>Two objects whose fields are related read as the same operation when every single
  field access carries over.  The locale proves it once; the interpretations are objects
  without their null fields and objects that differ in order and in unknown fields.\<close>

definition request_keys :: "string list" where
  "request_keys = [''req_id'', ''op'', ''qr_code'', ''path'', ''rings'', ''open'', ''peer'', ''target'', ''all'', ''name'',
     ''ring'', ''expires_at'', ''ticket'', ''dest'', ''force_overwrite'', ''privilege'', ''nickname'']"

definition carries :: "(fields \<Rightarrow> fields \<Rightarrow> bool) \<Rightarrow> (fields \<Rightarrow> string + 'a) \<Rightarrow> bool" where
  "carries rel d \<longleftrightarrow> (\<forall>fs gs a. rel fs gs \<longrightarrow> d fs = Inr a \<longrightarrow> d gs = Inr a)"

lemma carriesD: "carries rel d \<Longrightarrow> rel fs gs \<Longrightarrow> d fs = Inr a \<Longrightarrow> d gs = Inr a"
  unfolding carries_def by blast

lemma carries_ret: "carries rel (\<lambda>fs. Inr a)"
  by (simp add: carries_def)

lemma carries_bind:
  assumes "carries rel d" "\<And>a. carries rel (f a)"
  shows "carries rel (\<lambda>fs. bindS (d fs) (\<lambda>a. f a fs))"
  unfolding carries_def bindS_Inr using assms carriesD by (metis (no_types))

locale field_view =
  fixes rel :: "fields \<Rightarrow> fields \<Rightarrow> bool"
  assumes rel_get: "rel fs gs \<Longrightarrow> name \<in> set request_keys \<Longrightarrow> get_field fs name = Inr v \<Longrightarrow>
      get_field gs name = Inr v \<or> v = Some JNull \<and> get_field gs name = Inr None"
begin

lemma carries_field:
  assumes "name \<in> set request_keys" "\<And>b. d JNull \<noteq> Inr b"
  shows "carries rel (\<lambda>fs. field fs name d)"
  unfolding carries_def
proof (intro allI impI)
  fix fs gs a assume r: "rel fs gs" and f: "field fs name d = Inr a"
  from f obtain v where v: "get_field fs name = Inr (Some v)" "d v = Inr a"
    by (auto simp: field_def bindS_Inr split: option.splits)
  with assms(2) have "v \<noteq> JNull" by auto
  with rel_get[OF r assms(1) v(1)] v(2) show "field gs name d = Inr a" by (simp add: field_def)
qed

lemma carries_opt_field:
  assumes "name \<in> set request_keys"
  shows "carries rel (\<lambda>fs. opt_field fs name d)"
  unfolding carries_def
proof (intro allI impI)
  fix fs gs a assume r: "rel fs gs" and f: "opt_field fs name d = Inr a"
  from f obtain v where v: "get_field fs name = Inr v" "(case v of None \<Rightarrow> Inr None | Some w \<Rightarrow> de_opt d w) = Inr a"
    by (auto simp: opt_field_def bindS_Inr)
  with rel_get[OF r assms v(1)] show "opt_field gs name d = Inr a" by (auto simp: opt_field_def)
qed

lemmas carries_rules = carries_ret carries_bind carries_field carries_opt_field

lemma decoders_carry: "map_of op_decoders t = Some d \<Longrightarrow> carries rel d"
proof -
  have "\<forall>p \<in> set op_decoders. carries rel (snd p)"
    unfolding op_decoders_def list.set ball_simps snd_conv
    by (intro conjI TrueI carries_rules) (simp_all add: request_keys_def)
  then show "map_of op_decoders t = Some d \<Longrightarrow> carries rel d" by (metis map_of_SomeD snd_conv)
qed

lemma carries_op: "carries rel op_from_fields"
  unfolding carries_def
proof (intro allI impI)
  fix fs gs op assume r: "rel fs gs" and f: "op_from_fields fs = Inr op"
  from f obtain t d where t: "field fs ''op'' de_str = Inr t" and d: "map_of op_decoders t = Some d" "d fs = Inr op"
    by (auto simp: op_from_fields_def tagged_union_def bindS_Inr split: option.splits)
  have "field gs ''op'' de_str = Inr t"
    by (rule carriesD[OF carries_field r t]) (simp_all add: request_keys_def)
  moreover have "d gs = Inr op" by (rule carriesD[OF decoders_carry[OF d(1)] r d(2)])
  ultimately show "op_from_fields gs = Inr op" using d(1) by (simp add: op_from_fields_def tagged_union_def)
qed

lemma carries_request:
  assumes "rel fs gs" "request_from_json U (JObj fs) = Inr req"
  shows "request_from_json U (JObj gs) = Inr req"
proof -
  from assms(2) obtain q op where q: "field fs ''req_id'' (de_uuid U) = Inr q" and op: "op_from_fields fs = Inr op"
      and req: "req = \<lparr>rq_req_id = q, rq_op = op\<rparr>"
    by (auto simp: bindS_Inr)
  have "field gs ''req_id'' (de_uuid U) = Inr q"
    by (rule carriesD[OF carries_field assms(1) q]) (simp_all add: request_keys_def de_uuid_def)
  with carriesD[OF carries_op assms(1) op] req show ?thesis by simp
qed

end

text \<open>Dropping null fields.\<close>

interpretation no_nulls: field_view "\<lambda>fs gs. gs = filter not_null fs"
proof
  fix fs gs name v assume "gs = filter not_null fs" "get_field fs name = Inr v"
  with get_field_not_null[of fs name v]
  show "get_field gs name = Inr v \<or> v = Some JNull \<and> get_field gs name = Inr None" by (simp split: if_splits)
qed

text \<open>The same known fields, in any order.\<close>

definition same_known :: "fields \<Rightarrow> fields \<Rightarrow> bool" where
  "same_known fs gs \<longleftrightarrow> mset (filter (\<lambda>f. fst f \<in> set request_keys) fs) = mset (filter (\<lambda>f. fst f \<in> set request_keys) gs)"

lemma same_known_sym: "same_known fs gs \<Longrightarrow> same_known gs fs"
  by (simp add: same_known_def)

lemma get_field_mset:
  assumes "mset (filter (\<lambda>f. fst f = name) fs) = mset (filter (\<lambda>f. fst f = name) gs)" "get_field fs name = Inr v"
  shows "get_field gs name = Inr v"
proof -
  have g: "get_field hs name = (case filter (\<lambda>f. fst f = name) hs of [] \<Rightarrow> Inr None | [(_, v)] \<Rightarrow> Inr (Some v)
      | _ \<Rightarrow> Inl (''duplicate field '' @ backquoted name))" for hs
    unfolding get_field_def by (simp add: case_prod_beta')
  from assms(2) consider "filter (\<lambda>f. fst f = name) fs = []" "v = None"
    | k w where "filter (\<lambda>f. fst f = name) fs = [(k, w)]" "v = Some w"
    unfolding g by (auto split: list.splits)
  then show ?thesis
  proof cases
    case 1
    then have "filter (\<lambda>f. fst f = name) gs = []" using assms(1) by (metis mset_zero_iff mset.simps(1))
    with 1 show ?thesis unfolding g by simp
  next
    case 2
    then have "filter (\<lambda>f. fst f = name) gs = [(k, w)]" using assms(1) by (metis mset_single_iff)
    with 2 show ?thesis unfolding g by simp
  qed
qed

lemma same_known_field:
  assumes "same_known fs gs" "name \<in> set request_keys"
  shows "mset (filter (\<lambda>f. fst f = name) fs) = mset (filter (\<lambda>f. fst f = name) gs)"
proof -
  have "filter (\<lambda>f. fst f = name) hs = filter (\<lambda>f. fst f = name) (filter (\<lambda>f. fst f \<in> set request_keys) hs)" for hs :: fields
    using assms(2) by (induction hs) auto
  with assms(1) show ?thesis unfolding same_known_def by (metis mset_filter)
qed

interpretation known: field_view same_known
  using get_field_mset same_known_field by unfold_locales blast

section \<open>Round trips\<close>

lemma field_steps [field_access]:
  "k \<noteq> name \<Longrightarrow> field ((k, v) # fs) name d = field fs name d"
  "name \<notin> fst ` set fs \<Longrightarrow> field ((name, v) # fs) name d = d v"
  "k \<noteq> name \<Longrightarrow> opt_field ((k, v) # fs) name d' = opt_field fs name d'"
  "name \<notin> fst ` set fs \<Longrightarrow> opt_field ((name, v) # fs) name d' = de_opt d' v"
  "opt_field [] name d' = Inr None"
  by (simp_all add: field_def opt_field_def get_field_skip get_field_hit get_field_Nil)

lemma se_path_Inr: "se_path p = Inr v \<Longrightarrow> v = JStr p"
  by (simp add: se_path_def split: if_splits)

lemma unless_none_steps [simp]: "unless_none name f None = []" "unless_none name f (Some a) = [(name, f a)]"
  by (simp_all add: unless_none_def)

lemma json_opt_steps [simp]: "json_opt f None = JNull" "json_opt f (Some a) = f a"
  by (simp_all add: json_opt_def)

lemma de_opt_steps [simp]: "de_opt de_str (JStr t) = Inr (Some t)" "de_opt (de_list de_str) (se_strs l) = Inr (Some l)"
  "de_opt de_word (se_word (w :: 'a::len word)) = Inr (Some w)"
  by (simp_all add: de_opt_some)

lemma op_fields_keys: "op_fields op = Inr fs \<Longrightarrow> ''req_id'' \<notin> fst ` set fs \<and> ''op'' \<notin> fst ` set fs"
  by (cases op) (auto simp: bindS_Inr unless_none_def split: option.splits)

lemma op_decode:
  assumes "op_fields op = Inr fs"
  shows "op_from_fields ((''req_id'', q) # (''op'', JStr (op_tag op)) # fs) = Inr op"
proof -
  let ?fs = "(''req_id'', q) # (''op'', JStr (op_tag op)) # fs"
  have "field ?fs ''op'' de_str = Inr (op_tag op)"
    using op_fields_keys[OF assms] by (simp add: field_access)
  then have tagged: "op_from_fields ?fs = (case map_of op_decoders (op_tag op) of
      None \<Rightarrow> Inl (''unknown variant '' @ backquoted (op_tag op)) | Some d \<Rightarrow> d ?fs)"
    by (simp add: op_from_fields_def tagged_union_def)
  show ?thesis
  proof (cases op)
    case (Import path rings opn)
    with assms show ?thesis unfolding tagged
      by (auto simp: bindS_Inr op_decoders_def field_access dest!: se_path_Inr)
  next
    case (OpBlobList peer rings)
    with assms show ?thesis unfolding tagged
      by (cases peer; cases rings) (auto simp: op_decoders_def field_access)
  next
    case (RingAdd ring peer expires_at)
    with assms show ?thesis unfolding tagged
      by (cases expires_at) (auto simp: op_decoders_def field_access)
  next
    case (Receive ticket dest force_overwrite)
    with assms show ?thesis unfolding tagged
      by (cases dest) (auto simp: bindS_Inr op_decoders_def field_access dest!: se_path_Inr)
  next
    case (OpGrants peer privilege)
    with assms show ?thesis unfolding tagged
      by (cases peer; cases privilege) (auto simp: op_decoders_def field_access)
  next
    case (PeerAdd peer nickname)
    with assms show ?thesis unfolding tagged
      by (cases nickname) (auto simp: op_decoders_def field_access)
  qed (use assms in \<open>unfold tagged, auto simp: op_decoders_def field_access\<close>)
qed

text \<open>A request prints when its paths are UTF-8, and then reads back as it was.\<close>

fun op_path :: "op \<Rightarrow> string option" where
  "op_path (Import path _ _) = Some path"
| "op_path (Receive _ dest _) = dest"
| "op_path _ = None"

definition utf8_op :: "op \<Rightarrow> bool" where
  "utf8_op op \<longleftrightarrow> (case op_path op of None \<Rightarrow> True | Some p \<Rightarrow> utf8_valid (str_bytes p))"

lemma op_fields_prints: "utf8_op op \<longleftrightarrow> (\<exists>fs. op_fields op = Inr fs)"
  by (cases op) (auto simp: utf8_op_def bindS_Inr se_path_def split: option.splits)

locale wire = json_text_laws J for J :: json_text +
  fixes U :: uuid_text
  assumes parse_show: "ut_parse U (ut_show U q) = Inr q"
begin

lemma request_value_inverse:
  assumes "request_to_json U req = Inr v"
  shows "request_from_json U v = Inr req"
proof -
  from assms obtain fs where fs: "op_fields (rq_op req) = Inr fs"
      and v: "v = JObj ((''req_id'', JStr (ut_show U (rq_req_id req))) # (''op'', JStr (op_tag (rq_op req))) # fs)"
    by (auto simp: request_to_json_def bindS_Inr)
  have "field ((''req_id'', JStr (ut_show U (rq_req_id req))) # (''op'', JStr (op_tag (rq_op req))) # fs) ''req_id'' (de_uuid U)
      = Inr (rq_req_id req)"
    using op_fields_keys[OF fs] by (simp add: field_access de_uuid_def parse_show)
  with op_decode[OF fs] v show ?thesis by simp
qed

lemma event_value_inverse: "event_from_json U (event_to_json U e) = Inr e"
  by (cases "ev_kind e"; cases e)
    (simp_all add: event_to_json_def de_uuid_def parse_show tagged_union_def kind_decoders_def field_access)

end

sublocale wire \<subseteq> ipc_laws "json_codec J U"
proof
  fix req l assume "ic_show_request (json_codec J U) req = Inr l"
  then obtain v where "request_to_json U req = Inr v" "l = jt_print J v" by (auto simp: json_codec_def bindS_Inr)
  then show "ic_parse_request (json_codec J U) l = Inr req"
    by (simp add: json_codec_def parse_print request_value_inverse)
next
  fix e l assume "ic_show_event (json_codec J U) e = Inr l"
  then show "ic_parse_event (json_codec J U) l = Inr e"
    by (auto simp: json_codec_def parse_print event_value_inverse)
qed

context wire
begin

lemma json_codec_laws: "ipc_laws (json_codec J U)"
  by (rule ipc_laws_axioms)

end

text \<open>A reference instance: the stack machine's text, and the sixteen bytes of a UUID.\<close>

definition raw_uuid :: uuid_text where
  "raw_uuid = \<lparr>ut_show = (\<lambda>q. bytes_str (le_bytes 16 q)),
     ut_parse = (\<lambda>s. if length s = 16 then Inr (le_word (str_bytes s)) else Inl ''invalid length'')\<rparr>"

interpretation stack_wire: wire stack_json raw_uuid
  by unfold_locales (simp add: raw_uuid_def le_word_le_bytes)

section \<open>Properties\<close>

text \<open>
  C31: A request can be sent exactly when its paths are UTF-8, the daemon then reads the
  request that was sent, and the client reads every event as the daemon sent it.
\<close>
theorem wire_roundtrip:
  assumes "wire J U"
  shows "(if utf8_op (rq_op req)
      then \<exists>l. ic_show_request (json_codec J U) req = Inr l \<and> ic_parse_request (json_codec J U) l = Inr req
      else \<exists>msg. ic_show_request (json_codec J U) req = Inl msg)
    \<and> (\<exists>l. ic_show_event (json_codec J U) e = Inr l \<and> ic_parse_event (json_codec J U) l = Inr e)"
proof (intro conjI)
  note laws = ipc_laws.request_inverse[OF wire.json_codec_laws[OF assms]] ipc_laws.event_inverse[OF wire.json_codec_laws[OF assms]]
  show "if utf8_op (rq_op req)
      then \<exists>l. ic_show_request (json_codec J U) req = Inr l \<and> ic_parse_request (json_codec J U) l = Inr req
      else \<exists>msg. ic_show_request (json_codec J U) req = Inl msg"
  proof (cases "op_fields (rq_op req)")
    case (Inl msg)
    then have "\<not> utf8_op (rq_op req)" by (simp add: op_fields_prints)
    with Inl show ?thesis by (simp add: json_codec_def request_to_json_def)
  next
    case (Inr fs)
    then obtain l where l: "ic_show_request (json_codec J U) req = Inr l"
      by (simp add: json_codec_def request_to_json_def)
    from Inr have "utf8_op (rq_op req)" by (simp add: op_fields_prints)
    with l laws(1)[OF l] show ?thesis by simp
  qed
  have e: "ic_show_event (json_codec J U) e = Inr (jt_print J (event_to_json U e))" by (simp add: json_codec_def)
  with laws(2)[OF e] show "\<exists>l. ic_show_event (json_codec J U) e = Inr l \<and> ic_parse_event (json_codec J U) l = Inr e"
    by blast
qed

theorem wire_roundtrip_witness:
  "\<exists>l. ic_show_request (json_codec stack_json raw_uuid) \<lparr>rq_req_id = 7, rq_op = RingAdd ''friends'' ''abc'' (Some 9)\<rparr> = Inr l
     \<and> ic_parse_request (json_codec stack_json raw_uuid) l = Inr \<lparr>rq_req_id = 7, rq_op = RingAdd ''friends'' ''abc'' (Some 9)\<rparr>"
  using wire_roundtrip[OF stack_wire.wire_axioms, of "\<lparr>rq_req_id = 7, rq_op = RingAdd ''friends'' ''abc'' (Some 9)\<rparr>"]
  by (simp add: utf8_op_def)

text \<open>
  C32: A request is read from its known fields only: two objects that hold the same known
  fields, in whatever order and with whatever unknown fields between them, are read as the
  same request, or neither is a request.
\<close>
theorem request_field_order:
  assumes "same_known fs gs"
  shows "request_from_json U (JObj fs) = Inr req \<longleftrightarrow> request_from_json U (JObj gs) = Inr req"
  using known.carries_request[OF assms] known.carries_request[OF same_known_sym[OF assms]] by blast

theorem request_field_order_witness:
  "request_from_json raw_uuid (JObj [(''name'', JStr ''x''), (''colour'', JNull), (''op'', JStr ''ring_new''),
      (''req_id'', JStr (ut_show raw_uuid 0))]) = Inr \<lparr>rq_req_id = 0, rq_op = RingNew ''x''\<rparr>"
proof -
  let ?fs = "[(''req_id'', JStr (ut_show raw_uuid 0)), (''op'', JStr ''ring_new''), (''name'', JStr ''x'')]"
  let ?gs = "[(''name'', JStr ''x''), (''colour'', JNull), (''op'', JStr ''ring_new''), (''req_id'', JStr (ut_show raw_uuid 0))]"
  have a: "same_known ?fs ?gs" by (simp add: same_known_def request_keys_def)
  have b: "request_from_json raw_uuid (JObj ?fs) = Inr \<lparr>rq_req_id = 0, rq_op = RingNew ''x''\<rparr>"
    by (rule stack_wire.request_value_inverse) (simp add: request_to_json_def)
  show ?thesis by (rule request_field_order[OF a, THEN iffD1, OF b])
qed

text \<open>
  An optional field may be left out: a request with some optional fields null is the
  same request without those fields, which is how an older client sends it.
\<close>
theorem request_omits_nulls:
  assumes "request_from_json U (JObj fs) = Inr req"
  shows "request_from_json U (JObj (filter not_null fs)) = Inr req"
  using no_nulls.carries_request[OF refl assms] .

theorem request_omits_nulls_witness:
  "request_from_json raw_uuid (JObj [(''req_id'', JStr (ut_show raw_uuid 3)), (''op'', JStr ''blob_list'')])
     = Inr \<lparr>rq_req_id = 3, rq_op = OpBlobList None None\<rparr>"
proof -
  have "request_from_json raw_uuid (JObj [(''req_id'', JStr (ut_show raw_uuid 3)), (''op'', JStr ''blob_list''),
      (''peer'', JNull), (''rings'', JNull)]) = Inr \<lparr>rq_req_id = 3, rq_op = OpBlobList None None\<rparr>"
    by (rule stack_wire.request_value_inverse) (simp add: request_to_json_def)
  from request_omits_nulls[OF this] show ?thesis by (simp add: not_null_def)
qed

end
