(* ===== verification/Config.thy ===== *)
theory Config
  imports Serde Paths Iroh
begin

text \<open>
  \<open>src/src/config.rs\<close>: the configuration of a node, a JSON file in the data directory that
  is made with a fresh key when it is missing.  The secret key, its public half and the
  check of a relay URL belong to the networking crate (the record \<open>identity\<close>); the file
  system is the record \<open>config_fs\<close>, whose state a failing write may change too.
\<close>

record 'k identity =
  sk_public :: "'k \<Rightarrow> endpoint_id"
  sk_to_json :: "'k \<Rightarrow> string + json"
  sk_from_json :: "json \<Rightarrow> string + 'k"
  ru_parse :: "string \<Rightarrow> string + string"

record 's config_fs =
  cf_exists :: "'s \<Rightarrow> string \<Rightarrow> bool"
  cf_read :: "'s \<Rightarrow> string \<Rightarrow> string + string"
  cf_create_dir_all :: "'s \<Rightarrow> string \<Rightarrow> (string + unit) \<times> 's"
  cf_write :: "'s \<Rightarrow> string \<Rightarrow> string \<Rightarrow> (string + unit) \<times> 's"

record 'k config =
  cfg_secret_key :: 'k
  cfg_daemon_port :: u16
  cfg_relay_url :: "string option"
  cfg_default_receive_dir :: "string option"

definition default_daemon_port :: u16 where
  "default_daemon_port = 60001"

definition public_id :: "'k identity \<Rightarrow> 'k config \<Rightarrow> endpoint_id" where
  "public_id K cfg = sk_public K (cfg_secret_key cfg)"

section \<open>The JSON of a configuration\<close>

definition de_url :: "'k identity \<Rightarrow> json \<Rightarrow> string + string" where
  "de_url K v = bindS (de_str v) (ru_parse K)"

definition se_opt_path :: "string option \<Rightarrow> string + json" where
  "se_opt_path p = (case p of None \<Rightarrow> Inr JNull | Some d \<Rightarrow> se_path d)"

definition config_to_json :: "'k identity \<Rightarrow> 'k config \<Rightarrow> string + json" where
  "config_to_json K cfg =
     bindS (sk_to_json K (cfg_secret_key cfg)) (\<lambda>key.
     bindS (se_opt_path (cfg_default_receive_dir cfg)) (\<lambda>dir.
       Inr (JObj [(''secret_key'', key), (''daemon_port'', se_word (cfg_daemon_port cfg)),
         (''relay_url'', json_opt JStr (cfg_relay_url cfg)), (''default_receive_dir'', dir)])))"

text \<open>A \<open>default\<close> field of type \<open>Option\<close> may be missing or null.\<close>

definition config_from_fields :: "'k identity \<Rightarrow> fields \<Rightarrow> string + 'k config" where
  "config_from_fields K fs =
     bindS (field fs ''secret_key'' (sk_from_json K)) (\<lambda>key.
     bindS (default_field fs ''daemon_port'' default_daemon_port de_word) (\<lambda>port.
     bindS (default_field fs ''relay_url'' None (de_opt (de_url K))) (\<lambda>url.
     bindS (default_field fs ''default_receive_dir'' None (de_opt de_str)) (\<lambda>dir.
       Inr \<lparr>cfg_secret_key = key, cfg_daemon_port = port, cfg_relay_url = url, cfg_default_receive_dir = dir\<rparr>))))"

text \<open>A struct is also read from an array of its fields.\<close>

fun config_from_json :: "'k identity \<Rightarrow> json \<Rightarrow> string + 'k config" where
  "config_from_json K (JObj fs) = config_from_fields K fs"
| "config_from_json K (JArr vs) =
     (if 4 < length vs then Inl ''invalid length, expected 4 elements''
      else config_from_fields K (zip [''secret_key'', ''daemon_port'', ''relay_url'', ''default_receive_dir''] vs))"
| "config_from_json K _ = Inl ''invalid type, expected struct Config''"

section \<open>Loading\<close>

definition config_path :: "string \<Rightarrow> string" where
  "config_path data_dir = path_join data_dir ''config.json''"

definition foreignA :: "string \<Rightarrow> ('s \<Rightarrow> (string + 'a) \<times> 's) \<Rightarrow> ('s, 'a) act" where
  "foreignA c f s = (case f s of (r, s') \<Rightarrow> (ctxs c r, s'))"

lemma foreignA_Inr [simp]: "foreignA c f s = (Inr a, s') \<longleftrightarrow> f s = (Inr a, s')"
  by (auto simp: foreignA_def split: prod.splits)

text \<open>\<open>new_key\<close> is what \<open>SecretKey::generate\<close> draws.\<close>

definition load_or_create ::
    "json_text \<Rightarrow> 'k identity \<Rightarrow> 's config_fs \<Rightarrow> 'k \<Rightarrow> string \<Rightarrow> ('s, 'k config) act" where
  "load_or_create J K F new_key data_dir =
     (let path = config_path data_dir in
      bindA (getA (\<lambda>s. cf_exists F s path)) (\<lambda>ex.
        if ex then
          bindA (queryA (\<lambda>s. ctxs (''reading '' @ path) (cf_read F s path))) (\<lambda>raw.
            liftA (ctxs (''parsing '' @ path) (bindS (jt_parse J raw) (config_from_json K))))
        else
          thenA (foreignA (''creating '' @ data_dir) (\<lambda>s. cf_create_dir_all F s data_dir))
            (let cfg = \<lparr>cfg_secret_key = new_key, cfg_daemon_port = default_daemon_port,
                cfg_relay_url = None, cfg_default_receive_dir = None\<rparr> in
             bindA (liftA (lift_err (bindS (config_to_json K cfg) (\<lambda>v. Inr (jt_pretty J v))))) (\<lambda>raw.
               thenA (foreignA (''writing '' @ path) (\<lambda>s. cf_write F s path raw)) (ret cfg)))))"

text \<open>What the program relies on: a key reads back from its JSON, and a file that was written
  is there with its contents.\<close>

locale config_store = json_text_laws J for J :: json_text +
  fixes K :: "'k identity" and F :: "'s config_fs"
  assumes key_inverse: "sk_to_json K k = Inr v \<Longrightarrow> sk_from_json K v = Inr k"
    and write_exists: "cf_write F s p raw = (Inr (), s') \<Longrightarrow> cf_exists F s' p"
    and write_read: "cf_write F s p raw = (Inr (), s') \<Longrightarrow> cf_read F s' p = Inr raw"
begin

lemma default_config_inverse:
  assumes "config_to_json K \<lparr>cfg_secret_key = k, cfg_daemon_port = port, cfg_relay_url = None,
      cfg_default_receive_dir = dir\<rparr> = Inr v"
  shows "config_from_json K v = Inr \<lparr>cfg_secret_key = k, cfg_daemon_port = port, cfg_relay_url = None,
      cfg_default_receive_dir = dir\<rparr>"
proof -
  from assms obtain key d where key: "sk_to_json K k = Inr key" and d: "se_opt_path dir = Inr d"
      and v: "v = JObj [(''secret_key'', key), (''daemon_port'', se_word port), (''relay_url'', JNull), (''default_receive_dir'', d)]"
    by (auto simp: config_to_json_def bindS_Inr json_opt_def)
  have "de_opt de_str d = Inr dir"
    using d by (auto simp: se_opt_path_def se_path_def split: option.splits if_splits)
  with v key_inverse[OF key] show ?thesis
    by (simp add: config_from_fields_def default_field_def field_def get_field_skip get_field_hit)
qed

lemma load_existing:
  assumes "cf_exists F s (config_path d)"
  shows "load_or_create J K F k d s
    = (bindR (ctxs (''reading '' @ config_path d) (cf_read F s (config_path d))) (\<lambda>raw.
        ctxs (''parsing '' @ config_path d) (bindS (jt_parse J raw) (config_from_json K))), s)"
  using assms
  by (cases "cf_read F s (config_path d)") (simp_all add: load_or_create_def Let_def bindA_getA act_simps)

lemma load_twice:
  assumes "load_or_create J K F k d s = (Inr cfg, s')"
  shows "load_or_create J K F k' d s' = (Inr cfg, s') \<and> (cf_exists F s (config_path d) \<longrightarrow> s' = s)"
proof (cases "cf_exists F s (config_path d)")
  case True
  have "load_or_create J K F k' d s = load_or_create J K F k d s" by (simp only: load_existing[OF True])
  moreover have "s' = s" using assms load_existing[OF True] by simp
  ultimately show ?thesis using assms by simp
next
  case False
  let ?cfg = "\<lparr>cfg_secret_key = k, cfg_daemon_port = default_daemon_port, cfg_relay_url = None, cfg_default_receive_dir = None\<rparr>"
  from assms False obtain v s1 where v: "config_to_json K ?cfg = Inr v"
      and w: "cf_write F s1 (config_path d) (jt_pretty J v) = (Inr (), s')" and cfg: "cfg = ?cfg"
    by (auto simp: load_or_create_def Let_def act_Inr bindS_Inr)
  show ?thesis
    using load_existing[OF write_exists[OF w]] write_read[OF w] parse_pretty default_config_inverse[OF v] cfg False
    by simp
qed

end

section \<open>A reference instance\<close>

text \<open>Files in a map, keys as hexadecimal text; nothing can be written under \<open>/ro\<close>.\<close>

definition hex_identity :: "bytes32 identity" where
  "hex_identity = \<lparr>sk_public = EndpointId, sk_to_json = (\<lambda>k. Inr (JStr (hex_encode (as_bytes k)))),
     sk_from_json = (\<lambda>v. bindS (de_str v) hex_word),
     ru_parse = (\<lambda>u. if take 8 u = ''https://'' then Inr u else Inl ''invalid URL'')\<rparr>"

definition map_fs :: "(string \<rightharpoonup> string) config_fs" where
  "map_fs = \<lparr>cf_exists = (\<lambda>s p. s p \<noteq> None),
     cf_read = (\<lambda>s p. case s p of None \<Rightarrow> Inl ''No such file or directory'' | Some raw \<Rightarrow> Inr raw),
     cf_create_dir_all = (\<lambda>s d. (Inr (), s)),
     cf_write = (\<lambda>s p raw. if take 3 p = ''/ro'' then (Inl ''Read-only file system'', s) else (Inr (), s(p \<mapsto> raw)))\<rparr>"

interpretation map_config: config_store stack_json hex_identity map_fs
  by unfold_locales (auto simp: hex_identity_def map_fs_def split: if_splits)

section \<open>Properties\<close>

text \<open>
  C34: The identity of a node is stable: once a configuration has been loaded or made,
  loading it again gives the same configuration, whatever fresh key would be drawn, and
  leaves the file system as it is; an existing configuration is never rewritten.
\<close>
theorem config_stable:
  assumes "config_store J K F" and "load_or_create J K F key data_dir s = (Inr cfg, s')"
  shows "load_or_create J K F key' data_dir s' = (Inr cfg, s')
    \<and> (cf_exists F s (config_path data_dir) \<longrightarrow> s' = s)
    \<and> (\<not> cf_exists F s (config_path data_dir) \<longrightarrow> cfg_secret_key cfg = key \<and> cfg_daemon_port cfg = 60001)"
proof -
  have "cfg_secret_key cfg = key \<and> cfg_daemon_port cfg = 60001" if "\<not> cf_exists F s (config_path data_dir)"
    using assms(2) that by (auto simp: load_or_create_def Let_def act_Inr default_daemon_port_def)
  with config_store.load_twice[OF assms] show ?thesis by blast
qed

theorem config_stable_witness:
  "\<exists>cfg s'. load_or_create stack_json hex_identity map_fs 5 ''/home/a'' (\<lambda>_. None) = (Inr cfg, s')
     \<and> load_or_create stack_json hex_identity map_fs 6 ''/home/a'' s' = (Inr cfg, s') \<and> cfg_secret_key cfg = 5"
proof -
  have "\<exists>cfg s'. load_or_create stack_json hex_identity map_fs 5 ''/home/a'' (\<lambda>_. None) = (Inr cfg, s')"
    by (simp add: load_or_create_def Let_def bindA_def thenA_def foreignA_def act_apply map_fs_def hex_identity_def config_to_json_def se_opt_path_def
        config_path_def path_join_def)
  then obtain cfg s' where l: "load_or_create stack_json hex_identity map_fs 5 ''/home/a'' (\<lambda>_. None) = (Inr cfg, s')"
    by blast
  from config_stable[OF map_config.config_store_axioms l] l show ?thesis by (auto simp: map_fs_def)
qed

end
