(* ===== verification/Cli.thy ===== *)
theory Cli
  imports RingHandlers Wire Config
begin

text \<open>
  The command line (\<open>src/src/cli\<close>): every command as the request it makes of the daemon,
  the commands that manage the daemon, and the display of a transfer.  Parsing of the
  arguments is \<open>clap\<close>'s; a command here is one it has parsed, and \<open>clap_accepts\<close> writes out
  the constraints that the attributes of \<open>command/mod.rs\<close> declare.
\<close>

section \<open>Commands\<close>

datatype ring_cmd = RcNew string | RcList | RcAdd string string "duration option" | RcRemove string string | RcMembers string

datatype peer_cmd = PcAdd string "string option" | PcList | PcRemove string

datatype blob_cmd =
    BcImport string "string list" bool
  | BcRemove string
  | BcAttach string "string list" bool
  | BcDetach string "string list" bool bool
  | BcList "string option" "string list option"

datatype grant_cmd = GcAdd string string | GcRemove string string | GcList "string option" "string option"

datatype remote_cmd = McBlobList string

datatype daemon_cmd = DcStart | DcStop | DcStatus | DcRun

datatype cmd =
    CmdRing ring_cmd
  | CmdPeer peer_cmd
  | CmdBlob blob_cmd
  | CmdImport string "string list" bool
  | CmdDaemon daemon_cmd
  | CmdReceive string "string option" bool
  | CmdGrant grant_cmd
  | CmdRemote remote_cmd
  | CmdId bool
  | CmdInfo string

definition parse_dest :: "string \<Rightarrow> string + string" where
  "parse_dest raw = (if raw = [] then Inl ''must not be empty'' else Inr raw)"

text \<open>\<open>conflicts_with\<close>; a required \<open>ArgGroup\<close> has exactly one of its arguments; value parsers.\<close>

definition excludes :: "string list \<Rightarrow> bool \<Rightarrow> bool" where
  "excludes rings opn \<longleftrightarrow> rings = [] \<or> \<not> opn"

definition exactly_one :: "bool list \<Rightarrow> bool" where
  "exactly_one bs \<longleftrightarrow> length (filter id bs) = 1"

fun clap_accepts :: "cmd \<Rightarrow> bool" where
  "clap_accepts (CmdRing (RcAdd _ _ (Some d))) \<longleftrightarrow> (\<exists>s. parse_duration s = Inr d)"
| "clap_accepts (CmdBlob (BcImport _ rings opn)) \<longleftrightarrow> excludes rings opn"
| "clap_accepts (CmdBlob (BcAttach _ rings opn)) \<longleftrightarrow> exactly_one [rings \<noteq> [], opn]"
| "clap_accepts (CmdBlob (BcDetach _ rings opn al)) \<longleftrightarrow> exactly_one [rings \<noteq> [], opn, al]"
| "clap_accepts (CmdBlob (BcList _ (Some rings))) \<longleftrightarrow> rings \<noteq> []"
| "clap_accepts (CmdImport _ rings opn) \<longleftrightarrow> excludes rings opn"
| "clap_accepts (CmdReceive _ (Some dest) _) \<longleftrightarrow> parse_dest dest = Inr dest"
| "clap_accepts _ \<longleftrightarrow> True"

section \<open>The world of a command\<close>

text \<open>The daemon as the command sees it may answer every connection differently, so the
  attempts are counted; so are the loads of the configuration, each of which may draw a
  key.  The operations handed to the client, the printed lines, the spawned processes and the
  exit status are recorded.\<close>

record 's cli_state =
  cs_fs :: 's
  cs_out :: "string list"
  cs_err :: "string list"
  cs_tries :: nat
  cs_sent :: "op list"
  cs_loads :: nat
  cs_spawned :: "string list list"
  cs_exit :: "nat option"

record ('s, 'k) cli_env =
  ce_json :: json_text
  ce_identity :: "'k identity"
  ce_fs :: "'s config_fs"
  ce_codec :: ipc_codec
  ce_tickets :: ticket_codec
  ce_iroh :: iroh
  ce_connect :: "nat \<Rightarrow> u16 \<Rightarrow> string + (string \<Rightarrow> string + framed list)"
  ce_uuid :: "nat \<Rightarrow> uuid"
  ce_key :: "nat \<Rightarrow> 'k"
  ce_now :: system_time
  ce_exe :: "string + string"
  ce_spawn :: "string list \<Rightarrow> string + unit"
  ce_version :: string
  ce_home :: "string option"

definition println :: "string \<Rightarrow> ('s cli_state, unit) act" where
  "println l = modA (\<lambda>s. s\<lparr>cs_out := cs_out s @ [l]\<rparr>)"

definition println_all :: "string list \<Rightarrow> ('s cli_state, unit) act" where
  "println_all ls = modA (\<lambda>s. s\<lparr>cs_out := cs_out s @ ls\<rparr>)"

definition load_config :: "('s, 'k) cli_env \<Rightarrow> string \<Rightarrow> ('s cli_state, 'k config) act" where
  "load_config E data_dir s =
     (case load_or_create (ce_json E) (ce_identity E) (ce_fs E) (ce_key E (cs_loads s)) data_dir (cs_fs s) of
        (r, fs) \<Rightarrow> (r, s\<lparr>cs_fs := fs, cs_loads := Suc (cs_loads s)\<rparr>))"

text \<open>A client is the port it connects to.\<close>

definition client_addr :: "u16 \<Rightarrow> string" where
  "client_addr port = ''127.0.0.1:'' @ show_nat (unat port)"

definition daemon_client :: "('s, 'k) cli_env \<Rightarrow> string \<Rightarrow> ('s cli_state, u16) act" where
  "daemon_client E data_dir = bindA (load_config E data_dir) (\<lambda>cfg. ret (cfg_daemon_port cfg))"

definition is_running :: "('s, 'k) cli_env \<Rightarrow> u16 \<Rightarrow> ('s cli_state, bool) act" where
  "is_running E port s = (Inr (case ce_connect E (cs_tries s) port of Inl _ \<Rightarrow> False | Inr _ \<Rightarrow> True),
     s\<lparr>cs_tries := Suc (cs_tries s)\<rparr>)"

definition sendA :: "('s, 'k) cli_env \<Rightarrow> u16 \<Rightarrow> op \<Rightarrow> ('s cli_state, event list \<times> unit result) act" where
  "sendA E port op s =
     (Inr (client_send (ce_codec E) (client_addr port) (ce_connect E (cs_tries s) port) (ce_uuid E (cs_tries s)) op),
      s\<lparr>cs_tries := Suc (cs_tries s), cs_sent := cs_sent s @ [op]\<rparr>)"

definition runA :: "('s, 'k) cli_env \<Rightarrow> u16 \<Rightarrow> op \<Rightarrow> ('s cli_state, unit) act" where
  "runA E port op s =
     (case client_run (ce_codec E) (client_addr port) (ce_connect E (cs_tries s) port) (ce_uuid E (cs_tries s)) op of
        (lines, r) \<Rightarrow> (r, s\<lparr>cs_tries := Suc (cs_tries s), cs_sent := cs_sent s @ [op], cs_out := cs_out s @ lines\<rparr>))"

section \<open>Commands that are one request\<close>

definition unix_secs_after :: "system_time \<Rightarrow> duration \<Rightarrow> u64 result" where
  "unix_secs_after now d =
     bindR (opt_ctx ''expiry is too far in the future'' (time_checked_add now d)) (\<lambda>at.
     bindR (case duration_since at UNIX_EPOCH of
         None \<Rightarrow> ctxs ''system clock is before the Unix epoch'' (Inl ''second time provided was later than self'')
       | Some e \<Rightarrow> Inr e) (\<lambda>e.
     Inr (of_nat (d_secs e))))"

fun ring_op :: "system_time \<Rightarrow> ring_cmd \<Rightarrow> op result" where
  "ring_op now (RcNew name) = Inr (RingNew name)"
| "ring_op now RcList = Inr RingList"
| "ring_op now (RcAdd ring peer expires) =
     bindR (transpose_map (unix_secs_after now) expires) (\<lambda>expires_at. Inr (RingAdd ring peer expires_at))"
| "ring_op now (RcRemove ring peer) = Inr (RingRemove ring peer)"
| "ring_op now (RcMembers ring) = Inr (RingMembers ring)"

fun peer_op_of :: "peer_cmd \<Rightarrow> op" where
  "peer_op_of (PcAdd peer nickname) = PeerAdd peer nickname"
| "peer_op_of PcList = PeerList"
| "peer_op_of (PcRemove peer) = PeerRemove peer"

fun blob_op :: "blob_cmd \<Rightarrow> op" where
  "blob_op (BcImport path rings opn) = Import path rings opn"
| "blob_op (BcRemove target) = BlobRemove target"
| "blob_op (BcList peer rings) = OpBlobList peer rings"
| "blob_op (BcAttach target rings opn) = BlobAttach target rings opn"
| "blob_op (BcDetach target rings opn al) = BlobDetach target rings opn al"

fun grant_op :: "grant_cmd \<Rightarrow> op" where
  "grant_op (GcAdd peer privilege) = OpGrant peer privilege"
| "grant_op (GcRemove peer privilege) = OpRevoke peer privilege"
| "grant_op (GcList peer privilege) = OpGrants peer privilege"

fun remote_op :: "remote_cmd \<Rightarrow> op" where
  "remote_op (McBlobList peer) = RemoteBlobList peer"

definition run_ring :: "('s, 'k) cli_env \<Rightarrow> string \<Rightarrow> ring_cmd \<Rightarrow> ('s cli_state, unit) act" where
  "run_ring E data_dir c =
     bindA (daemon_client E data_dir) (\<lambda>port. bindA (liftA (ring_op (ce_now E) c)) (\<lambda>op. runA E port op))"

definition run_request :: "('s, 'k) cli_env \<Rightarrow> string \<Rightarrow> op \<Rightarrow> ('s cli_state, unit) act" where
  "run_request E data_dir op = bindA (daemon_client E data_dir) (\<lambda>port. runA E port op)"

definition run_import :: "('s, 'k) cli_env \<Rightarrow> string \<Rightarrow> string list \<Rightarrow> bool \<Rightarrow> string \<Rightarrow> ('s cli_state, unit) act" where
  "run_import E path rings opn data_dir = run_request E data_dir (Import path rings opn)"

definition run_id :: "('s, 'k) cli_env \<Rightarrow> bool \<Rightarrow> string \<Rightarrow> ('s cli_state, unit) act" where
  "run_id E qr_code data_dir = run_request E data_dir (NodeId qr_code)"

section \<open>Managing the daemon\<close>

definition relay_label :: "('s, 'k) cli_env \<Rightarrow> string \<Rightarrow> ('s cli_state, string) act" where
  "relay_label E data_dir s = (case load_config E data_dir s of (r, s') \<Rightarrow>
     (Inr (case r of
        Inr cfg \<Rightarrow> (case cfg_relay_url cfg of Some url \<Rightarrow> url @ '' (custom)'' | None \<Rightarrow> ''default (n0)'')
      | Inl _ \<Rightarrow> ''default (n0)''), s'))"

text \<open>\<open>unwrap_or_default\<close>: without a configuration, port 0.\<close>

definition daemon_port :: "('s, 'k) cli_env \<Rightarrow> string \<Rightarrow> ('s cli_state, u16) act" where
  "daemon_port E data_dir s = (case load_config E data_dir s of (r, s') \<Rightarrow>
     (Inr (case r of Inr cfg \<Rightarrow> cfg_daemon_port cfg | Inl _ \<Rightarrow> 0), s'))"

fun last_line :: "string \<Rightarrow> event list \<Rightarrow> string" where
  "last_line acc [] = acc"
| "last_line acc (e # es) = last_line (case ev_kind e of Line t \<Rightarrow> t | _ \<Rightarrow> acc) es"

definition query_node_info :: "('s, 'k) cli_env \<Rightarrow> u16 \<Rightarrow> ('s cli_state, string result) act" where
  "query_node_info E port =
     bindA (sendA E port (NodeId False)) (\<lambda>(evs, r).
       ret (bindR r (\<lambda>_. case last_error None evs of Some msg \<Rightarrow> bail msg | None \<Rightarrow> Inr (last_line [] evs))))"

text \<open>\<open>for _ in 0..30\<close>: wait, look, and stop at the first time the daemon answers as wanted.\<close>

fun poll :: "('s, 'k) cli_env \<Rightarrow> u16 \<Rightarrow> bool \<Rightarrow> nat \<Rightarrow> ('s cli_state, bool) act" where
  "poll E port wanted 0 = ret False"
| "poll E port wanted (Suc n) =
     bindA (is_running E port) (\<lambda>up. if up = wanted then ret True else poll E port wanted n)"

definition banner :: "('s, 'k) cli_env \<Rightarrow> string \<Rightarrow> string \<Rightarrow> u16 \<Rightarrow> string \<Rightarrow> string list" where
  "banner E verb node_id port label =
     [''ringdrop v'' @ ce_version E @ '' '' @ verb @ '' on port '' @ show_nat (unat port),
      ''Node ID: '' @ node_id, ''Relay: '' @ label]"

definition run_start :: "('s, 'k) cli_env \<Rightarrow> string \<Rightarrow> ('s cli_state, unit) act" where
  "run_start E data_dir =
     bindA (daemon_client E data_dir) (\<lambda>client.
     bindA (is_running E client) (\<lambda>up.
     if up then println ''Rdrop daemon is already running.''
     else
       bindA (liftA (ctxs ''could not resolve current executable path'' (ce_exe E))) (\<lambda>exe.
       bindA (liftA (if utf8_valid (str_bytes data_dir) then Inr data_dir
           else bail ''data_dir path is not valid UTF-8'')) (\<lambda>data_dir_str.
       let argv = [exe, ''--data-dir'', data_dir_str, ''daemon'', ''run''] in
       thenA (liftA (ctxs ''failed to spawn daemon process'' (ce_spawn E argv)))
      (thenA (modA (\<lambda>s. s\<lparr>cs_spawned := cs_spawned s @ [argv]\<rparr>))
      (bindA (poll E client True 30) (\<lambda>up.
       if up then
         bindA (query_node_info E client) (\<lambda>info.
         bindA (daemon_port E data_dir) (\<lambda>port.
         bindA (relay_label E data_dir) (\<lambda>label.
           println_all (banner E ''started'' (unwrap_or info ''?'') port label))))
       else fail (anyhow_msg
         (''Rdrop daemon did not become reachable within 3s '' @ em_dash @ '' check logs'')))))))))"

definition run_stop :: "('s, 'k) cli_env \<Rightarrow> string \<Rightarrow> ('s cli_state, unit) act" where
  "run_stop E data_dir =
     bindA (daemon_client E data_dir) (\<lambda>client.
     bindA (is_running E client) (\<lambda>up.
     if \<not> up then println ''Rdrop daemon is not running.''
     else
       thenA (runA E client Shutdown)
      (bindA (poll E client False 30) (\<lambda>down.
       if down then println ''Rdrop daemon stopped.''
       else fail (anyhow_msg ''Rdrop daemon did not stop within 3s'')))))"

definition run_status :: "('s, 'k) cli_env \<Rightarrow> string \<Rightarrow> ('s cli_state, unit) act" where
  "run_status E data_dir =
     bindA (daemon_client E data_dir) (\<lambda>client.
     bindA (is_running E client) (\<lambda>up.
     if \<not> up then println ''Rdrop daemon is not running. Start it with: rdrop daemon start''
     else
       bindA (daemon_port E data_dir) (\<lambda>port.
       bindA (relay_label E data_dir) (\<lambda>label.
       bindA (query_node_info E client) (\<lambda>info. case info of
           Inr i \<Rightarrow> println_all (banner E ''running'' i port label)
         | Inl e \<Rightarrow> println (''Rdrop daemon running but failed to get node info: '' @ err_to_string e))))))"

section \<open>Inspecting a ticket\<close>

definition format_name :: "blob_format \<Rightarrow> string" where
  "format_name f = (case f of Raw \<Rightarrow> ''Raw'' | HashSeq \<Rightarrow> ''HashSeq'')"

definition info_lines :: "iroh \<Rightarrow> share_ticket \<Rightarrow> string list" where
  "info_lines I t =
     [''hash     '' @ ir_show_hash I (st_hash t), ''peer     '' @ ir_show_id I (ticket_peer_id t)]
     @ (case ea_relays (st_addr t) of
          [] \<Rightarrow> [''relays   (none)'']
        | first # rest \<Rightarrow> (''relays   '' @ first) # map (\<lambda>url. ''         '' @ url) rest)
     @ [''format   '' @ format_name (st_format t),
        ''name     '' @ (case st_name t of Some n \<Rightarrow> n | None \<Rightarrow> ''(none)'')]"

definition run_info :: "('s, 'k) cli_env \<Rightarrow> string \<Rightarrow> ('s cli_state, unit) act" where
  "run_info E ticket = bindA (liftA (ticket_from_uri (ce_tickets E) ticket)) (\<lambda>t.
     println_all (info_lines (ce_iroh E) t))"

section \<open>The display of a transfer\<close>

text \<open>The calls on the progress bar: printed lines, message, length and position, and the
  file that is being downloaded.\<close>

record receive_view =
  rv_log :: "string list"
  rv_msg :: string
  rv_length :: u64
  rv_position :: u64
  rv_finished :: bool
  rv_current :: "(usize \<times> usize \<times> string) option"
  rv_error :: "string option"

definition new_view :: receive_view where
  "new_view = \<lparr>rv_log = [], rv_msg = [], rv_length = 0, rv_position = 0, rv_finished = False,
     rv_current = None, rv_error = None\<rparr>"

text \<open>U+2713, a check mark, in UTF-8.\<close>

definition check_mark :: string where
  "check_mark = [CHR 0xE2, CHR 0x9C, CHR 0x93]"

definition file_label :: "usize \<times> usize \<times> string \<Rightarrow> string" where
  "file_label f = (case f of (fi, ft, name) \<Rightarrow>
     ''['' @ show_nat (unat fi) @ ''/'' @ show_nat (unat ft) @ ''] '' @ name)"

definition tick :: "usize \<times> usize \<times> string \<Rightarrow> string" where
  "tick f = ''  '' @ check_mark @ '' '' @ file_label f"

definition tick_current :: "receive_view \<Rightarrow> receive_view" where
  "tick_current v = (case rv_current v of None \<Rightarrow> v
     | Some f \<Rightarrow> v\<lparr>rv_log := rv_log v @ [tick f], rv_current := None\<rparr>)"

fun receive_event :: "event_kind \<Rightarrow> receive_view \<Rightarrow> receive_view" where
  "receive_event (Line txt) v = v\<lparr>rv_log := rv_log v @ [txt]\<rparr>"
| "receive_event (Progress n tot) v = v\<lparr>rv_length := tot, rv_position := n\<rparr>"
| "receive_event (FileProgress fi ft name n tot) v =
     (let is_new_file = (case rv_current v of None \<Rightarrow> True | Some (i, _, _) \<Rightarrow> i \<noteq> fi);
          v' = (if is_new_file then (tick_current v)\<lparr>rv_current := Some (fi, ft, name),
              rv_msg := '' '' @ file_label (fi, ft, name)\<rparr> else v) in
      v'\<lparr>rv_length := tot, rv_position := n\<rparr>)"
| "receive_event Done v = (tick_current v)\<lparr>rv_finished := True\<rparr>"
| "receive_event (Error msg) v = v\<lparr>rv_current := None, rv_finished := True, rv_error := Some msg\<rparr>"
| "receive_event (Record _) v = v"

definition receive_view_of :: "event_kind list \<Rightarrow> receive_view" where
  "receive_view_of ks = fold receive_event ks new_view"

text \<open>A failed transfer ends the process with status 1; the log goes to the terminal.\<close>

definition run_receive ::
    "('s, 'k) cli_env \<Rightarrow> string \<Rightarrow> string \<Rightarrow> string option \<Rightarrow> bool \<Rightarrow> ('s cli_state, unit) act" where
  "run_receive E data_dir ticket dest force_overwrite =
     bindA (liftA (ticket_from_uri (ce_tickets E) ticket)) (\<lambda>_.
     bindA (daemon_client E data_dir) (\<lambda>client.
     bindA (sendA E client (Receive ticket dest force_overwrite)) (\<lambda>(evs, r).
       let v = receive_view_of (map ev_kind evs) in
       thenA (modA (\<lambda>s. s\<lparr>cs_err := cs_err s @ rv_log v\<rparr>))
      (thenA (liftA r)
        (case rv_error v of None \<Rightarrow> ret ()
         | Some msg \<Rightarrow> modA (\<lambda>s. s\<lparr>cs_err := cs_err s @ [''error: '' @ msg], cs_exit := Some 1\<rparr>))))))"

section \<open>The program\<close>

definition default_data_dir :: "string option \<Rightarrow> string" where
  "default_data_dir home = path_join (case home of Some h \<Rightarrow> h | None \<Rightarrow> ''.'') ''.ringdrop''"

text \<open>\<open>serve\<close> is the daemon in the foreground.\<close>

fun run_cmd :: "('s, 'k) cli_env \<Rightarrow> (string \<Rightarrow> ('s cli_state, unit) act) \<Rightarrow> string \<Rightarrow> cmd \<Rightarrow> ('s cli_state, unit) act" where
  "run_cmd E serve d (CmdRing c) = run_ring E d c"
| "run_cmd E serve d (CmdPeer c) = run_request E d (peer_op_of c)"
| "run_cmd E serve d (CmdBlob c) = run_request E d (blob_op c)"
| "run_cmd E serve d (CmdImport path rings opn) = run_import E path rings opn d"
| "run_cmd E serve d (CmdDaemon DcStart) = run_start E d"
| "run_cmd E serve d (CmdDaemon DcStop) = run_stop E d"
| "run_cmd E serve d (CmdDaemon DcStatus) = run_status E d"
| "run_cmd E serve d (CmdDaemon DcRun) = serve d"
| "run_cmd E serve d (CmdReceive ticket dest force_overwrite) = run_receive E d ticket dest force_overwrite"
| "run_cmd E serve d (CmdGrant c) = run_request E d (grant_op c)"
| "run_cmd E serve d (CmdRemote c) = run_request E d (remote_op c)"
| "run_cmd E serve d (CmdId qr_code) = run_id E qr_code d"
| "run_cmd E serve d (CmdInfo ticket) = run_info E ticket"

definition cli_run ::
    "('s, 'k) cli_env \<Rightarrow> (string \<Rightarrow> ('s cli_state, unit) act) \<Rightarrow> string option \<Rightarrow> cmd \<Rightarrow> ('s cli_state, unit) act" where
  "cli_run E serve data_dir c =
     run_cmd E serve (case data_dir of Some d \<Rightarrow> d | None \<Rightarrow> default_data_dir (ce_home E)) c"

end
