(* ===== verification/CliEffects.thy ===== *)
theory CliEffects
  imports Cli Membership
begin

text \<open>
  What the commands of \<open>Cli\<close> achieve together with the daemon: the operations they send
  are well formed, an expiry given as a duration is the one the daemon records, and the
  display of a transfer ticks off the files whose progress the daemon reported.
\<close>

section \<open>Well-formed operations\<close>

text \<open>What \<open>protocol.rs\<close> documents of the arguments of an operation.\<close>

fun op_well_formed :: "op \<Rightarrow> bool" where
  "op_well_formed (Import _ rings opn) \<longleftrightarrow> rings = [] \<or> \<not> opn"
| "op_well_formed (BlobAttach _ rings opn) \<longleftrightarrow> (rings \<noteq> [] \<or> opn) \<and> (rings = [] \<or> \<not> opn)"
| "op_well_formed (BlobDetach _ rings opn al) \<longleftrightarrow> exactly_one [rings \<noteq> [], opn, al]"
| "op_well_formed (OpBlobList _ rings) \<longleftrightarrow> rings \<noteq> Some []"
| "op_well_formed (Receive _ dest _) \<longleftrightarrow> dest \<noteq> Some []"
| "op_well_formed _ \<longleftrightarrow> True"

text \<open>The operations that a command hands to the client satisfy a predicate.\<close>

definition sends :: "(op \<Rightarrow> bool) \<Rightarrow> 's cli_state \<Rightarrow> 's cli_state \<Rightarrow> bool" where
  "sends P s t \<longleftrightarrow> (\<exists>ops. cs_sent t = cs_sent s @ ops \<and> (\<forall>op \<in> set ops. P op))"

interpretation sends: act_preorder "sends P" for P :: "op \<Rightarrow> bool"
proof
  show "sends P s s" for s :: "'a cli_state" by (auto simp: sends_def)
  show "sends P s u" if st: "sends P s t" and tu: "sends P t u" for s t u :: "'a cli_state"
  proof -
    from st obtain xs where xs: "cs_sent t = cs_sent s @ xs" "\<forall>op \<in> set xs. P op" unfolding sends_def by blast
    from tu obtain ys where ys: "cs_sent u = cs_sent t @ ys" "\<forall>op \<in> set ys. P op" unfolding sends_def by blast
    from xs ys have "cs_sent u = cs_sent s @ (xs @ ys)" "\<forall>op \<in> set (xs @ ys). P op" by auto
    then show ?thesis unfolding sends_def by blast
  qed
qed

lemma sends_basic:
  "stays (sends P) (println l)" "stays (sends P) (println_all ls)" "stays (sends P) (load_config E d)"
  "stays (sends P) (is_running E port)" "P op \<Longrightarrow> stays (sends P) (sendA E port op)"
  "P op \<Longrightarrow> stays (sends P) (runA E port op)" "stays (sends P) (relay_label E d)" "stays (sends P) (daemon_port E d)"
  by (auto simp: stays_def sends_def println_def println_all_def modA_def load_config_def is_running_def sendA_def
      runA_def relay_label_def daemon_port_def split: prod.splits)

lemma sends_modA: "(\<And>s. cs_sent (f s) = cs_sent s) \<Longrightarrow> stays (sends P) (modA f)"
  by (simp add: stays_def sends_def modA_def)

lemma sends_client: "stays (sends P) (daemon_client E d)"
  unfolding daemon_client_def by (intro sends.stays_rules sends_basic)

lemma sends_poll: "stays (sends P) (poll E port wanted n)"
  by (induction n) (auto intro!: sends.stays_rules sends_basic)

lemma sends_query: "P (NodeId False) \<Longrightarrow> stays (sends P) (query_node_info E port)"
  unfolding query_node_info_def by (intro sends.stays_rules sends_basic)

lemmas sends_rules = sends.stays_rules sends_basic sends_client sends_poll sends_query sends_modA

lemma sends_request: "P op \<Longrightarrow> stays (sends P) (run_request E d op)"
  unfolding run_request_def by (intro sends_rules)

lemma sends_receive: "P (Receive ticket dest fo) \<Longrightarrow> stays (sends P) (run_receive E d ticket dest fo)"
  unfolding run_receive_def Let_def by (intro sends_rules) simp_all

lemma sends_daemon:
  "P (NodeId False) \<Longrightarrow> stays (sends P) (run_start E d)" "P Shutdown \<Longrightarrow> stays (sends P) (run_stop E d)"
  "P (NodeId False) \<Longrightarrow> stays (sends P) (run_status E d)"
  unfolding run_start_def run_stop_def run_status_def Let_def
  by (intro sends_rules; simp split: sum.split; intro conjI allI impI sends_rules)+

lemma sends_ring:
  assumes P: "\<And>op. ring_op (ce_now E) c = Inr op \<Longrightarrow> P op"
  shows "stays (sends P) (run_ring E d c)"
proof -
  have "stays (sends P) (bindA (liftA (ring_op (ce_now E) c)) (\<lambda>op. runA E port op))" for port
  proof (cases "ring_op (ce_now E) c")
    case (Inl e)
    then show ?thesis by (simp add: stays_def act_simps sends.rel_refl)
  next
    case (Inr op)
    with P sends_basic(6)[of P op E port] show ?thesis by (simp add: stays_def act_simps)
  qed
  then show ?thesis unfolding run_ring_def by (intro sends.stays_bind[OF sends_client])
qed

lemma ring_op_well_formed: "ring_op now c = Inr op \<Longrightarrow> op_well_formed op"
  by (cases c) (auto simp: bindR_Inr)

lemma cmd_op_well_formed:
  "op_well_formed (peer_op_of pc)" "op_well_formed (grant_op gc)" "op_well_formed (remote_op mc)"
  "clap_accepts (CmdBlob bc) \<Longrightarrow> op_well_formed (blob_op bc)"
  "clap_accepts (CmdImport path rings opn) \<Longrightarrow> op_well_formed (Import path rings opn)"
  "clap_accepts (CmdReceive ticket dest fo) \<Longrightarrow> op_well_formed (Receive ticket dest fo)"
proof -
  show "op_well_formed (peer_op_of pc)" by (cases pc) simp_all
  show "op_well_formed (grant_op gc)" by (cases gc) simp_all
  show "op_well_formed (remote_op mc)" by (cases mc) simp_all
  show "clap_accepts (CmdBlob bc) \<Longrightarrow> op_well_formed (blob_op bc)"
    by (cases bc rule: blob_op.cases; cases "case bc of BcList _ r \<Rightarrow> r | _ \<Rightarrow> None")
      (auto simp: exactly_one_def excludes_def split: if_splits)
  show "clap_accepts (CmdImport path rings opn) \<Longrightarrow> op_well_formed (Import path rings opn)"
    by (simp add: excludes_def)
  show "clap_accepts (CmdReceive ticket dest fo) \<Longrightarrow> op_well_formed (Receive ticket dest fo)"
    by (cases dest) (auto simp: parse_dest_def split: if_splits)
qed

lemma sends_cmd:
  assumes "clap_accepts c" "c \<noteq> CmdDaemon DcRun"
  shows "stays (sends op_well_formed) (run_cmd E serve d c)"
proof (cases c)
  case (CmdDaemon dc)
  with assms(2) show ?thesis by (cases dc) (simp_all add: sends_daemon)
next
  case (CmdId qr_code)
  have "op_well_formed (NodeId qr_code)" by simp
  with CmdId show ?thesis by (simp add: run_id_def sends_request del: op_well_formed.simps)
next
  case (CmdInfo ticket)
  then show ?thesis by (simp add: run_info_def) (intro sends_rules)
qed (use assms(1) in \<open>simp_all add: run_import_def sends_request sends_receive sends_ring ring_op_well_formed cmd_op_well_formed
    del: op_well_formed.simps clap_accepts.simps\<close>)

section \<open>The display of a transfer\<close>

definition started :: "(nat \<times> nat \<times> string) \<times> (u64 \<times> u64) list \<Rightarrow> progress_event list" where
  "started f = (case f of ((idx, tot, name), chunks) \<Rightarrow> FileStart idx tot name # map (\<lambda>(n, t). Bytes n t) chunks)"

definition wire_file :: "nat \<times> nat \<times> string \<Rightarrow> usize \<times> usize \<times> string" where
  "wire_file f = (case f of (idx, tot, name) \<Rightarrow> (of_nat idx, of_nat tot, name))"

definition shown :: "usize \<times> usize \<times> string \<Rightarrow> (u64 \<times> u64) list \<Rightarrow> event_kind list" where
  "shown f chunks = (case f of (fi, ft, name) \<Rightarrow> map (\<lambda>(n, t). FileProgress fi ft name n t) chunks)"

lemma forward_bytes:
  "forward_progress q (Some (idx, tot, name)) (map (\<lambda>(n, t). Bytes n t) chunks @ rest)
    = map (\<lambda>(n, t). event_file_progress q (of_nat idx) (of_nat tot) name n t) chunks
      @ forward_progress q (Some (idx, tot, name)) rest"
  by (induction chunks) auto

lemma forward_files:
  "map ev_kind (forward_progress q current (concat (map started files)))
    = concat (map (\<lambda>(f, chunks). shown (wire_file f) chunks) files)"
proof (induction files arbitrary: current)
  case Nil
  show ?case by simp
next
  case (Cons f files)
  obtain idx tot name chunks where f: "f = ((idx, tot, name), chunks)" by (cases f) auto
  have "map ev_kind (map (\<lambda>(n, t). event_file_progress q (of_nat idx) (of_nat tot) name n t) chunks)
      = shown (wire_file (idx, tot, name)) chunks"
    by (simp add: shown_def wire_file_def event_file_progress_def case_prod_beta)
  with Cons show ?case by (simp add: f started_def forward_bytes)
qed

text \<open>What has been logged once the current file is ticked off.\<close>

definition pending :: "receive_view \<Rightarrow> string list" where
  "pending v = rv_log v @ (case rv_current v of None \<Rightarrow> [] | Some f \<Rightarrow> [tick f])"

lemma same_file:
  "rv_current v = Some f \<Longrightarrow> rv_log (fold receive_event (shown f chunks) v) = rv_log v
    \<and> rv_current (fold receive_event (shown f chunks) v) = Some f"
proof (induction chunks arbitrary: v)
  case Nil
  then show ?case by (simp add: shown_def case_prod_beta)
next
  case (Cons c chunks)
  obtain fi ft name n t where f: "f = (fi, ft, name)" "c = (n, t)" by (cases f; cases c) auto
  have "fold receive_event (shown f (c # chunks)) v
      = fold receive_event (shown f chunks) (v\<lparr>rv_length := t, rv_position := n\<rparr>)"
    using Cons.prems by (simp add: shown_def f Let_def)
  with Cons show ?case by simp
qed

lemma new_file:
  assumes "\<And>g. rv_current v = Some g \<Longrightarrow> fst g \<noteq> fst f" "chunks \<noteq> []"
  shows "rv_log (fold receive_event (shown f chunks) v) = pending v
    \<and> rv_current (fold receive_event (shown f chunks) v) = Some f"
proof -
  obtain fi ft name where f: "f = (fi, ft, name)" by (cases f)
  from assms(2) obtain n t rest where c: "chunks = (n, t) # rest" by (cases chunks) auto
  let ?v = "receive_event (FileProgress fi ft name n t) v"
  have v: "rv_log ?v = pending v" "rv_current ?v = Some f"
    using assms(1) by (cases "rv_current v"; auto simp: f pending_def tick_current_def Let_def)+
  have "fold receive_event (shown f chunks) v = fold receive_event (shown f rest) ?v"
    by (simp add: shown_def f c)
  with v same_file[OF v(2), of rest] show ?thesis by simp
qed

lemma files_shown:
  assumes "distinct (map (fst \<circ> fst) files)" "\<And>f. f \<in> set files \<Longrightarrow> snd f \<noteq> []"
    "\<And>g. rv_current v = Some g \<Longrightarrow> fst g \<notin> (fst \<circ> fst) ` set files"
  shows "pending (fold receive_event (concat (map (\<lambda>(f, c). shown f c) files)) v) = pending v @ map (tick \<circ> fst) files
    \<and> rv_log (fold receive_event (concat (map (\<lambda>(f, c). shown f c) files)) v)
      = (if files = [] then rv_log v else pending v @ map (tick \<circ> fst) (butlast files))"
  using assms
proof (induction files arbitrary: v)
  case Nil
  show ?case by simp
next
  case (Cons fc files)
  obtain f c where fc: "fc = (f, c)" by (cases fc)
  let ?v = "fold receive_event (shown f c) v"
  have v: "rv_log ?v = pending v" "rv_current ?v = Some f"
    using new_file[of v f c] Cons.prems(2)[of fc] Cons.prems(3) fc by force+
  have "pending ?v = pending v @ [tick f]" by (simp add: pending_def v)
  moreover have "fst g \<notin> (fst \<circ> fst) ` set files" if "rv_current ?v = Some g" for g
    using that v(2) Cons.prems(1) fc by auto
  ultimately show ?case using Cons.IH[of ?v] Cons.prems(1,2) v(1) fc by auto
qed

lemma view_after_files:
  assumes "distinct (map (fst \<circ> fst) files)" "\<And>f. f \<in> set files \<Longrightarrow> snd f \<noteq> []"
  defines "v \<equiv> fold receive_event (concat (map (\<lambda>(f, c). shown f c) files)) new_view"
  shows "pending v = map (tick \<circ> fst) files \<and> rv_log v = map (tick \<circ> fst) (butlast files)"
proof -
  have none: "pending new_view = []" "rv_log new_view = []" "rv_current new_view = None"
    by (simp_all add: pending_def new_view_def)
  have "fst g \<notin> (fst \<circ> fst) ` set files" if "rv_current new_view = Some g" for g using that none(3) by simp
  from files_shown[of files new_view, OF assms(1,2) this] none show ?thesis unfolding v_def by (cases "files = []") simp_all
qed

section \<open>Without a configuration\<close>

text \<open>The port shown when the configuration cannot be read is 0, not the default one.\<close>

lemma daemon_port_unreadable:
  "load_config E d s = (Inl e, s') \<Longrightarrow> daemon_port E d s = (Inr 0, s') \<and> (0 :: u16) \<noteq> default_daemon_port"
  by (simp add: daemon_port_def default_daemon_port_def)

section \<open>Properties\<close>


definition sample_cli :: "(string \<rightharpoonup> string, bytes32) cli_env" where
  "sample_cli = \<lparr>ce_json = stack_json, ce_identity = hex_identity, ce_fs = map_fs, ce_codec = json_codec stack_json raw_uuid,
     ce_tickets = ref_codec, ce_iroh = hex_iroh, ce_connect = (\<lambda>_ _. Inr (\<lambda>_. Inr [Eof])), ce_uuid = of_nat, ce_key = (\<lambda>_. 5),
     ce_now = 0, ce_exe = Inr ''/bin/rdrop'', ce_spawn = (\<lambda>_. Inr ()), ce_version = ''0.22.1'', ce_home = Some ''/home/a''\<rparr>"

definition fresh_cli :: "'s \<Rightarrow> 's cli_state" where
  "fresh_cli fs = \<lparr>cs_fs = fs, cs_out = [], cs_err = [], cs_tries = 0, cs_sent = [], cs_loads = 0, cs_spawned = [], cs_exit = None\<rparr>"


text \<open>
  C36: The expiry of \<open>ring add --expires\<close> is exact to the second: from the duration the
  user gave, counted from the clock of the command, the daemon records an instant that is
  not later and less than a second earlier, and it accepts it whenever at least a second
  is left when the request arrives.
\<close>
theorem cli_expiry_to_the_second:
  assumes "parse_duration txt = Inr d" "unix_secs_after now d = Inr u"
  shows "(arrival + 1000000000 \<le> now + int (d_secs d) * 1000000000 \<longrightarrow> (\<exists>e. future_expiry arrival u = Inr e))
    \<and> (\<forall>e. future_expiry arrival u = Inr e \<longrightarrow> arrival < ex_at e
        \<and> ex_at e \<le> now + int (d_secs d) * 1000000000 \<and> now + int (d_secs d) * 1000000000 < ex_at e + 1000000000)"
proof -
  let ?due = "now + int (d_secs d) * 1000000000"
  from assms(1) have "d_nanos d = 0" by (auto simp: parse_duration_iff from_secs_def)
  with assms(2) have range: "0 \<le> ?due" "?due div 1000000000 < 2 ^ 63" and u: "u = of_nat (nat (?due div 1000000000))"
    by (auto simp: unix_secs_after_def bindR_Inr opt_ctx_def time_checked_add_def duration_since_def UNIX_EPOCH_def Let_def
        split: option.splits if_splits)
  have fits: "nat (?due div 1000000000) < 2 ^ 64" using range by (simp add: nat_less_iff)
  have "unat (of_nat k :: u64) = k" if "k < 2 ^ 64" for k using that by (simp add: unat_of_nat)
  from this[OF fits] have "unat u = nat (?due div 1000000000)" unfolding u .
  moreover have "0 \<le> ?due div 1000000000" using range(1) by linarith
  ultimately have unat: "int (unat u) = ?due div 1000000000" by (simp only: nat_0_le)
  with range(2) have "int (unat u) < int (2 ^ 63)" by (simp only: of_nat_power of_nat_numeral)
  then have small: "unat u < 2 ^ 63" by (simp only: of_nat_less_iff)
  have div: "?due div 1000000000 * 1000000000 \<le> ?due" "?due < ?due div 1000000000 * 1000000000 + 1000000000"
    by linarith+
  have accepted: "\<exists>e. future_expiry arrival u = Inr e" if early: "arrival < int (unat u) * 1000000000"
  proof -
    obtain rem where rem: "duration_since (int (unat u) * 1000000000) arrival = Some rem"
      using early by (simp add: duration_since_def)
    with early small show ?thesis
      by (intro exI[of _ "\<lparr>ex_at = int (unat u) * 1000000000, ex_remaining = rem\<rparr>"]) (simp add: future_expiry_iff)
  qed
  show ?thesis
  proof (intro conjI impI allI)
    assume "arrival + 1000000000 \<le> ?due"
    with div unat show "\<exists>e. future_expiry arrival u = Inr e" by (intro accepted) linarith
  next
    fix e assume "future_expiry arrival u = Inr e"
    then have e: "arrival < int (unat u) * 1000000000" "ex_at e = int (unat u) * 1000000000"
      by (simp_all add: future_expiry_iff)
    with div unat show "arrival < ex_at e" "ex_at e \<le> ?due" "?due < ex_at e + 1000000000" by linarith+
  qed
qed

theorem cli_expiry_to_the_second_witness:
  "unix_secs_after 1500000000 (from_secs 60) = Inr 61 \<and> (\<exists>e. future_expiry 2000000000 61 = Inr e)"
proof -
  have p: "parse_duration (show_nat 1 @ ''m'') = Inr (from_secs (1 * 60))"
    by (rule parse_duration_show) (simp_all add: duration_units_def)
  have u: "unix_secs_after 1500000000 (from_secs (1 * 60)) = Inr 61"
    by (simp add: unix_secs_after_def time_checked_add_def duration_since_def UNIX_EPOCH_def from_secs_def)
  from cli_expiry_to_the_second[OF p u, of 2000000000] u show ?thesis by (simp add: from_secs_def)
qed

text \<open>
  The display of a collection transfer, through the daemon's relabelling of the
  receiver's progress: a successful transfer ticks off, in order and once each, the files
  for which bytes were reported, and a failed one all of those but the file it was at.
\<close>
theorem receive_ticks_files:
  assumes "distinct (map (\<lambda>f. fst (wire_file (fst f))) files)"
  shows "(let ks = map ev_kind (forward_progress q None (concat (map started files)));
           reported = map (tick \<circ> wire_file \<circ> fst) (filter (\<lambda>f. snd f \<noteq> []) files) in
      rv_log (receive_view_of (ks @ [Done])) = reported
    \<and> rv_log (receive_view_of (ks @ [Error msg])) = butlast reported
    \<and> rv_error (receive_view_of (ks @ [Error msg])) = Some msg)"
proof -
  let ?kept = "map (\<lambda>f. (wire_file (fst f), snd f)) (filter (\<lambda>f. snd f \<noteq> []) files)"
  have silent: "shown f [] = []" for f by (simp add: shown_def case_prod_beta)
  have "concat (map (\<lambda>(f, c). shown (wire_file f) c) files) = concat (map (\<lambda>(f, c). shown f c) ?kept)"
    by (induction files) (auto simp: silent)
  then have ks: "map ev_kind (forward_progress q None (concat (map started files))) = concat (map (\<lambda>(f, c). shown f c) ?kept)"
    by (simp only: forward_files)
  have dist: "distinct (map (fst \<circ> fst) ?kept)"
    using assms by (simp add: comp_def distinct_map_filter)
  have none: "pending new_view = []" "rv_log new_view = []" "rv_current new_view = None"
    by (simp_all add: pending_def new_view_def)
  let ?v = "fold receive_event (concat (map (\<lambda>(f, c). shown f c) ?kept)) new_view"
  have "snd f \<noteq> []" if "f \<in> set ?kept" for f using that by auto
  from view_after_files[OF dist this] have v: "pending ?v = map (tick \<circ> fst) ?kept" "rv_log ?v = map (tick \<circ> fst) (butlast ?kept)"
    by blast+
  have "rv_log (receive_event Done w) = pending w" for w
    by (simp add: pending_def tick_current_def split: option.split)
  with v show ?thesis
    unfolding ks Let_def by (simp add: receive_view_of_def comp_def map_butlast)
qed

theorem receive_ticks_files_witness:
  "rv_log (receive_view_of (map ev_kind (forward_progress 7 None (concat (map started
      [((1, 3, ''a''), [(5, 9), (9, 9)]), ((2, 3, ''empty''), []), ((3, 3, ''b''), [(1, 1)])]))) @ [Done]))
    = [tick (1, 3, ''a''), tick (3, 3, ''b'')]"
proof -
  let ?files = "[((1, 3, ''a''), [(5, 9), (9, 9)]), ((2, 3, ''empty''), []), ((3, 3, ''b''), [(1, 1)])] :: ((nat \<times> nat \<times> string) \<times> (u64 \<times> u64) list) list"
  have "distinct (map (\<lambda>f. fst (wire_file (fst f))) ?files)" by (simp add: wire_file_def)
  note ticks = receive_ticks_files[OF this, unfolded Let_def, THEN conjunct1]
  show ?thesis unfolding ticks by (simp add: wire_file_def)
qed

end
