(* ===== verification/Frames.thy ===== *)
theory Frames
  imports Connection
begin

text \<open>
  Which operations leave the access state alone: the registry, the grants and the address
  book.  Queries, events, the disk and the network are of no account to it, so all the
  listings, the transfer and the remote catalog are quiet, also where they fail.
\<close>

definition same_access :: "('r, 'g, 'p, 's) session \<Rightarrow> ('r, 'g, 'p, 's) session \<Rightarrow> bool" where
  "same_access s t \<longleftrightarrow> nd_registry t = nd_registry s \<and> nd_grants t = nd_grants s \<and> nd_peers t = nd_peers s"

interpretation frame: act_preorder same_access
  by unfold_locales (simp_all add: same_access_def)

lemma frame_parts:
  "stays same_access (registryQ f1)" "stays same_access (grantsQ f2)" "stays same_access (peersQ f3)"
  "stays same_access (diskA m)" "stays same_access (send e)" "stays same_access (run_download E ticket dest)"
  by (simp_all add: stays_def same_access_def registryQ_def grantsQ_def peersQ_def diskA_def send_def queryA_def
      modA_def run_download_def split: prod.split)

lemmas frame_rules = frame.stays_rules frame_parts

lemma frame_talk_parts:
  "stays same_access (send_lines q ls)" "stays same_access (resolve_target E target)"
  unfolding send_lines_def resolve_target_def by (intro frame_rules)+

lemma frame_ring_rows: "stays same_access (ring_rows E rs acc)"
  by (induction rs arbitrary: acc) (auto intro!: frame_rules)

lemma frame_lines:
  "stays same_access (ring_list_lines E)" "stays same_access (ring_members_lines E ring)"
  "stays same_access (peer_list_lines E)" "stays same_access (filtered_grant_lines E peer_f privilege_f)"
  unfolding ring_list_lines_def ring_members_lines_def peer_list_lines_def filtered_grant_lines_def
  by (intro frame_rules frame_ring_rows)+

lemma frame_handlers:
  "stays same_access (handle_node_id E q qr)" "stays same_access (handle_blob_list E q peer names)"
  "stays same_access (handle_ring_list E q)" "stays same_access (handle_ring_members E q ring)"
  "stays same_access (handle_peer_list E q)" "stays same_access (handle_receive E q ticket dest dir force)"
  "stays same_access (handle_grants E q peer_f privilege_f)" "stays same_access (handle_remote_blob_list E q rpeer)"
  unfolding handle_node_id_def handle_blob_list_def list_entry_def handle_ring_list_def handle_ring_members_def
    member_record_def handle_peer_list_def handle_receive_def handle_grants_def handle_remote_blob_list_def
    remote_entry_def Let_def
  by (intro frame_rules frame_talk_parts frame_lines)+

section \<open>The blob operations keep the grants and the address book\<close>

definition same_stores :: "('r, 'g, 'p, 's) session \<Rightarrow> ('r, 'g, 'p, 's) session \<Rightarrow> bool" where
  "same_stores s t \<longleftrightarrow> nd_grants t = nd_grants s \<and> nd_peers t = nd_peers s"

interpretation stores: act_preorder same_stores
  by unfold_locales (simp_all add: same_stores_def)

lemma frame_stores: "stays same_access m \<Longrightarrow> stays same_stores m"
  by (simp add: stays_def same_access_def same_stores_def)

lemma stores_registryU: "stays same_stores (registryU f)"
  by (simp add: stays_def same_stores_def registryU_def updA_def bindR_def split: sum.split)

lemmas stores_rules = stores.stays_rules stores_registryU frame_parts[THEN frame_stores]
  frame_talk_parts[THEN frame_stores]

lemma stores_blob_handlers:
  "stays same_stores (handle_import E q path names open_ring)"
  "stays same_stores (handle_attach E q target names open_ring)"
  "stays same_stores (handle_detach E q target names open_ring detach_all)"
  "stays same_stores (handle_blob_remove E q target)"
  unfolding handle_import_def import_report_def handle_attach_def handle_detach_def handle_blob_remove_def attach_ring_def
    rewrite_rings_def Let_def
  by (intro stores_rules)+

end
