(* ===== verification/Histories.thy ===== *)
theory Histories
  imports Frames
begin

text \<open>
  The daemon over time: histories of requests, served one after the other, with time
  passing in between (memberships expire, the disk changes).  What the requests of a
  history can do to access control: nobody comes to read a blob, or to see the catalog,
  but by a request that gave it to them; every member of a ring stays in the address
  book.  The last property shows what changes when two requests are served at once.
\<close>

section \<open>What a request may give\<close>

text \<open>\<open>confined M A G R s t\<close>: from \<open>s\<close> to \<open>t\<close> no membership appears but those in \<open>M\<close>, no
  permission of an attachment but \<open>Read\<close> on those in \<open>A\<close>, no grant but those in \<open>G\<close>, and no
  peer leaves the address book but those in \<open>R\<close>.\<close>

definition confined ::
    "('r \<Rightarrow> ring \<rightharpoonup> members) \<Rightarrow> ('r \<Rightarrow> bytes32 \<Rightarrow> ring \<rightharpoonup> permission set) \<Rightarrow> ('g \<Rightarrow> byte list \<rightharpoonup> unit)
     \<Rightarrow> ('p \<Rightarrow> byte list \<rightharpoonup> string) \<Rightarrow> (ring \<times> endpoint_id) set \<Rightarrow> (bytes32 \<times> ring) set
     \<Rightarrow> (privilege \<times> endpoint_id) set \<Rightarrow> endpoint_id set
     \<Rightarrow> ('r, 'g, 'p, 's) session \<Rightarrow> ('r, 'g, 'p, 's) session \<Rightarrow> bool" where
  "confined rings attached gview pview M A G R s t \<longleftrightarrow>
     (\<forall>n p. in_ring (rings (nd_registry t)) n p \<longrightarrow> in_ring (rings (nd_registry s)) n p \<or> (n, p) \<in> M) \<and>
     (\<forall>h n. perms_of (attached (nd_registry t) h n)
        \<subseteq> perms_of (attached (nd_registry s) h n) \<union> (if (h, n) \<in> A then {Read} else {})) \<and>
     grants_abs gview (nd_grants t) \<subseteq> grants_abs gview (nd_grants s) \<union> G \<and>
     dom (peers_abs pview (nd_peers s)) \<subseteq> dom (peers_abs pview (nd_peers t)) \<union> R"

text \<open>The memberships, readers and grants that a request names.\<close>

fun new_members :: "('r, 'g, 'gt, 'p, 'pt, 's) env \<Rightarrow> op \<Rightarrow> (ring \<times> endpoint_id) set" where
  "new_members E (RingAdd ring peer expires_at) = (if ring = OPEN_RING_NAME then {}
     else case ir_parse_id (en_iroh E) peer of Inr p \<Rightarrow> {(ring, p)} | Inl _ \<Rightarrow> {})"
| "new_members E _ = {}"

definition attach_pairs :: "blob_hash result \<Rightarrow> ring list \<Rightarrow> (bytes32 \<times> ring) set" where
  "attach_pairs r names = (case r of Inr h \<Rightarrow> {hash_word h} \<times> set names | Inl _ \<Rightarrow> {})"

fun new_readers ::
    "('r, 'g, 'gt, 'p, 'pt, 's) env \<Rightarrow> op \<Rightarrow> ('r, 'g, 'p, 's) session \<Rightarrow> (bytes32 \<times> ring) set" where
  "new_readers E (BlobAttach target names open_ring) s = attach_pairs (fst (resolve_target E target s))
     (if open_ring then OPEN_RING_NAME # names else names)"
| "new_readers E (Import path names open_ring) s =
     attach_pairs (bindR (fst (import_path (en_store E) (en_os E) (en_iroh E) path (nd_disk s))) (\<lambda>(h, _). Inr h))
       (if open_ring then [OPEN_RING_NAME] else names)"
| "new_readers E _ s = {}"

fun removed_peers :: "('r, 'g, 'gt, 'p, 'pt, 's) env \<Rightarrow> op \<Rightarrow> endpoint_id set" where
  "removed_peers E (PeerRemove peer) = (case ir_parse_id (en_iroh E) peer of Inr p \<Rightarrow> {p} | Inl _ \<Rightarrow> {})"
| "removed_peers E _ = {}"

fun new_grants :: "('r, 'g, 'gt, 'p, 'pt, 's) env \<Rightarrow> op \<Rightarrow> (privilege \<times> endpoint_id) set" where
  "new_grants E (OpGrant peer privilege) = (case (privilege_try_from privilege, ir_parse_id (en_iroh E) peer) of
     (Inr pr, Inr p) \<Rightarrow> {(pr, p)} | _ \<Rightarrow> {})"
| "new_grants E _ = {}"

text \<open>A request gives a peer a permission on a blob: it adds the peer to a ring that grants
  it, or attaches the blob to a ring that the peer is in.\<close>

definition gives_access ::
    "('r \<Rightarrow> ring \<rightharpoonup> members) \<Rightarrow> ('r \<Rightarrow> bytes32 \<Rightarrow> ring \<rightharpoonup> permission set) \<Rightarrow> ('r, 'g, 'gt, 'p, 'pt, 's) env \<Rightarrow> op
     \<Rightarrow> ('r, 'g, 'p, 's) session \<Rightarrow> endpoint_id \<Rightarrow> bytes32 \<Rightarrow> permission \<Rightarrow> bool" where
  "gives_access rings attached E op s p h perm \<longleftrightarrow>
     (\<exists>n. (n, p) \<in> new_members E op \<and> perm \<in> perms_of (attached (nd_registry s) h n)) \<or>
     perm = Read \<and> (\<exists>n. (h, n) \<in> new_readers E op s \<and> in_ring (rings (nd_registry s)) n p)"

interpretation gain: act_preorder "confined rings attached gview pview M A G R"
  for rings :: "'r \<Rightarrow> ring \<rightharpoonup> members" and attached and gview :: "'g \<Rightarrow> byte list \<rightharpoonup> unit"
    and pview :: "'p \<Rightarrow> byte list \<rightharpoonup> string" and M A G R
proof
  fix s t u :: "('r, 'g, 'p, 's) session"
  show "confined rings attached gview pview M A G R s s" by (auto simp: confined_def)
  assume "confined rings attached gview pview M A G R s t" "confined rings attached gview pview M A G R t u"
  then show "confined rings attached gview pview M A G R s u" unfolding confined_def by blast
qed

lemma gain_quiet:
  "nd_registry t = nd_registry s \<Longrightarrow> nd_grants t = nd_grants s \<Longrightarrow> nd_peers t = nd_peers s \<Longrightarrow>
    confined rings attached gview pview M A G R s t"
  by (simp add: confined_def)

lemma quiet_confined:
  "stays same_access m \<Longrightarrow> stays (confined rings attached gview pview M A G R) m"
  unfolding stays_def same_access_def by (blast intro: gain_quiet)

lemmas gain_rules = gain.stays_rules frame_parts[THEN quiet_confined] frame_talk_parts[THEN quiet_confined]

context node_laws
begin

abbreviation gains where
  "gains M A G R m \<equiv> stays (confined rings attached gview pview M A G R) m"

lemma gains_registry:
  assumes "\<And>r r'. f r = Inr r' \<Longrightarrow>
      (\<forall>n p. in_ring (rings r') n p \<longrightarrow> in_ring (rings r) n p \<or> (n, p) \<in> M) \<and>
      (\<forall>h n. perms_of (attached r' h n) \<subseteq> perms_of (attached r h n) \<union> (if (h, n) \<in> A then {Read} else {}))"
  shows "gains M A G R (registryU f)"
  unfolding stays_def
proof
  fix s
  show "confined rings attached gview pview M A G R s (snd (registryU f s))"
  proof (cases "f (nd_registry s)")
    case (Inl e)
    then show ?thesis by (simp add: registryU_run gain_quiet)
  next
    case (Inr r')
    with assms[OF Inr] show ?thesis by (simp add: registryU_run confined_def)
  qed
qed

lemma gains_create: "gains M A G R (registryU (\<lambda>r. rg_create_ring (en_registry E) r n))"
  by (rule gains_registry) (auto dest!: reg.create_ring simp: in_ring_def members_of_def split: if_splits)

lemma gains_add_peer: "(n, p) \<in> M \<Longrightarrow> gains M A G R (registryU (\<lambda>r. rg_add_peer_to_ring (en_registry E) r n p lbl e))"
proof (rule gains_registry, goal_cases)
  case (1 r r')
  from reg.add_peer[OF 1(2)] obtain m' where "rings r' = (rings r)(n \<mapsto> m')"
    "\<forall>q. q \<noteq> p \<longrightarrow> m' q = members_of (rings r n) q" "attached r' = attached r" by blast
  with 1(1) show ?case by (auto simp: in_ring_def members_of_def split: if_splits)
qed

lemma gains_remove_peer: "gains M A G R (registryU (\<lambda>r. rg_remove_peer_from_ring (en_registry E) r n p))"
  by (rule gains_registry)
    (auto dest!: reg.remove_peer simp: in_ring_def members_of_def split: if_splits option.splits)

lemma gains_detach_all: "gains M A G R (registryU (\<lambda>r. rg_remove_ring_from_resource (en_registry E) r h))"
  by (rule gains_registry) (auto dest!: reg.remove_ring_from_resource simp: perms_of_def split: if_splits)

lemma gains_attach: "(hash_word h, n) \<in> A \<Longrightarrow> gains M A G R (attach_ring E h n)"
  unfolding attach_ring_def
proof (rule gains_registry, goal_cases)
  case (1 r r')
  from reg.add_ring_to_resource[OF 1(2)] obtain ps where
    "attached r' = (attached r)(hash_word h := (attached r (hash_word h))(n \<mapsto> ps))"
    "ps \<subseteq> {Read} \<union> perms_of (attached r (hash_word h) n)" "rings r' = rings r" by auto
  with 1(1) show ?case by (auto simp: perms_of_def split: if_splits)
qed

lemma gains_grants:
  assumes "\<And>g g'. f g = Inr g' \<Longrightarrow> grants_abs gview g' \<subseteq> grants_abs gview g \<union> G"
  shows "gains M A G R (grantsU f)"
  unfolding stays_def
proof
  fix s
  show "confined rings attached gview pview M A G R s (snd (grantsU f s))"
  proof (cases "f (nd_grants s)")
    case (Inl e)
    then show ?thesis by (simp add: grantsU_def updA_def gain_quiet)
  next
    case (Inr g)
    with assms[OF Inr] show ?thesis by (simp add: grantsU_def updA_def confined_def)
  qed
qed

lemma gains_grant: "(pr, p) \<in> G \<Longrightarrow> gains M A G R (grantsU (grants_grant (en_grants E) pr p))"
proof (rule gains_grants)
  fix g g' assume "(pr, p) \<in> G" "grants_grant (en_grants E) pr p g = Inr g'"
  with gs.grant[of pr p g] show "grants_abs gview g' \<subseteq> grants_abs gview g \<union> G" by auto
qed

lemma gains_revoke: "gains M A G R (grantsU (grants_revoke (en_grants E) pr p))"
proof (rule gains_grants)
  fix g g' assume "grants_revoke (en_grants E) pr p g = Inr g'"
  with gs.revoke[of pr p g] show "grants_abs gview g' \<subseteq> grants_abs gview g \<union> G" by auto
qed

lemma gains_peers:
  assumes "\<And>ps ps'. f ps = Inr ps' \<Longrightarrow> dom (peers_abs pview ps) \<subseteq> dom (peers_abs pview ps') \<union> R"
  shows "gains M A G R (peersU f)"
  unfolding stays_def
proof
  fix s
  show "confined rings attached gview pview M A G R s (snd (peersU f s))"
  proof (cases "f (nd_peers s)")
    case (Inl e)
    then show ?thesis by (simp add: peersU_def updA_def gain_quiet)
  next
    case (Inr ps')
    with assms[OF Inr] show ?thesis by (simp add: peersU_def updA_def confined_def)
  qed
qed

lemma gains_ensure: "gains M A G R (peersU (peers_ensure (en_peers E) p))"
proof (rule gains_peers)
  fix g g' assume "peers_ensure (en_peers E) p g = Inr g'"
  with ps.ensure[of p g] show "dom (peers_abs pview g) \<subseteq> dom (peers_abs pview g') \<union> R" by auto
qed

lemma gains_upsert: "gains M A G R (peersU (peers_upsert (en_peers E) p nickname))"
proof (rule gains_peers)
  fix g g' assume "peers_upsert (en_peers E) p nickname g = Inr g'"
  with ps.upsert[of p nickname g] show "dom (peers_abs pview g) \<subseteq> dom (peers_abs pview g') \<union> R" by auto
qed

lemmas gains_rules = gain_rules gains_create gains_remove_peer gains_detach_all
  gains_revoke gains_ensure gains_upsert

lemma gain_attached:
  assumes "confined rings attached gview pview M A G R s u" "rings r' = rings (nd_registry u)"
    and "\<And>g k. perms_of (attached r' g k)
      \<subseteq> perms_of (attached (nd_registry u) g k) \<union> perms_of (attached (nd_registry s) g k)"
  shows "confined rings attached gview pview M A G R s (u\<lparr>nd_registry := r'\<rparr>)"
proof -
  let ?t = "u\<lparr>nd_registry := r'\<rparr>"
  have eq: "nd_registry ?t = r'" "nd_grants ?t = nd_grants u" "nd_peers ?t = nd_peers u" by simp_all
  show ?thesis
    using assms(1,3) unfolding confined_def eq assms(2) by blast
qed

lemma gains_add_back:
  assumes "\<And>n ps. (n, ps) \<in> set l \<Longrightarrow> set ps \<subseteq> perms_of (attached (nd_registry s) h n)"
    and "confined rings attached gview pview M A G R s u"
  shows "confined rings attached gview pview M A G R s (snd (forA l (\<lambda>(ring, perms).
    registryU (\<lambda>r. rg_add_ring_to_resource (en_registry E) r h ring perms)) u))"
  using assms
proof (induction l arbitrary: u)
  case Nil
  then show ?case by (simp add: act_simps)
next
  case (Cons np l)
  obtain n ps where np: "np = (n, ps)" by (cases np)
  show ?case
  proof (cases "rg_add_ring_to_resource (en_registry E) (nd_registry u) h n ps")
    case (Inl e)
    with np Cons.prems(2) show ?thesis by (simp add: act_simps)
  next
    case (Inr r')
    from reg.add_ring_to_resource[OF Inr] obtain ps' where
      "attached r' = (attached (nd_registry u))(h := (attached (nd_registry u) h)(n \<mapsto> ps'))"
      "ps' \<subseteq> set ps \<union> perms_of (attached (nd_registry u) h n)" "rings r' = rings (nd_registry u)" by auto
    with Cons.prems(1)[of n ps] np
    have "confined rings attached gview pview M A G R s (u\<lparr>nd_registry := r'\<rparr>)"
      by (intro gain_attached Cons.prems(2)) (auto simp: perms_of_def)
    with Cons.IH Cons.prems(1) Inr np show ?thesis by (simp add: act_simps)
  qed
qed

text \<open>The read-modify-write of a selective detach, taken as one: it gives nothing.\<close>

lemma gain_rewrite:
  assumes "\<And>n ps. (n, ps) \<in> set l \<Longrightarrow> set ps \<subseteq> perms_of (attached (nd_registry s) (hash_word h) n)"
  shows "confined rings attached gview pview M A G R s (snd (rewrite_rings E h l s))"
proof (cases "rg_remove_ring_from_resource (en_registry E) (nd_registry s) (hash_word h)")
  case (Inl e)
  then show ?thesis by (simp add: rewrite_rings_def act_simps gain_quiet)
next
  case (Inr r')
  let ?s1 = "s\<lparr>nd_registry := r'\<rparr>"
  have "confined rings attached gview pview M A G R s ?s1"
    using reg.remove_ring_from_resource[OF Inr] by (auto simp: confined_def perms_of_def)
  from gains_add_back[OF assms this] Inr show ?thesis by (simp add: rewrite_rings_def act_simps)
qed

lemma gains_detach: "gains M A G R (handle_detach E q target names open_ring detach_all)"
proof -
  let ?k = "\<lambda>h to_remove current.
      let actually_removed = filter (\<lambda>name. list_ex (\<lambda>(r, _). r = name) current) to_remove in
       if actually_removed = [] then
         fail (anyhow_msg (''blob '' @ ir_show_hash (en_iroh E) h @ '' is not attached to: '' @ join_str '', '' to_remove))
       else
         let remaining = filter (\<lambda>(ring, _). ring \<notin> set to_remove) current in
         thenA (rewrite_rings E h remaining)
        (thenA (forA actually_removed (\<lambda>name.
            send (event_line q (''Detached '' @ ir_show_hash (en_iroh E) h @ '' from ring '' @ quoted name))))
           (send (event_done q)))"
  have sel: "gains M A G R (bindA (registryQ (\<lambda>r. rg_list_resource_rings (en_registry E) r (hash_word h))
      :: (('r, 'g, 'p, 's) session, _) act) (?k h rm))" for h rm
    unfolding stays_def
  proof (intro allI gain.rel_bind)
    fix s t :: "('r, 'g, 'p, 's) session" and a
    assume "registryQ (\<lambda>r. rg_list_resource_rings (en_registry E) r (hash_word h)) s = (Inr a, t)"
    then have l: "rg_list_resource_rings (en_registry E) (nd_registry s) (hash_word h) = Inr a" and t: "t = s"
      by (auto simp: registryQ_run)
    note d = reg.list_resource_rings[OF l, THEN conjunct1] and m = reg.list_resource_rings[OF l, THEN conjunct2]
    have "set ps \<subseteq> perms_of (attached (nd_registry s) (hash_word h) n)" if "(n, ps) \<in> set a" for n ps
      using that assoc_map_Some[OF d, of n "set ps"] m by (auto simp: perms_of_def)
    then have w: "confined rings attached gview pview M A G R t
        (snd (rewrite_rings E h (filter (\<lambda>(ring, _). ring \<notin> set rm) a) t))"
      unfolding t by (intro gain_rewrite) auto
    have rest: "gains M A G R (thenA (forA xs (\<lambda>x. send (f x))) (send e))" for xs f e
      by (intro gain_rules)
    show "confined rings attached gview pview M A G R t (snd (?k h rm a t))"
    proof (cases "filter (\<lambda>name. list_ex (\<lambda>(r, _). r = name) a) rm = []")
      case True
      then show ?thesis unfolding Let_def if_P[OF True] by (simp add: act_apply gain_quiet)
    next
      case False
      show ?thesis
        unfolding Let_def if_not_P[OF False] by (rule gain.rel_then, rule w, rule gain.stays_rel, rule rest)
    qed
  qed (simp add: registryQ_run gain_quiet)
  show ?thesis
    unfolding handle_detach_def Let_def
    by (rule gain.stays_bind, rule frame_talk_parts[THEN quiet_confined], rule gain.stays_split(1), intro gains_rules,
        rule sel[unfolded Let_def])
qed

lemma gains_remove_from_rings: "gains M A G R (remove_from_rings E p rs acc)"
  by (induction rs arbitrary: acc) (auto intro!: gains_rules)

lemma gains_revoke_all: "gains M A G R (revoke_all E p prs acc)"
  by (induction prs arbitrary: acc) (auto intro!: gains_rules)

lemmas gains_loops = gains_remove_from_rings gains_revoke_all

lemma gains_lines:
  "gains M A G R (ring_new_lines E name)" "gains M A G R (ring_remove_lines E ring peer)"
  "gains M A G R (peer_add_lines E peer nickname)" "gains M A G R (revoke_lines E peer privilege)"
  unfolding ring_new_lines_def ring_remove_lines_def peer_add_lines_def revoke_lines_def
  by (intro gains_rules)+

lemma gains_handlers: "gains M A G R (handle_blob_remove E q target)" "gains M A G R (handle_revoke E q rpeer privilege)"
  unfolding handle_blob_remove_def handle_revoke_def by (intro gains_rules gains_lines)+

lemma gains_ring_add: "gains (new_members E (RingAdd ring peer ex)) A G R (ring_add_lines E me ring peer ex)"
  unfolding ring_add_lines_def
  by (intro gain.stays_bind_lift gains_rules gains_add_peer) simp

lemma gains_peer_remove: "gains M A G (removed_peers E (PeerRemove peer)) (peer_remove_lines E peer)"
proof -
  have rm: "gains M A G {p} (peersU (peers_remove (en_peers E) (en_iroh E) p))" for p
  proof (rule gains_peers)
    fix g g' assume "peers_remove (en_peers E) (en_iroh E) p g = Inr g'"
    with ps.remove_known[of g p] show "dom (peers_abs pview g) \<subseteq> dom (peers_abs pview g') \<union> {p}"
      by (cases "peers_abs pview g p = None") auto
  qed
  show ?thesis
  proof (cases "ir_parse_id (en_iroh E) peer")
    case (Inl e)
    then show ?thesis
      by (simp add: stays_def gain_quiet peer_remove_lines_def parse_peer_id_def bindA_def act_apply bail_def)
  next
    case (Inr p)
    then show ?thesis
      unfolding peer_remove_lines_def
      by (intro gain.stays_bind_lift gains_rules gains_loops) (simp add: rm)
  qed
qed

lemma gains_handle_grant: "gains M A (new_grants E (OpGrant peer privilege)) R (handle_grant E q peer privilege)"
  unfolding handle_grant_def grant_lines_def
  by (intro gain.stays_bind_lift gains_rules gains_grant) auto

lemma gain_attach:
  "confined rings attached gview pview M (new_readers E (BlobAttach target names open_ring) s) G R
     s (snd (handle_attach E q target names open_ring s))"
proof (cases "names = [] \<and> \<not> open_ring")
  case True
  then show ?thesis by (simp add: handle_attach_def act_simps gain_quiet)
next
  case False
  show ?thesis
    unfolding handle_attach_def if_not_P[OF False]
  proof (rule gain.rel_bind, rule gain.stays_rel, rule frame_talk_parts[THEN quiet_confined])
    fix h t assume "resolve_target E target s = (Inr h, t)"
    then show "confined rings attached gview pview M (new_readers E (BlobAttach target names open_ring) s) G R t
      (snd (thenA (forA names (\<lambda>ring. thenA (attach_ring E h ring)
         (send (event_line q (''Attached '' @ ir_show_hash (en_iroh E) h @ '' to ring '' @ quoted ring)))))
       (thenA (if open_ring then thenA (attach_ring E h OPEN_RING_NAME)
              (send (event_line q (''Attached '' @ ir_show_hash (en_iroh E) h @ '' to open ring (publicly accessible)'')))
          else ret ())
          (send (event_done q))) t))"
      by (intro gain.stays_rel gain.stays_then gain.stays_for gain.stays_split gains_attach gains_rules)
        (auto simp: attach_pairs_def)
  qed
qed

lemma gain_import:
  "confined rings attached gview pview M (new_readers E (Import path names open_ring) s) G R
     s (snd (handle_import E q path names open_ring s))"
  unfolding handle_import_def import_report_def
proof (rule gain.rel_bind, rule gain.stays_rel, rule frame_parts[THEN quiet_confined], goal_cases)
  case (1 hf t)
  then obtain h f where hf: "hf = (h, f)"
    and run: "fst (import_path (en_store E) (en_os E) (en_iroh E) path (nd_disk s)) = Inr (h, f)"
    by (cases hf) (auto simp: diskA_def split: prod.splits)
  then have A: "new_readers E (Import path names open_ring) s
      = {hash_word h} \<times> set (if open_ring then [OPEN_RING_NAME] else names)"
    by (simp add: attach_pairs_def)
  show ?case
    unfolding hf prod.case Let_def A
    by (intro gain.stays_rel gain.stays_then gain.stays_for gain.stays_split gains_attach gains_rules) auto
qed

text \<open>One request gives at most what it names, whether it succeeds or fails.\<close>

lemma handle_op_gain:
  "confined rings attached gview pview (new_members E op) (new_readers E op s) (new_grants E op)
     (removed_peers E op) s (snd (handle_op E default_dir q op s))"
proof (cases op)
  case (RingAdd ring peer ex)
  show ?thesis
    unfolding RingAdd handle_op.simps send_ok_def
    by (intro gain.stays_rel gain.stays_bind gains_ring_add gains_rules)
next
  case (PeerRemove peer)
  show ?thesis
    unfolding PeerRemove handle_op.simps send_ok_def
    by (intro gain.stays_rel gain.stays_bind gains_peer_remove gains_rules)
next
  case (OpGrant peer privilege)
  show ?thesis unfolding OpGrant handle_op.simps by (rule gain.stays_rel, rule gains_handle_grant)
next
  case (BlobAttach target names open_ring)
  show ?thesis unfolding BlobAttach handle_op.simps by (rule gain_attach)
next
  case (Import path names open_ring)
  show ?thesis unfolding Import handle_op.simps by (rule gain_import)
qed (erule ssubst, unfold handle_op.simps send_ok_def, rule gain.stays_rel,
  intro frame_handlers[THEN quiet_confined] gains_handlers gains_detach gain.stays_bind gains_lines gains_rules)+

lemma dispatch_gain:
  assumes "dispatch E default_dir req s = (t, stop)"
  shows "confined rings attached gview pview (new_members E (rq_op req)) (new_readers E (rq_op req) s)
    (new_grants E (rq_op req)) (removed_peers E (rq_op req)) s t"
proof (cases "rq_op req = Shutdown")
  case True
  with assms show ?thesis by (auto simp: dispatch_def send_run gain_quiet)
next
  case False
  obtain r u where run: "handle_op E default_dir (rq_req_id req) (rq_op req) s = (r, u)"
    by (cases "handle_op E default_dir (rq_req_id req) (rq_op req) s")
  have "nd_registry t = nd_registry u \<and> nd_grants t = nd_grants u \<and> nd_peers t = nd_peers u"
    using assms False run by (cases r) (auto simp: dispatch_def send_run)
  with handle_op_gain[of "rq_op req" s default_dir "rq_req_id req"] show ?thesis
    by (simp add: run confined_def)
qed

text \<open>What it takes to be allowed something, or granted something, that was not before.\<close>

lemma confined_allowed:
  assumes "confined rings attached gview pview (new_members E op) (new_readers E op s) G R s t"
    and "allowed (rings (nd_registry t)) (attached (nd_registry t)) p h perm"
  shows "allowed (rings (nd_registry s)) (attached (nd_registry s)) p h perm
    \<or> gives_access rings attached E op s p h perm"
proof -
  from assms(2) obtain n where n: "perm \<in> perms_of (attached (nd_registry t) h n)"
    "in_ring (rings (nd_registry t)) n p"
    by (auto simp: allowed_iff)
  with assms(1) have "in_ring (rings (nd_registry s)) n p \<or> (n, p) \<in> new_members E op"
    "perm \<in> perms_of (attached (nd_registry s) h n) \<or> perm = Read \<and> (h, n) \<in> new_readers E op s"
    unfolding confined_def by (blast, fastforce split: if_splits)
  moreover have "new_members E op = {} \<or> new_readers E op s = {}" by (cases op) auto
  ultimately show ?thesis unfolding gives_access_def allowed_iff by blast
qed

end

section \<open>Histories\<close>

text \<open>What happens to a daemon: it serves a request, or time goes by, in which memberships
  may expire and the disk may change.  A history records each moment with the state it
  found.  The clock and the network differ from request to request.\<close>

datatype moment = Served op | Elapsed

inductive history ::
    "('r, 'g, 'gt, 'p, 'pt, 's) env \<Rightarrow> string option \<Rightarrow> ('r \<Rightarrow> ring \<rightharpoonup> members) \<Rightarrow> ('r \<Rightarrow> bytes32 \<Rightarrow> ring \<rightharpoonup> permission set)
     \<Rightarrow> ('r, 'g, 'p, 's) session \<Rightarrow> (('r, 'g, 'p, 's) session \<times> moment) list \<Rightarrow> ('r, 'g, 'p, 's) session \<Rightarrow> bool"
  for E default_dir rings attached s where
  history_start: "history E default_dir rings attached s [] s"
| history_served: "history E default_dir rings attached s tr u \<Longrightarrow>
    dispatch (E\<lparr>en_now := now, en_dial := dial, en_connect := connect\<rparr>) default_dir req (u\<lparr>sn_out := []\<rparr>) = (t, stop) \<Longrightarrow>
    history E default_dir rings attached s (tr @ [(u\<lparr>sn_out := []\<rparr>, Served (rq_op req))]) t"
| history_elapsed: "history E default_dir rings attached s tr u \<Longrightarrow>
    (\<And>n p. in_ring (rings r) n p \<Longrightarrow> in_ring (rings (nd_registry u)) n p) \<Longrightarrow>
    attached r = attached (nd_registry u) \<Longrightarrow>
    history E default_dir rings attached s (tr @ [(u, Elapsed)]) (u\<lparr>nd_registry := r, nd_disk := disk\<rparr>)"

text \<open>Whatever arrives on a connection: what is not a request leaves the state alone, and a
  request is a moment of the history, whether its client stays or goes.\<close>

lemma history_connection:
  assumes "history E default_dir rings attached s tr u"
    and "handle_connection (E\<lparr>en_now := now, en_dial := dial, en_connect := connect\<rparr>) C default_dir item u w
      = (r, t, stop, w')"
  shows "(\<exists>op. history E default_dir rings attached s (tr @ [(u\<lparr>sn_out := []\<rparr>, Served op)]) t)
    \<or> t = u \<and> \<not> stop"
proof (cases "\<exists>l req. item = LineIn l \<and> ic_parse_request C l = Inr req")
  case True
  then obtain l req where l: "item = LineIn l" "ic_parse_request C l = Inr req" by blast
  then have "dispatch (E\<lparr>en_now := now, en_dial := dial, en_connect := connect\<rparr>) default_dir req (u\<lparr>sn_out := []\<rparr>)
      = (t, stop)"
    using assms(2) by (auto simp: handle_connection_def split: prod.splits)
  from history_served[OF assms(1) this] show ?thesis by blast
next
  case False
  with assms(2) show ?thesis
    by (auto simp: handle_connection_def Let_def split: framed.splits sum.splits)
qed

fun by_request :: "(op \<Rightarrow> 'st \<Rightarrow> bool) \<Rightarrow> 'st \<times> moment \<Rightarrow> bool" where
  "by_request g (u, Served op) = g op u"
| "by_request g (u, Elapsed) = False"

text \<open>\<open>Q\<close> held at every moment, or a moment gave it and it held at every later one.\<close>

definition since :: "('st \<Rightarrow> bool) \<Rightarrow> ('st \<times> moment \<Rightarrow> bool) \<Rightarrow> ('st \<times> moment) list \<Rightarrow> bool" where
  "since Q g tr \<longleftrightarrow> (\<forall>(u, _) \<in> set tr. Q u) \<or>
     (\<exists>a u m b. tr = a @ (u, m) # b \<and> \<not> Q u \<and> g (u, m) \<and> (\<forall>(v, _) \<in> set b. Q v))"

lemma since_snoc:
  assumes "since Q g tr" "Q u"
  shows "since Q g (tr @ [(u, m)])"
proof (cases "\<forall>(v, _) \<in> set tr. Q v")
  case True
  with assms(2) show ?thesis by (simp add: since_def)
next
  case False
  with assms(1) obtain a v k b where "tr = a @ (v, k) # b" "\<not> Q v" "g (v, k)" "\<forall>(w, _) \<in> set b. Q w"
    unfolding since_def by blast
  with assms(2) have "tr @ [(u, m)] = a @ (v, k) # (b @ [(u, m)])" "\<forall>(w, _) \<in> set (b @ [(u, m)]). Q w"
    by auto
  with \<open>\<not> Q v\<close> \<open>g (v, k)\<close> show ?thesis unfolding since_def by blast
qed

lemma since_now: "\<not> Q u \<Longrightarrow> g (u, m) \<Longrightarrow> since Q g (tr @ [(u, m)])"
  unfolding since_def by fastforce

lemma moment_resolve [simp]:
  "resolve_target (E\<lparr>en_now := now, en_dial := dial, en_connect := connect\<rparr>) target = resolve_target E target"
  by (simp add: resolve_target_def cong: if_cong)

lemma moment_env [simp]:
  "new_members (E\<lparr>en_now := now, en_dial := dial, en_connect := connect\<rparr>) op = new_members E op"
  "new_readers (E\<lparr>en_now := now, en_dial := dial, en_connect := connect\<rparr>) op u = new_readers E op u"
  "new_grants (E\<lparr>en_now := now, en_dial := dial, en_connect := connect\<rparr>) op = new_grants E op"
  "removed_peers (E\<lparr>en_now := now, en_dial := dial, en_connect := connect\<rparr>) op = removed_peers E op"
  by (cases op; simp)+

definition members_known ::
    "('r \<Rightarrow> ring \<rightharpoonup> members) \<Rightarrow> ('p \<Rightarrow> byte list \<rightharpoonup> string) \<Rightarrow> ('r, 'g, 'p, 's) session \<Rightarrow> bool" where
  "members_known rings pview s \<longleftrightarrow> (\<forall>n p. n \<noteq> OPEN_RING_NAME \<longrightarrow> in_ring (rings (nd_registry s)) n p \<longrightarrow>
     peers_abs pview (nd_peers s) p \<noteq> None)"

lemma members_known_confined:
  assumes "confined rings attached gview pview {} A G R s t" "members_known rings pview s"
    and "R \<inter> dom (peers_abs pview (nd_peers s)) = {}"
  shows "members_known rings pview t"
  unfolding members_known_def
proof (intro allI impI)
  fix n p assume "n \<noteq> OPEN_RING_NAME" "in_ring (rings (nd_registry t)) n p"
  with assms(1,2) have "p \<in> dom (peers_abs pview (nd_peers s))"
    unfolding confined_def members_known_def by blast
  moreover have "dom (peers_abs pview (nd_peers s)) \<subseteq> dom (peers_abs pview (nd_peers t)) \<union> R"
    using assms(1) unfolding confined_def by blast
  ultimately show "peers_abs pview (nd_peers t) p \<noteq> None" using assms(3) by blast
qed

lemma dispatch_state:
  assumes "dispatch E default_dir req s = (t, stop)" "rq_op req \<noteq> Shutdown"
    "handle_op E default_dir (rq_req_id req) (rq_op req) s = (r, u)"
  shows "nd_registry t = nd_registry u \<and> nd_grants t = nd_grants u \<and> nd_peers t = nd_peers u \<and> nd_disk t = nd_disk u"
  using assms by (cases r) (auto simp: dispatch_def send_run)

lemma send_ok_state:
  assumes "m s = (r, u)"
  shows "nd_registry (snd (send_ok q m s)) = nd_registry u \<and> nd_grants (snd (send_ok q m s)) = nd_grants u
    \<and> nd_peers (snd (send_ok q m s)) = nd_peers u"
  using assms by (cases r) (simp_all add: send_ok_def bindA_def act_simps)

context node_laws
begin

lemma at_moment: "node_laws (E\<lparr>en_now := now, en_dial := dial, en_connect := connect\<rparr>) rings attached gview gtview pview ptview"
  using node_laws_axioms by (simp add: node_laws_def)

lemma moment_confined:
  assumes "dispatch (E\<lparr>en_now := now, en_dial := dial, en_connect := connect\<rparr>) default_dir req u = (t, stop)"
  shows "confined rings attached gview pview (new_members E (rq_op req)) (new_readers E (rq_op req) u)
    (new_grants E (rq_op req)) (removed_peers E (rq_op req)) u t"
  using node_laws.dispatch_gain[OF at_moment assms] by simp

lemma elapsed_confined:
  assumes "\<And>n p. in_ring (rings r) n p \<Longrightarrow> in_ring (rings (nd_registry u)) n p" "attached r = attached (nd_registry u)"
  shows "confined rings attached gview pview {} {} {} {} u (u\<lparr>nd_registry := r, nd_disk := d\<rparr>)"
  using assms by (simp add: confined_def)

lemma history_inv:
  assumes "history E default_dir rings attached s tr t" "P s" "\<forall>(u, m) \<in> set tr. \<forall>op. m = Served op \<longrightarrow> ok op"
    and step: "\<And>u op t. ok op \<Longrightarrow> P u \<Longrightarrow>
      confined rings attached gview pview (new_members E op) (new_readers E op u) (new_grants E op)
        (removed_peers E op) u t \<Longrightarrow> P t"
    and quiet: "\<And>u t. P u \<Longrightarrow> confined rings attached gview pview {} {} {} {} u t \<Longrightarrow> P t"
  shows "P t"
  using assms(1-3)
proof (induction rule: history.induct)
  case history_start
  then show ?case by simp
next
  case (history_served tr u c d n req t stop)
  then have "P u" "ok (rq_op req)" by simp_all
  moreover from this(1) have "P (u\<lparr>sn_out := []\<rparr>)" by (rule quiet) (simp add: gain_quiet)
  ultimately show ?case using step moment_confined[OF history_served.hyps(2)] by blast
next
  case (history_elapsed tr u r disk)
  then have "P u" by simp
  then show ?case by (rule quiet) (rule elapsed_confined, fact, fact)
qed

lemma history_since:
  assumes "history E default_dir rings attached s tr t" "Q t"
    and request: "\<And>u op t. confined rings attached gview pview (new_members E op) (new_readers E op u)
      (new_grants E op) (removed_peers E op) u t \<Longrightarrow> Q t \<Longrightarrow> Q u \<or> g op u"
    and quiet: "\<And>u t. confined rings attached gview pview {} {} {} {} u t \<Longrightarrow> Q t \<Longrightarrow> Q u"
  shows "since Q (by_request g) tr"
  using assms(1,2)
proof (induction rule: history.induct)
  case history_start
  then show ?case by (simp add: since_def)
next
  case (history_served tr u c d n req t stop)
  let ?u = "u\<lparr>sn_out := []\<rparr>"
  show ?case
  proof (cases "Q ?u")
    case True
    moreover have "Q u" by (rule quiet[OF _ True]) (simp add: gain_quiet)
    ultimately show ?thesis using history_served.IH by (blast intro: since_snoc)
  next
    case False
    with request[OF moment_confined[OF history_served.hyps(2)] history_served.prems] show ?thesis
      by (intro since_now) auto
  qed
next
  case (history_elapsed tr u r disk)
  have "Q u" by (rule quiet[OF elapsed_confined history_elapsed.prems]) fact+
  with history_elapsed.IH show ?case by (blast intro: since_snoc)
qed

lemma ring_add_fails:
  assumes "ring_add_lines E me ring str ex s = (Inl e, u)"
  shows "u = s"
proof -
  have "peersU (peers_ensure (en_peers E) p) v \<noteq> (Inl d, w)" for p v d w
    using ps.ensure[of p "nd_peers v"] by (auto simp: peersU_def updA_def)
  with assms show ?thesis
    by (auto simp: ring_add_lines_def bindA_eq_Inl thenA_def act_apply registryU_def updA_Inl split: if_splits)
qed

lemma dispatch_known:
  assumes known: "members_known rings pview s" and step: "dispatch E default_dir req s = (t, stop)"
  shows "members_known rings pview t"
proof -
  note conf = dispatch_gain[OF step]
  let ?q = "rq_req_id req"
  have calm: ?thesis if "new_members E (rq_op req) = {}" "removed_peers E (rq_op req) \<inter> dom (peers_abs pview (nd_peers s)) = {}"
    using members_known_confined[OF _ known that(2)] conf that(1) by simp
  show ?thesis
  proof (cases "rq_op req")
    case (RingAdd ring str ex)
    show ?thesis
    proof (cases "ring = OPEN_RING_NAME")
      case True
      with RingAdd show ?thesis by (intro calm) simp_all
    next
      case False
      obtain r u where run: "ring_add_lines E (ea_id (en_addr E)) ring str ex s = (r, u)"
        by (cases "ring_add_lines E (ea_id (en_addr E)) ring str ex s")
      have state: "nd_registry t = nd_registry u" "nd_peers t = nd_peers u"
        using dispatch_state[OF step] send_ok_state[of "ring_add_lines E (ea_id (en_addr E)) ring str ex" s r u ?q] run RingAdd
        by (cases "send_ok ?q (ring_add_lines E (ea_id (en_addr E)) ring str ex) s"; simp)+
      show ?thesis
      proof (cases r)
        case (Inl e)
        from ring_add_fails[OF run[unfolded Inl]] state known show ?thesis by (simp add: members_known_def)
      next
        case (Inr lines)
        from ring_add_ok[OF run[unfolded Inr] False] obtain p m' where
          eff: "rings (nd_registry u) = (rings (nd_registry s))(ring \<mapsto> m')"
            "\<forall>q. q \<noteq> p \<longrightarrow> m' q = members_of (rings (nd_registry s) ring) q"
            "peers_abs pview (nd_peers u) = (if peers_abs pview (nd_peers s) p = None
              then (peers_abs pview (nd_peers s))(p \<mapsto> None) else peers_abs pview (nd_peers s))" by blast
        have "peers_abs pview (nd_peers u) q \<noteq> None"
          if "n \<noteq> OPEN_RING_NAME" "in_ring (rings (nd_registry u)) n q" for n q
        proof (cases "q = p")
          case True
          then show ?thesis by (simp add: eff(3))
        next
          case False
          with that eff(1,2) have "in_ring (rings (nd_registry s)) n q"
            by (auto simp: in_ring_def members_of_def split: if_splits)
          with known that(1) have "peers_abs pview (nd_peers s) q \<noteq> None" unfolding members_known_def by blast
          with False show ?thesis by (simp add: eff(3))
        qed
        then show ?thesis by (simp add: members_known_def state)
      qed
    qed
  next
    case (PeerRemove str)
    show ?thesis
    proof (cases "\<exists>p. ir_parse_id (en_iroh E) str = Inr p \<and> peers_abs pview (nd_peers s) p \<noteq> None")
      case False
      with PeerRemove show ?thesis by (intro calm) (auto split: sum.splits)
    next
      case True
      then obtain p where p: "ir_parse_id (en_iroh E) str = Inr p" "peers_abs pview (nd_peers s) p \<noteq> None" by blast
      from peer_remove_ok[OF this] obtain lines u where run: "peer_remove_lines E str s = (Inr lines, u)"
        and eff: "rings (nd_registry u) = rings_without p (rings (nd_registry s))"
          "peers_abs pview (nd_peers u) = (peers_abs pview (nd_peers s))(p := None)" by blast
      have state: "nd_registry t = nd_registry u" "nd_peers t = nd_peers u"
        using dispatch_state[OF step] send_ok_state[of "peer_remove_lines E str" s "Inr lines" u ?q] run PeerRemove
        by (cases "send_ok ?q (peer_remove_lines E str) s"; simp)+
      show ?thesis
        using known unfolding members_known_def state eff in_ring_def
        by (auto simp: rings_without_def members_of_def domIff split: option.splits)
    qed
  qed (rule calm; simp)+
qed

lemma history_known:
  assumes "history E default_dir rings attached s tr t" "members_known rings pview s"
  shows "members_known rings pview t"
  using assms
proof (induction rule: history.induct)
  case (history_served tr u c d n req t stop)
  then have "members_known rings pview (u\<lparr>sn_out := []\<rparr>)" by (simp add: members_known_def)
  with node_laws.dispatch_known[OF at_moment] history_served.hyps(2) show ?case by blast
next
  case (history_elapsed tr u r disk)
  then show ?case by (auto simp: members_known_def)
qed

lemma access_since:
  assumes "history E default_dir rings attached s tr t"
    and "allowed (rings (nd_registry t)) (attached (nd_registry t)) p h perm"
  shows "since (\<lambda>u. allowed (rings (nd_registry u)) (attached (nd_registry u)) p h perm)
    (by_request (\<lambda>op u. gives_access rings attached E op u p h perm)) tr"
proof (rule history_since[OF assms(1), of "\<lambda>u. allowed (rings (nd_registry u)) (attached (nd_registry u)) p h perm"])
  show "allowed (rings (nd_registry t)) (attached (nd_registry t)) p h perm" by fact
qed (rule confined_allowed, assumption+, unfold confined_def allowed_iff, simp, blast)

lemma grant_since:
  assumes "history E default_dir rings attached s tr t" "(pr, p) \<in> grants_abs gview (nd_grants t)"
  shows "since (\<lambda>u. (pr, p) \<in> grants_abs gview (nd_grants u)) (by_request (\<lambda>op u. (pr, p) \<in> new_grants E op)) tr"
proof (rule history_since[OF assms(1), of "\<lambda>u. (pr, p) \<in> grants_abs gview (nd_grants u)"])
  show "(pr, p) \<in> grants_abs gview (nd_grants t)" by fact
qed (unfold confined_def, blast, blast)

lemma removed_out:
  assumes peer: "ir_parse_id (en_iroh E) str = Inr p" and known: "peers_abs pview (nd_peers s) p \<noteq> None"
    and remove: "dispatch E default_dir \<lparr>rq_req_id = q, rq_op = PeerRemove str\<rparr> s = (s1, stop)"
    and hist: "history E default_dir rings attached s1 tr t"
    and names: "\<forall>(u, m) \<in> set tr. \<forall>op. m = Served op \<longrightarrow> (\<forall>n. (n, p) \<notin> new_members E op) \<and> (BlobList, p) \<notin> new_grants E op"
  shows "(\<forall>n. in_ring (rings (nd_registry t)) n p \<longrightarrow> n = OPEN_RING_NAME) \<and> (BlobList, p) \<notin> grants_abs gview (nd_grants t)"
proof (rule history_inv[OF hist _ names])
  from peer_remove_ok[OF peer known] obtain lines u where run: "peer_remove_lines E str s = (Inr lines, u)"
    and eff: "rings (nd_registry u) = rings_without p (rings (nd_registry s))"
      "grants_abs gview (nd_grants u) = grants_abs gview (nd_grants s) - {(BlobList, p)}" by blast
  have state: "nd_registry s1 = nd_registry u" "nd_grants s1 = nd_grants u"
    using dispatch_state[OF remove] send_ok_state[of "peer_remove_lines E str" s "Inr lines" u q] run
    by (cases "send_ok q (peer_remove_lines E str) s"; simp)+
  show "(\<forall>n. in_ring (rings (nd_registry s1)) n p \<longrightarrow> n = OPEN_RING_NAME) \<and> (BlobList, p) \<notin> grants_abs gview (nd_grants s1)"
    by (auto simp: state eff in_ring_def rings_without_def members_of_def domIff split: option.splits if_splits)
qed (unfold confined_def, blast, blast)

lemma removal_race:
  assumes peer: "ir_parse_id (en_iroh E) str = Inr p"
    and list: "rg_list_rings (en_registry E) (nd_registry s) = Inr ns"
    and loop: "remove_from_rings E p ns [] s = (Inr removed, s1)"
    and add: "ring_add_lines E me ring str None s1 = (Inr lines, s2)" and ring: "ring \<noteq> OPEN_RING_NAME"
    and revoke: "revoke_all E p [BlobList] [] s2 = (Inr revoked, s3)"
  shows "(\<forall>n. in_ring (rings (nd_registry s1)) n p \<longrightarrow> n = OPEN_RING_NAME)
    \<and> (\<exists>s4. peersU (peers_remove (en_peers E) (en_iroh E) p) s3 = (Inr (), s4)
      \<and> in_ring (rings (nd_registry s4)) ring p \<and> \<not> members_known rings pview s4
      \<and> (\<exists>e. peer_remove_lines E str s4 = (Inl e, s4)))"
proof -
  from list have dom: "set ns = dom (rings (nd_registry s))" using reg.list_rings by blast
  with remove_from_rings_ok[of ns s p "[]"] loop have "rings (nd_registry s1) = rings_without p (rings (nd_registry s))"
    by (auto simp: without_peer_all)
  then have gone: "\<forall>n. in_ring (rings (nd_registry s1)) n p \<longrightarrow> n = OPEN_RING_NAME"
    by (auto simp: in_ring_def rings_without_def members_of_def domIff split: option.splits if_splits)
  from ring_add_ok[OF add ring] peer obtain m' where
    m: "rings (nd_registry s2) = (rings (nd_registry s1))(ring \<mapsto> m')" "p \<in> dom m'"
    and peers: "peers_abs pview (nd_peers s2) = (if peers_abs pview (nd_peers s1) p = None
        then (peers_abs pview (nd_peers s1))(p \<mapsto> None) else peers_abs pview (nd_peers s1))" by auto
  from peers have book: "peers_abs pview (nd_peers s2) p \<noteq> None" by simp
  from revoke_all_ok[of p "[]" s2] revoke obtain g where s3: "s3 = s2\<lparr>nd_grants := g\<rparr>" by auto
  from ps.remove_known[of "nd_peers s3" p] book obtain p' where
    p': "peers_remove (en_peers E) (en_iroh E) p (nd_peers s3) = Inr p'"
      "peers_abs pview p' = (peers_abs pview (nd_peers s3))(p := None)" by (auto simp: s3)
  let ?s4 = "s3\<lparr>nd_peers := p'\<rparr>"
  have run: "peersU (peers_remove (en_peers E) (en_iroh E) p) s3 = (Inr (), ?s4)"
    using p'(1) by (simp add: peersU_def act_simps)
  have mem: "in_ring (rings (nd_registry ?s4)) ring p" using m by (auto simp: s3 in_ring_def members_of_def)
  moreover have unknown: "peers_abs pview (nd_peers ?s4) p = None" using p'(2) by simp
  ultimately have "\<not> members_known rings pview ?s4" using ring unfolding members_known_def by blast
  moreover have "\<exists>e. peer_remove_lines E str ?s4 = (Inl e, ?s4)"
    using peer unknown by (simp add: peer_remove_lines_def peersQ_def act_simps ps.get_nick parse_peer_id_def)
  ultimately show ?thesis using gone run mem by blast
qed

end

section \<open>The sample history\<close>

lemma sample_fresh: "sample_session\<lparr>sn_out := []\<rparr> = sample_session"
  by (simp add: sample_session_def)

lemma mem_moment: "mem_env\<lparr>en_now := 0, en_dial := sample_dial, en_connect := \<lambda>_. Inr mem_transfer\<rparr> = mem_env"
  by (simp add: mem_env_def)

lemma sample_history:
  "\<exists>t stop. dispatch mem_env None \<lparr>rq_req_id = 0, rq_op = op\<rparr> sample_session = (t, stop)
     \<and> history mem_env None mem_rings mem_attached sample_session [(sample_session, Served op)] t"
proof -
  obtain t stop where t: "dispatch mem_env None \<lparr>rq_req_id = 0, rq_op = op\<rparr> sample_session = (t, stop)"
    by (cases "dispatch mem_env None \<lparr>rq_req_id = 0, rq_op = op\<rparr> sample_session")
  then have "dispatch (mem_env\<lparr>en_now := 0, en_dial := sample_dial, en_connect := \<lambda>_. Inr mem_transfer\<rparr>) None
      \<lparr>rq_req_id = 0, rq_op = op\<rparr> (sample_session\<lparr>sn_out := []\<rparr>) = (t, stop)"
    by (simp only: mem_moment sample_fresh)
  from history_served[OF history_start this] t show ?thesis by (auto simp: sample_fresh)
qed

lemma sample_attach_open:
  assumes "dispatch mem_env None \<lparr>rq_req_id = 0, rq_op = BlobAttach sample_target [] True\<rparr> sample_session = (t, stop)"
  shows "allowed (mem_rings (nd_registry t)) (mem_attached (nd_registry t)) p 1 Read"
proof -
  have "\<exists>u. handle_attach mem_env 0 sample_target [] True sample_session = (Inr (), u)"
    by (simp add: handle_attach_def sample_resolve sample_session_def act_simps attach_ring_def mem_registry_def)
  then obtain u where u: "handle_attach mem_env 0 sample_target [] True sample_session = (Inr (), u)" by blast
  from mem_node.handle_attach_ok[OF u] have "attached_read (mem_attached (nd_registry sample_session)) 1
      {OPEN_RING_NAME} (mem_attached (nd_registry u))"
    by (auto simp: sample_resolve sample_session_def)
  then have "Read \<in> perms_of (mem_attached (nd_registry u) 1 OPEN_RING_NAME)"
    by (auto simp: attached_read_def perms_of_def)
  with dispatch_state[OF assms] u show ?thesis by (auto simp: allowed_iff in_ring_def)
qed

lemma sample_known: "members_known mem_rings map_of sample_session"
  by (auto simp: members_known_def in_ring_def mem_members_of mem_members_def sample_session_def sample_reg_def
      sample_peers_def peers_abs_def split: if_splits)

section \<open>Properties\<close>

text \<open>
  C2: Access is traceable: when a peer may read (or write, or delete) a blob at the end of
  a history, it could at every moment of it, or there was a request that gave it this
  permission, by adding it to a ring or by attaching the blob to one of its rings, and it
  has had it ever since.  In the same way a catalog privilege was held all along or
  granted by name.  Nothing else the daemon does, whether it succeeds or fails, lets a
  peer in.
\<close>
theorem access_traceable:
  assumes "node_laws E rings attached gview gtview pview ptview"
    and "history E default_dir rings attached s tr t"
  shows "(allowed (rings (nd_registry t)) (attached (nd_registry t)) p h perm \<longrightarrow>
      since (\<lambda>u. allowed (rings (nd_registry u)) (attached (nd_registry u)) p h perm)
        (by_request (\<lambda>op u. gives_access rings attached E op u p h perm)) tr)
    \<and> ((pr, p) \<in> grants_abs gview (nd_grants t) \<longrightarrow>
      since (\<lambda>u. (pr, p) \<in> grants_abs gview (nd_grants u)) (by_request (\<lambda>op u. (pr, p) \<in> new_grants E op)) tr)"
  using node_laws.access_since[OF assms] node_laws.grant_since[OF assms] by blast

lemma access_traceable_witness:
  "\<exists>t. history mem_env None mem_rings mem_attached sample_session
       [(sample_session, Served (BlobAttach sample_target [] True))] t
     \<and> since (\<lambda>u. allowed (mem_rings (nd_registry u)) (mem_attached (nd_registry u)) (EndpointId 6) 1 Read)
       (by_request (\<lambda>op u. gives_access mem_rings mem_attached mem_env op u (EndpointId 6) 1 Read))
       [(sample_session, Served (BlobAttach sample_target [] True))]"
proof -
  obtain t stop where t: "dispatch mem_env None \<lparr>rq_req_id = 0, rq_op = BlobAttach sample_target [] True\<rparr> sample_session = (t, stop)"
    "history mem_env None mem_rings mem_attached sample_session
       [(sample_session, Served (BlobAttach sample_target [] True))] t"
    using sample_history[of "BlobAttach sample_target [] True"] by blast
  with access_traceable[OF mem_node.node_laws_axioms t(2)] sample_attach_open[OF t(1)] show ?thesis by blast
qed



text \<open>
  C7: A removed peer stays out: after \<open>peer remove\<close>, until a request adds it to a ring or
  grants it the catalog again, it may do with a blob only what the open ring lets
  everyone do, and the catalog is closed to it.
\<close>
theorem removed_stays_out:
  assumes "node_laws E rings attached gview gtview pview ptview"
    and "ir_parse_id (en_iroh E) str = Inr p" "peers_abs pview (nd_peers s) p \<noteq> None"
    and "dispatch E default_dir \<lparr>rq_req_id = q, rq_op = PeerRemove str\<rparr> s = (s1, stop)"
    and "history E default_dir rings attached s1 tr t"
    and "\<forall>(u, m) \<in> set tr. \<forall>op. m = Served op \<longrightarrow> (\<forall>n. (n, p) \<notin> new_members E op) \<and> (BlobList, p) \<notin> new_grants E op"
  shows "(BlobList, p) \<notin> grants_abs gview (nd_grants t)
    \<and> (\<forall>h perm. allowed (rings (nd_registry t)) (attached (nd_registry t)) p h perm
        \<longleftrightarrow> perm \<in> perms_of (attached (nd_registry t) h OPEN_RING_NAME))"
  using node_laws.removed_out[OF assms] by (auto simp: allowed_iff in_ring_def)

lemma removed_stays_out_witness:
  "\<exists>s1 t. history mem_env None mem_rings mem_attached sample_session [(sample_session, Served (PeerRemove sample_id))] s1
     \<and> history mem_env None mem_rings mem_attached s1 [(s1, Elapsed)] t
     \<and> (BlobList, EndpointId 5) \<notin> grants_abs map_of (nd_grants t)"
proof -
  obtain s1 stop where s1: "dispatch mem_env None \<lparr>rq_req_id = 0, rq_op = PeerRemove sample_id\<rparr> sample_session = (s1, stop)"
    "history mem_env None mem_rings mem_attached sample_session [(sample_session, Served (PeerRemove sample_id))] s1"
    using sample_history[of "PeerRemove sample_id"] by blast
  obtain t where t: "history mem_env None mem_rings mem_attached s1 [(s1, Elapsed)] t"
    using history_elapsed[OF history_start, of mem_rings "nd_registry s1" s1 mem_attached mem_env None "nd_disk s1"] by auto
  have p: "ir_parse_id (en_iroh mem_env) sample_id = Inr (EndpointId 5)" by simp
  have k: "peers_abs map_of (nd_peers sample_session) (EndpointId 5) \<noteq> None"
    by (simp add: sample_session_def sample_peers_def peers_abs_def)
  have "\<forall>(u, m) \<in> set [(s1, Elapsed)]. \<forall>op. m = Served op \<longrightarrow>
      (\<forall>n. (n, EndpointId 5) \<notin> new_members mem_env op) \<and> (BlobList, EndpointId 5) \<notin> new_grants mem_env op" by simp
  from removed_stays_out[OF mem_node.node_laws_axioms p k s1(1) t this] s1(2) t show ?thesis by blast
qed

text \<open>
  C21: Two requests at once: an \<open>add\<close> to a ring that is served between the loop of a
  \<open>peer remove\<close> over the rings and its last step leaves the removed peer a member of the
  ring.  The peer is then no longer in the address book, a state that no history of
  requests one after the other reaches, and \<open>peer remove\<close> refuses to remove it again.
\<close>
theorem peer_remove_race:
  assumes "node_laws E rings attached gview gtview pview ptview"
    and "ir_parse_id (en_iroh E) str = Inr p"
    and "rg_list_rings (en_registry E) (nd_registry s) = Inr ns"
    and "remove_from_rings E p ns [] s = (Inr removed, s1)"
    and "ring_add_lines E me ring str None s1 = (Inr lines, s2)" and "ring \<noteq> OPEN_RING_NAME"
    and "revoke_all E p [BlobList] [] s2 = (Inr revoked, s3)"
  shows "(\<forall>n. in_ring (rings (nd_registry s1)) n p \<longrightarrow> n = OPEN_RING_NAME)
    \<and> (\<exists>s4. peersU (peers_remove (en_peers E) (en_iroh E) p) s3 = (Inr (), s4)
      \<and> in_ring (rings (nd_registry s4)) ring p \<and> \<not> members_known rings pview s4
      \<and> (\<exists>e. peer_remove_lines E str s4 = (Inl e, s4)))"
  using node_laws.removal_race[OF assms] .

lemma peer_remove_race_witness:
  "\<exists>s1 removed s2 lines s3 revoked s4.
     remove_from_rings mem_env (EndpointId 5) (mem_ring_names sample_reg) [] sample_session = (Inr removed, s1)
     \<and> ring_add_lines mem_env (EndpointId 7) ''friends'' sample_id None s1 = (Inr lines, s2)
     \<and> revoke_all mem_env (EndpointId 5) [BlobList] [] s2 = (Inr revoked, s3)
     \<and> peersU (peers_remove mem_redb hex_iroh (EndpointId 5)) s3 = (Inr (), s4)
     \<and> \<not> members_known mem_rings map_of s4"
proof -
  have l: "rg_list_rings (en_registry mem_env) (nd_registry sample_session) = Inr (mem_ring_names sample_reg)"
    by (simp add: sample_session_def)
  have "set (mem_ring_names sample_reg) \<subseteq> dom (mem_rings (nd_registry sample_session))"
    using mem_reg.list_rings[of sample_reg "mem_ring_names sample_reg"] by (simp add: sample_session_def)
  from mem_node.remove_from_rings_ok[OF this, of "EndpointId 5" "[]"] obtain s1 removed where
    s1: "remove_from_rings mem_env (EndpointId 5) (mem_ring_names sample_reg) [] sample_session = (Inr removed, s1)" by auto
  obtain p' where p': "peers_ensure mem_redb (EndpointId 5) (nd_peers s1) = Inr p'"
    using mem_peers.ensure[of "EndpointId 5" "nd_peers s1"] by blast
  have "\<exists>lines s2. ring_add_lines mem_env (EndpointId 7) ''friends'' sample_id None s1 = (Inr lines, s2)"
    by (simp add: ring_add_lines_def OPEN_RING_NAME_def parse_peer_id_def registryU_def peersU_def p'
        act_simps mem_registry_def)
  then obtain lines s2 where s2: "ring_add_lines mem_env (EndpointId 7) ''friends'' sample_id None s1 = (Inr lines, s2)" by blast
  obtain revoked s3 where s3: "revoke_all mem_env (EndpointId 5) [BlobList] [] s2 = (Inr revoked, s3)"
    using mem_node.revoke_all_ok[of "EndpointId 5" "[]" s2] by auto
  have p: "ir_parse_id (en_iroh mem_env) sample_id = Inr (EndpointId 5)" by simp
  have r: "''friends'' \<noteq> OPEN_RING_NAME" by (simp add: OPEN_RING_NAME_def)
  from peer_remove_race[OF mem_node.node_laws_axioms p l s1 s2 r s3] s1 s2 s3 show ?thesis
    unfolding mem_env_simps by blast
qed

end
