(* ===== verification/LocalStore.thy ===== *)
theory LocalStore
  imports Grants Peers
begin

text \<open>
  \<open>src/src/local_store.rs\<close>: opening the shared database \<open>local.redb\<close> and the one-time
  migration of the two older databases into it.  The data directory is a map from file
  names to database contents.  Every change of it is a durable step; the number of steps
  that still succeed is part of the state, so a run in which the disk fails, or the
  process is killed, after any step is a run of the model.  What is proved: wherever the
  migration stops nothing is lost, and running it again completes it.
\<close>

section \<open>The data directory\<close>

text \<open>\<open>rf_create\<close> is \<open>Database::create\<close> on a path with or without a file, \<open>rf_open\<close> is
  \<open>Database::open\<close>; the three tables the program keeps share one kind of transaction.\<close>

record ('db, 'tx) redb_files =
  rf_create :: "'db option \<Rightarrow> string + 'db"
  rf_open :: "'db \<Rightarrow> string + 'db"
  rf_grants :: "('db, 'tx, byte list, unit) redb"
  rf_peers :: "('db, 'tx, byte list, string) redb"
  rf_rings :: "('db, 'tx, string, byte list) redb"

type_synonym 'db files = "string \<rightharpoonup> 'db"

record 'db data_dir =
  dd_files :: "'db files"
  dd_room :: "nat option"

definition LOCAL :: string where "LOCAL = ''local.redb''"
definition LOCAL_TMP :: string where "LOCAL_TMP = ''local.redb.tmp''"
definition GRANTS_FILE :: string where "GRANTS_FILE = ''grants.redb''"
definition PEERS_FILE :: string where "PEERS_FILE = ''peers.redb''"
definition REGISTRY_FILE :: string where "REGISTRY_FILE = ''registry.redb''"

definition mutate :: "('db files \<Rightarrow> 'db files) \<Rightarrow> ('db data_dir, unit) act" where
  "mutate f s = (case dd_room s of
     None \<Rightarrow> (Inr (), s\<lparr>dd_files := f (dd_files s)\<rparr>)
   | Some 0 \<Rightarrow> (Inl (anyhow_msg ''input/output error''), s)
   | Some (Suc n) \<Rightarrow> (Inr (), s\<lparr>dd_files := f (dd_files s), dd_room := Some n\<rparr>))"

definition file_exists :: "string \<Rightarrow> ('db data_dir, bool) act" where
  "file_exists n = getA (\<lambda>s. dd_files s n \<noteq> None)"

definition not_found :: string where "not_found = ''No such file or directory''"

definition remove_file :: "string \<Rightarrow> ('db data_dir, unit) act" where
  "remove_file n = bindA (file_exists n) (\<lambda>ex.
     if ex then mutate (\<lambda>fs. fs(n := None)) else fail (anyhow_msg not_found))"

definition rename_file :: "string \<Rightarrow> string \<Rightarrow> ('db data_dir, unit) act" where
  "rename_file a b = bindA (getA (\<lambda>s. dd_files s a)) (\<lambda>f. case f of
     None \<Rightarrow> fail (anyhow_msg not_found)
   | Some db \<Rightarrow> mutate (\<lambda>fs. fs(a := None, b \<mapsto> db)))"

definition create_db :: "('db, 'tx) redb_files \<Rightarrow> string \<Rightarrow> string \<Rightarrow> ('db data_dir, unit) act" where
  "create_db F c n =
     bindA (queryA (\<lambda>s. ctxs c (rf_create F (dd_files s n)))) (\<lambda>db.
       ctxA c (mutate (\<lambda>fs. fs(n \<mapsto> db))))"

text \<open>A transaction on an open file: \<open>None\<close> when there is nothing to commit.\<close>

definition commit_db ::
    "string \<Rightarrow> string \<Rightarrow> ('db \<Rightarrow> 'db option result) \<Rightarrow> ('db data_dir, unit) act" where
  "commit_db c n body =
     bindA (queryA (\<lambda>s. case dd_files s n of None \<Rightarrow> bail not_found | Some db \<Rightarrow> body db)) (\<lambda>r.
       case r of None \<Rightarrow> ret () | Some db' \<Rightarrow> ctxA c (mutate (\<lambda>fs. fs(n \<mapsto> db'))))"

section \<open>Copying the old databases\<close>

definition open_source :: "('db, 'tx) redb_files \<Rightarrow> string \<Rightarrow> 'db option \<Rightarrow> 'db result" where
  "open_source F c src = ctxs c (case src of None \<Rightarrow> Inl not_found | Some f \<Rightarrow> rf_open F f)"

fun copy_rows ::
    "('db, 'tx, 'k, 'v) redb \<Rightarrow> string \<Rightarrow> string \<Rightarrow> (string + ('k \<times> 'v)) list \<Rightarrow> 'tx \<Rightarrow> 'tx result" where
  "copy_rows D c1 c2 [] t = Inr t"
| "copy_rows D c1 c2 (item # items) t =
     bindR (ctxs c1 item) (\<lambda>(k, v).
     bindR (ctxs c2 (rd_insert D t k v)) (\<lambda>t'. copy_rows D c1 c2 items t'))"

definition copy_grants :: "('db, 'tx) redb_files \<Rightarrow> 'db option \<Rightarrow> 'db \<Rightarrow> 'db option result" where
  "copy_grants F src_path dst =
     bindR (open_source F ''opening grants.redb'' src_path) (\<lambda>src.
     bindR (ctxs ''reading grants.redb'' (rd_begin_read (rf_grants F) src)) (\<lambda>read.
     case rd_open_table (rf_grants F) read of
       Inl _ \<Rightarrow> Inr None
     | Inr old \<Rightarrow>
         bindR (with_write (rf_grants F) ''writing grants to local.redb.tmp'' ''opening grants table''
           ''committing grants migration''
           (\<lambda>new. bindR (ctxs ''iterating grants'' (rd_iter (rf_grants F) old)) (\<lambda>items.
             copy_rows (rf_grants F) ''reading grant row'' ''inserting grant row'' items new)) dst)
           (\<lambda>db. Inr (Some db))))"

definition copy_peers :: "('db, 'tx) redb_files \<Rightarrow> 'db option \<Rightarrow> 'db \<Rightarrow> 'db option result" where
  "copy_peers F src_path dst =
     bindR (open_source F ''opening peers.redb'' src_path) (\<lambda>src.
     bindR (ctxs ''reading peers.redb'' (rd_begin_read (rf_peers F) src)) (\<lambda>read.
     case rd_open_table (rf_peers F) read of
       Inl _ \<Rightarrow> Inr None
     | Inr old \<Rightarrow>
         bindR (with_write (rf_peers F) ''writing peers to local.redb.tmp'' ''opening peers table''
           ''committing peers migration''
           (\<lambda>new. bindR (ctxs ''iterating peers'' (rd_iter (rf_peers F) old)) (\<lambda>items.
             copy_rows (rf_peers F) ''reading peer row'' ''inserting peer row'' items new)) dst)
           (\<lambda>db. Inr (Some db))))"

text \<open>\<open>as_chunks::<32>().0\<close>: the whole chunks; a remainder is dropped.\<close>

fun chunks32 :: "byte list \<Rightarrow> byte list list" where
  "chunks32 bs = (if length bs < 32 then [] else take 32 bs # chunks32 (drop 32 bs))"

declare chunks32.simps [simp del]

fun add_missing :: "('db, 'tx, byte list, string) redb \<Rightarrow> byte list list \<Rightarrow> 'tx \<Rightarrow> 'tx result" where
  "add_missing D [] t = Inr t"
| "add_missing D (chunk # chunks) t =
     bindR (ctxs ''querying peer in peers table'' (rd_get D t chunk)) (\<lambda>v.
     bindR (if v = None then ctxs ''inserting ring peer'' (rd_insert D t chunk []) else Inr t) (\<lambda>t'.
       add_missing D chunks t'))"

fun add_rings :: "('db, 'tx, byte list, string) redb \<Rightarrow> (string + (string \<times> byte list)) list \<Rightarrow> 'tx \<Rightarrow> 'tx result" where
  "add_rings D [] t = Inr t"
| "add_rings D (item # items) t =
     bindR (ctxs ''reading ring row'' item) (\<lambda>(ring_name, members_bytes).
     bindR (if ring_name = ''open'' then Inr t else add_missing D (chunks32 members_bytes) t) (\<lambda>t'.
       add_rings D items t'))"

definition copy_ring_peers :: "('db, 'tx) redb_files \<Rightarrow> 'db option \<Rightarrow> 'db \<Rightarrow> 'db option result" where
  "copy_ring_peers F registry_path dst =
     bindR (open_source F ''opening registry.redb'' registry_path) (\<lambda>src.
     bindR (ctxs ''reading registry.redb'' (rd_begin_read (rf_rings F) src)) (\<lambda>read.
     case rd_open_table (rf_rings F) read of
       Inl _ \<Rightarrow> Inr None
     | Inr rings_table \<Rightarrow>
         bindR (with_write (rf_peers F) ''writing ring peers to local.redb.tmp'' ''opening peers table''
           ''committing ring peers migration''
           (\<lambda>peers_table. bindR (ctxs ''iterating rings'' (rd_iter (rf_rings F) rings_table)) (\<lambda>items.
             add_rings (rf_peers F) items peers_table)) dst)
           (\<lambda>db. Inr (Some db))))"

section \<open>The migration\<close>

definition init_tables :: "('db, 'tx) redb_files \<Rightarrow> 'db \<Rightarrow> 'db option result" where
  "init_tables F db =
     bindR (ctxs ''initialising local.redb.tmp'' (rd_begin_write (rf_grants F) db)) (\<lambda>w.
     bindR (ctxs ''creating grants table'' (rd_open_table (rf_grants F) w)) (\<lambda>w.
     bindR (ctxs ''creating peers table'' (rd_open_table (rf_peers F) w)) (\<lambda>w.
     bindR (ctxs ''committing local.redb.tmp init'' (rd_commit (rf_grants F) db w)) (\<lambda>db. Inr (Some db)))))"

definition fill_tmp :: "('db, 'tx) redb_files \<Rightarrow> bool \<Rightarrow> bool \<Rightarrow> ('db data_dir, unit) act" where
  "fill_tmp F has_grants has_peers =
     thenA (create_db F ''creating local.redb.tmp'' LOCAL_TMP)
    (thenA (commit_db ''committing local.redb.tmp init'' LOCAL_TMP (init_tables F))
    (thenA (if has_grants then bindA (getA (\<lambda>s. dd_files s GRANTS_FILE)) (\<lambda>src.
        commit_db ''committing grants migration'' LOCAL_TMP (copy_grants F src)) else ret ())
    (thenA (if has_peers then bindA (getA (\<lambda>s. dd_files s PEERS_FILE)) (\<lambda>src.
        commit_db ''committing peers migration'' LOCAL_TMP (copy_peers F src)) else ret ())
      (bindA (file_exists REGISTRY_FILE) (\<lambda>ex. if ex then bindA (getA (\<lambda>s. dd_files s REGISTRY_FILE)) (\<lambda>src.
        commit_db ''committing ring peers migration'' LOCAL_TMP (copy_ring_peers F src)) else ret ())))))"

definition arrow :: string where "arrow = [CHR 0xE2, CHR 0x86, CHR 0x92]"

definition remove_stale :: "('db data_dir, unit) act" where
  "remove_stale = bindA (file_exists LOCAL_TMP) (\<lambda>stale.
     if stale then ctxA ''removing stale local.redb.tmp'' (remove_file LOCAL_TMP) else ret ())"

definition delete_old :: "bool \<Rightarrow> bool \<Rightarrow> ('db data_dir, unit) act" where
  "delete_old has_grants has_peers =
     thenA (if has_grants then ctxA ''deleting grants.redb'' (remove_file GRANTS_FILE) else ret ())
       (if has_peers then ctxA ''deleting peers.redb'' (remove_file PEERS_FILE) else ret ())"

definition migrate_if_needed :: "('db, 'tx) redb_files \<Rightarrow> ('db data_dir, unit) act" where
  "migrate_if_needed F =
     bindA (file_exists LOCAL) (\<lambda>ex. if ex then ret () else
     bindA (file_exists GRANTS_FILE) (\<lambda>has_grants.
     bindA (file_exists PEERS_FILE) (\<lambda>has_peers.
     if \<not> has_grants \<and> \<not> has_peers then ret () else
       thenA remove_stale
      (thenA (fill_tmp F has_grants has_peers)
      (thenA (ctxA (''renaming local.redb.tmp '' @ arrow @ '' local.redb'') (rename_file LOCAL_TMP LOCAL))
        (delete_old has_grants has_peers))))))"

definition local_store_open :: "('db, 'tx) redb_files \<Rightarrow> ('db data_dir, unit) act" where
  "local_store_open F =
     thenA (ctxA ''migrating to local.redb'' (migrate_if_needed F))
    (thenA (create_db F ''opening local.redb'' LOCAL)
    (thenA (ctxA ''initialising grant store'' (commit_db ''committing grants init'' LOCAL
        (\<lambda>db. bindR (grants_from_db (rf_grants F) db) (\<lambda>db. Inr (Some db)))))
      (ctxA ''initialising peer store'' (commit_db ''committing peers init'' LOCAL
        (\<lambda>db. bindR (peers_from_db (rf_peers F) db) (\<lambda>db. Inr (Some db)))))))"

text \<open>The stores alone, each in a database of its own (\<open>GrantStore::open\<close>, \<open>PeerStore::open\<close>).\<close>

definition grant_store_open :: "('db, 'tx) redb_files \<Rightarrow> string \<Rightarrow> ('db data_dir, unit) act" where
  "grant_store_open F path =
     thenA (create_db F ''opening grants database'' path)
       (commit_db ''committing grants init'' path
         (\<lambda>db. bindR (grants_from_db (rf_grants F) db) (\<lambda>db. Inr (Some db))))"

definition peer_store_open :: "('db, 'tx) redb_files \<Rightarrow> string \<Rightarrow> ('db data_dir, unit) act" where
  "peer_store_open F path =
     thenA (create_db F ''opening peers database'' path)
       (commit_db ''committing peers init'' path
         (\<lambda>db. bindR (peers_from_db (rf_peers F) db) (\<lambda>db. Inr (Some db))))"

section \<open>What the tables hold\<close>

text \<open>The rows the migration can read from an old file: none when the file is missing or its
  table cannot be opened.\<close>

definition old_rows ::
    "('db, 'tx) redb_files \<Rightarrow> ('db, 'tx, 'k, 'v) redb \<Rightarrow> ('db \<Rightarrow> 'k \<rightharpoonup> 'v) \<Rightarrow> 'db option \<Rightarrow> 'k \<rightharpoonup> 'v" where
  "old_rows F D view src = (case src of None \<Rightarrow> Map.empty | Some f \<Rightarrow>
     (case rf_open F f of Inl _ \<Rightarrow> Map.empty | Inr db \<Rightarrow>
     (case rd_begin_read D db of Inl _ \<Rightarrow> Map.empty | Inr read \<Rightarrow>
     (case rd_open_table D read of Inl _ \<Rightarrow> Map.empty | Inr _ \<Rightarrow> view f))))"

definition ring_members :: "(string \<rightharpoonup> byte list) \<Rightarrow> byte list set" where
  "ring_members rings = {chunk. \<exists>n bs. rings n = Some bs \<and> n \<noteq> ''open'' \<and> chunk \<in> set (chunks32 bs)}"

definition backfill :: "(byte list \<rightharpoonup> string) \<Rightarrow> byte list set \<Rightarrow> (byte list \<rightharpoonup> string)" where
  "backfill m S = (\<lambda>k. case m k of Some v \<Rightarrow> Some v | None \<Rightarrow> if k \<in> S then Some [] else None)"

lemma backfill_empty [simp]: "backfill m {} = m"
  by (auto simp: backfill_def fun_eq_iff split: option.split)

lemma backfill_backfill [simp]: "backfill (backfill m A) B = backfill m (A \<union> B)"
  by (auto simp: backfill_def fun_eq_iff split: option.split)

lemma backfill_insert: "m k = None \<Longrightarrow> m(k \<mapsto> []) = backfill m {k}"
  by (auto simp: backfill_def fun_eq_iff split: option.split)

lemma backfill_known: "m k \<noteq> None \<Longrightarrow> backfill m {k} = m"
  by (auto simp: backfill_def fun_eq_iff split: option.split)

definition named_chunks :: "(string \<times> byte list) list \<Rightarrow> byte list set" where
  "named_chunks rows = (\<Union>(n, bs) \<in> set rows. if n = ''open'' then {} else set (chunks32 bs))"

lemma named_chunks_members:
  "distinct (map fst rows) \<Longrightarrow> named_chunks rows = ring_members (map_of rows)"
  by (force simp: named_chunks_def ring_members_def split: if_splits)

context redb_table
begin

lemma copy_rows_Inr:
  assumes "copy_rows D c1 c2 items t = Inr t'"
  shows "\<exists>kvs. items = map Inr kvs \<and> (distinct (map fst kvs) \<longrightarrow> tview t' = tview t ++ map_of kvs)"
  using assms
proof (induction items arbitrary: t)
  case (Cons item items)
  from Cons.prems obtain k v t1 where item: "item = Inr (k, v)" and t1: "rd_insert D t k v = Inr t1"
    and rest: "copy_rows D c1 c2 items t1 = Inr t'" by (auto simp: bindR_Inr)
  from Cons.IH[OF rest] obtain kvs where kvs: "items = map Inr kvs"
    "distinct (map fst kvs) \<longrightarrow> tview t' = tview t1 ++ map_of kvs" by blast
  have "(tview t)(k \<mapsto> v) ++ map_of kvs = tview t ++ map_of ((k, v) # kvs)" if "k \<notin> fst ` set kvs"
  proof -
    from that have "map_of kvs k = None" by (simp add: map_of_eq_None_iff)
    then show ?thesis by (auto simp: fun_eq_iff map_add_def split: option.split)
  qed
  note upd = this
  have "tview t' = tview t ++ map_of ((k, v) # kvs)" if d: "distinct (map fst ((k, v) # kvs))"
  proof -
    from d have "k \<notin> fst ` set kvs" "distinct (map fst kvs)" by auto
    then show ?thesis using kvs(2) insert[OF t1] upd by (simp only: simp_thms)
  qed
  moreover have "item # items = map Inr ((k, v) # kvs)" using kvs(1) item by simp
  ultimately show ?case by (intro exI[where x = "(k, v) # kvs"] conjI impI)
qed simp

lemma copy_table:
  assumes "with_write D c1 c2 c3 (\<lambda>new. bindR (ctxs c4 (rd_iter D old)) (\<lambda>items.
      copy_rows D c5 c6 items new)) dst = Inr db'" "view dst = Map.empty"
  shows "view db' = tview old"
proof (rule with_write_Inr[OF assms(1)])
  fix t t' assume t: "tview t = view dst" and d: "view db' = tview t'"
    and "bindR (ctxs c4 (rd_iter D old)) (\<lambda>items. copy_rows D c5 c6 items t) = Inr t'"
  then obtain items where i: "rd_iter D old = Inr items" "copy_rows D c5 c6 items t = Inr t'"
    by (auto simp: bindR_Inr)
  from copy_rows_Inr[OF i(2)] obtain kvs where "items = map Inr kvs"
    "distinct (map fst kvs) \<longrightarrow> tview t' = tview t ++ map_of kvs" by blast
  with iter[of old kvs] i(1) t d assms(2) show ?thesis by simp
qed

end

locale peers_table = redb_table D view tview
  for D :: "('db, 'tx, byte list, string) redb"
    and view :: "'db \<Rightarrow> byte list \<rightharpoonup> string"
    and tview :: "'tx \<Rightarrow> byte list \<rightharpoonup> string"
begin

lemma add_missing_Inr: "add_missing D cs t = Inr t' \<Longrightarrow> tview t' = backfill (tview t) (set cs)"
proof (induction cs arbitrary: t)
  case (Cons c cs)
  from Cons.prems obtain v t1 where v: "rd_get D t c = Inr v"
    and t1: "(if v = None then ctxs ''inserting ring peer'' (rd_insert D t c []) else Inr t) = Inr t1"
    and rest: "add_missing D cs t1 = Inr t'" by (auto simp: bindR_Inr)
  have "tview t1 = backfill (tview t) {c}"
    using t1 get[OF v] insert by (auto simp: backfill_insert backfill_known split: if_splits)
  with Cons.IH[OF rest] show ?case by simp
qed simp

lemma add_rings_Inr:
  "add_rings D items t = Inr t' \<Longrightarrow> \<exists>rows. items = map Inr rows \<and> tview t' = backfill (tview t) (named_chunks rows)"
proof (induction items arbitrary: t)
  case Nil
  then show ?case by (simp add: named_chunks_def)
next
  case (Cons item items)
  from Cons.prems obtain n bs t1 where item: "item = Inr (n, bs)"
    and t1: "(if n = ''open'' then Inr t else add_missing D (chunks32 bs) t) = Inr t1"
    and rest: "add_rings D items t1 = Inr t'" by (auto simp: bindR_Inr)
  from Cons.IH[OF rest] obtain rows where rows: "items = map Inr rows"
    "tview t' = backfill (tview t1) (named_chunks rows)" by blast
  have "tview t1 = backfill (tview t) (named_chunks [(n, bs)])"
    using t1 add_missing_Inr by (auto simp: named_chunks_def split: if_splits)
  with rows item show ?case
    by (intro exI[of _ "(n, bs) # rows"]) (simp add: named_chunks_def)
qed

end

section \<open>The contract of the files\<close>

text \<open>The tables share their transactions, a write to one leaves the other alone, a new
  database is empty and opening one does not change it.\<close>

locale store_files =
  g: redb_table "rf_grants F" gview gt + p: peers_table "rf_peers F" pview pt + r: redb_table "rf_rings F" rview rt
  for F :: "('db, 'tx) redb_files" and gview gt pview pt rview rt +
  assumes same_begin: "rd_begin_write (rf_peers F) = rd_begin_write (rf_grants F)"
    and same_commit: "rd_commit (rf_peers F) = rd_commit (rf_grants F)"
    and insert_g: "rd_insert (rf_grants F) t k u = Inr t' \<Longrightarrow> pt t' = pt t"
    and insert_p: "rd_insert (rf_peers F) t k v = Inr t' \<Longrightarrow> gt t' = gt t"
    and open_g: "rd_open_table (rf_grants F) t = Inr t' \<Longrightarrow> pt t' = pt t"
    and open_p: "rd_open_table (rf_peers F) t = Inr t' \<Longrightarrow> gt t' = gt t"
    and created: "rf_create F None = Inr db \<Longrightarrow> gview db = Map.empty \<and> pview db = Map.empty"
    and recreated: "rf_create F (Some f) = Inr db \<Longrightarrow> gview db = gview f \<and> pview db = pview f"
    and opened: "rf_open F f = Inr db \<Longrightarrow> gview db = gview f \<and> pview db = pview f \<and> rview db = rview f"
begin

lemma g_write_keeps_p:
  assumes "with_write (rf_grants F) c1 c2 c3 body db = Inr db'" "\<And>t t'. body t = Inr t' \<Longrightarrow> pt t' = pt t"
  shows "pview db' = pview db"
  using assms(1) p.begin_write[unfolded same_begin] p.commit[unfolded same_commit] open_g
  by (auto simp: with_write_def bindR_Inr dest!: assms(2))

lemma p_write_keeps_g:
  assumes "with_write (rf_peers F) c1 c2 c3 body db = Inr db'" "\<And>t t'. body t = Inr t' \<Longrightarrow> gt t' = gt t"
  shows "gview db' = gview db"
  using assms(1) g.begin_write g.commit open_p
  by (auto simp: with_write_def bindR_Inr same_begin same_commit dest!: assms(2))

lemma copy_rows_keeps_p: "copy_rows (rf_grants F) c1 c2 items t = Inr t' \<Longrightarrow> pt t' = pt t"
  by (induction items arbitrary: t) (auto simp: bindR_Inr dest!: insert_g)

lemma copy_rows_keeps_g: "copy_rows (rf_peers F) c1 c2 items t = Inr t' \<Longrightarrow> gt t' = gt t"
  by (induction items arbitrary: t) (auto simp: bindR_Inr dest!: insert_p)

lemma add_missing_keeps_g: "add_missing (rf_peers F) cs t = Inr t' \<Longrightarrow> gt t' = gt t"
  by (induction cs arbitrary: t) (auto simp: bindR_Inr dest!: insert_p split: if_splits)

lemma add_rings_keeps_g: "add_rings (rf_peers F) items t = Inr t' \<Longrightarrow> gt t' = gt t"
  by (induction items arbitrary: t) (auto simp: bindR_Inr dest!: add_missing_keeps_g split: if_splits)

lemma copy_grants_Inr:
  assumes "copy_grants F src dst = Inr r" "gview dst = Map.empty"
  shows "(case r of None \<Rightarrow> old_rows F (rf_grants F) gview src = Map.empty
    | Some db \<Rightarrow> gview db = old_rows F (rf_grants F) gview src \<and> pview db = pview dst)"
proof -
  from assms(1) obtain f db read where src: "src = Some f" "rf_open F f = Inr db"
    "rd_begin_read (rf_grants F) db = Inr read"
    by (auto simp: copy_grants_def open_source_def bindR_Inr split: option.splits)
  show ?thesis
  proof (cases "rd_open_table (rf_grants F) read")
    case (Inl e)
    with assms src show ?thesis by (simp add: copy_grants_def open_source_def old_rows_def)
  next
    case (Inr old)
    from assms(1) src Inr obtain db' where r: "r = Some db'" and w: "with_write (rf_grants F)
        ''writing grants to local.redb.tmp'' ''opening grants table'' ''committing grants migration''
        (\<lambda>new. bindR (ctxs ''iterating grants'' (rd_iter (rf_grants F) old)) (\<lambda>items.
          copy_rows (rf_grants F) ''reading grant row'' ''inserting grant row'' items new)) dst = Inr db'"
      by (auto simp: copy_grants_def open_source_def bindR_Inr)
    have "gt old = gview f" using g.open_table[OF Inr] g.begin_read[OF src(3)] opened[OF src(2)] by simp
    moreover have "gview db' = gt old" by (rule g.copy_table[OF w assms(2)])
    moreover have "pview db' = pview dst"
      by (rule g_write_keeps_p[OF w]) (auto simp: bindR_Inr dest: copy_rows_keeps_p)
    ultimately show ?thesis using r src Inr by (auto simp: old_rows_def)
  qed
qed

lemma copy_peers_Inr:
  assumes "copy_peers F src dst = Inr r" "pview dst = Map.empty"
  shows "(case r of None \<Rightarrow> old_rows F (rf_peers F) pview src = Map.empty
    | Some db \<Rightarrow> pview db = old_rows F (rf_peers F) pview src \<and> gview db = gview dst)"
proof -
  from assms(1) obtain f db read where src: "src = Some f" "rf_open F f = Inr db"
    "rd_begin_read (rf_peers F) db = Inr read"
    by (auto simp: copy_peers_def open_source_def bindR_Inr split: option.splits)
  show ?thesis
  proof (cases "rd_open_table (rf_peers F) read")
    case (Inl e)
    with assms src show ?thesis by (simp add: copy_peers_def open_source_def old_rows_def)
  next
    case (Inr old)
    from assms(1) src Inr obtain db' where r: "r = Some db'" and w: "with_write (rf_peers F)
        ''writing peers to local.redb.tmp'' ''opening peers table'' ''committing peers migration''
        (\<lambda>new. bindR (ctxs ''iterating peers'' (rd_iter (rf_peers F) old)) (\<lambda>items.
          copy_rows (rf_peers F) ''reading peer row'' ''inserting peer row'' items new)) dst = Inr db'"
      by (auto simp: copy_peers_def open_source_def bindR_Inr)
    have "pt old = pview f" using p.open_table[OF Inr] p.begin_read[OF src(3)] opened[OF src(2)] by simp
    moreover have "pview db' = pt old" by (rule p.copy_table[OF w assms(2)])
    moreover have "gview db' = gview dst"
      by (rule p_write_keeps_g[OF w]) (auto simp: bindR_Inr dest: copy_rows_keeps_g)
    ultimately show ?thesis using r src Inr by (auto simp: old_rows_def)
  qed
qed

lemma copy_ring_peers_Inr:
  assumes "copy_ring_peers F src dst = Inr r"
  shows "let all = backfill (pview dst) (ring_members (old_rows F (rf_rings F) rview src)) in
    (case r of None \<Rightarrow> all = pview dst | Some db \<Rightarrow> pview db = all \<and> gview db = gview dst)"
proof -
  from assms(1) obtain f db read where src: "src = Some f" "rf_open F f = Inr db"
    "rd_begin_read (rf_rings F) db = Inr read"
    by (auto simp: copy_ring_peers_def open_source_def bindR_Inr split: option.splits)
  show ?thesis
  proof (cases "rd_open_table (rf_rings F) read")
    case (Inl e)
    with assms src show ?thesis
      by (simp add: copy_ring_peers_def open_source_def old_rows_def ring_members_def)
  next
    case (Inr old)
    from assms(1) src Inr obtain db' where r: "r = Some db'" and w: "with_write (rf_peers F)
        ''writing ring peers to local.redb.tmp'' ''opening peers table'' ''committing ring peers migration''
        (\<lambda>new. bindR (ctxs ''iterating rings'' (rd_iter (rf_rings F) old)) (\<lambda>items.
          add_rings (rf_peers F) items new)) dst = Inr db'"
      by (auto simp: copy_ring_peers_def open_source_def bindR_Inr)
    have old: "rt old = rview f" using r.open_table[OF Inr] r.begin_read[OF src(3)] opened[OF src(2)] by simp
    have "pview db' = backfill (pview dst) (ring_members (rt old))"
    proof (rule p.with_write_Inr[OF w])
      fix t t' assume t: "pt t = pview dst" and d: "pview db' = pt t'"
        and "bindR (ctxs ''iterating rings'' (rd_iter (rf_rings F) old)) (\<lambda>items.
          add_rings (rf_peers F) items t) = Inr t'"
      then obtain items where i: "rd_iter (rf_rings F) old = Inr items" "add_rings (rf_peers F) items t = Inr t'"
        by (auto simp: bindR_Inr)
      from p.add_rings_Inr[OF i(2)] obtain rows where rows: "items = map Inr rows"
        "pt t' = backfill (pt t) (named_chunks rows)" by blast
      with r.iter[of old rows] i(1) have "distinct (map fst rows)" "map_of rows = rt old" by simp_all
      with rows t d named_chunks_members[of rows] show ?thesis by simp
    qed
    moreover have "gview db' = gview dst"
      by (rule p_write_keeps_g[OF w]) (auto simp: bindR_Inr dest: add_rings_keeps_g)
    ultimately show ?thesis using r src Inr old by (simp add: old_rows_def)
  qed
qed

lemma init_tables_Inr:
  assumes "init_tables F db = Inr r"
  shows "\<exists>db'. r = Some db' \<and> gview db' = gview db \<and> pview db' = pview db"
proof -
  from assms obtain w w1 w2 db' where w: "rd_begin_write (rf_grants F) db = Inr w"
    "rd_open_table (rf_grants F) w = Inr w1" "rd_open_table (rf_peers F) w1 = Inr w2"
    "rd_commit (rf_grants F) db w2 = Inr db'" "r = Some db'" by (auto simp: init_tables_def bindR_Inr)
  have "gview db' = gview db"
    using g.begin_write[OF w(1)] g.open_table[OF w(2)] open_p[OF w(3)] g.commit[OF w(4)] by simp
  moreover have "pview db' = pview db"
    using p.begin_write[unfolded same_begin, OF w(1)] open_g[OF w(2)] p.open_table[OF w(3)]
      p.commit[unfolded same_commit, OF w(4)] by simp
  ultimately show ?thesis using w(5) by blast
qed

end

section \<open>One file at a time\<close>

text \<open>Until the rename the migration touches the temporary file only.\<close>

definition only_tmp :: "'db data_dir \<Rightarrow> 'db data_dir \<Rightarrow> bool" where
  "only_tmp s t \<longleftrightarrow> (\<forall>n. n \<noteq> LOCAL_TMP \<longrightarrow> dd_files t n = dd_files s n)"

interpretation only_tmp: act_preorder only_tmp
  by unfold_locales (auto simp: only_tmp_def)

lemma mutate_Inr: "mutate f s = (Inr u, t) \<Longrightarrow> dd_files t = f (dd_files s)"
  by (auto simp: mutate_def split: option.splits nat.splits)

lemma mutate_Inl: "mutate f s = (Inl e, t) \<Longrightarrow> t = s"
  by (auto simp: mutate_def split: option.splits nat.splits)

lemma mutate_room: "dd_room s = None \<Longrightarrow> mutate f s = (Inr (), s\<lparr>dd_files := f (dd_files s)\<rparr>)"
  by (simp add: mutate_def)

lemma ctxA_Inr: "ctxA c m s = (Inr a, t) \<longleftrightarrow> m s = (Inr a, t)"
  by (auto simp: ctxA_def split: prod.splits)

lemma ctxA_Inl: "ctxA c m s = (Inl e, t) \<Longrightarrow> \<exists>e'. m s = (Inl e', t)"
  by (auto simp: ctxA_def ctx_def split: prod.splits sum.splits)

lemma stays_ctxA: "stays rel m \<Longrightarrow> stays rel (ctxA c m)"
  by (auto simp: stays_def ctxA_def split: prod.splits) (metis snd_conv)

lemma mutate_only_tmp: "(\<And>fs n. n \<noteq> LOCAL_TMP \<Longrightarrow> f fs n = fs n) \<Longrightarrow> stays only_tmp (mutate f)"
  by (auto simp: stays_def mutate_def only_tmp_def split: option.splits nat.splits)

lemma create_db_only_tmp: "stays only_tmp (create_db F c LOCAL_TMP)"
  unfolding create_db_def by (intro only_tmp.stays_rules stays_ctxA mutate_only_tmp) simp

lemma commit_db_only_tmp: "stays only_tmp (commit_db c LOCAL_TMP body)"
  unfolding commit_db_def by (intro only_tmp.stays_rules stays_ctxA mutate_only_tmp) simp

lemma fill_tmp_only_tmp: "stays only_tmp (fill_tmp F a b)"
  unfolding fill_tmp_def file_exists_def
  by (intro only_tmp.stays_rules create_db_only_tmp commit_db_only_tmp)

lemma commit_db_Inr:
  assumes "commit_db c n body s = (Inr u, t)"
  shows "\<exists>db r. dd_files s n = Some db \<and> body db = Inr r
    \<and> dd_files t = (case r of None \<Rightarrow> dd_files s | Some db' \<Rightarrow> (dd_files s)(n \<mapsto> db'))"
  using assms by (auto simp: commit_db_def act_Inr ctxA_Inr dest!: mutate_Inr split: option.splits)

lemma create_db_Inr:
  "create_db F c n s = (Inr u, t) \<Longrightarrow>
     \<exists>db. rf_create F (dd_files s n) = Inr db \<and> dd_files t = (dd_files s)(n \<mapsto> db)"
  by (auto simp: create_db_def act_Inr ctxA_Inr dest!: mutate_Inr)

text \<open>A run in which no step fails leaves it so.\<close>

definition keeps_room :: "'db data_dir \<Rightarrow> 'db data_dir \<Rightarrow> bool" where
  "keeps_room s t \<longleftrightarrow> (dd_room s = None \<longrightarrow> dd_room t = None)"

interpretation keeps_room: act_preorder keeps_room
  by unfold_locales (auto simp: keeps_room_def)

lemma mutate_keeps_room: "stays keeps_room (mutate f)"
  by (auto simp: stays_def mutate_def keeps_room_def split: option.split nat.split)

lemma files_keep_room:
  "stays keeps_room (remove_file n)" "stays keeps_room (rename_file n m)"
  "stays keeps_room (create_db F c n)" "stays keeps_room (commit_db c n body)"
  unfolding remove_file_def rename_file_def create_db_def commit_db_def file_exists_def
  by (intro keeps_room.stays_rules stays_ctxA mutate_keeps_room)+

lemma migrate_keeps_room: "stays keeps_room (migrate_if_needed F)"
  unfolding migrate_if_needed_def fill_tmp_def remove_stale_def delete_old_def file_exists_def
  by (intro keeps_room.stays_rules stays_ctxA files_keep_room)

lemma migrate_room: "dd_room s = None \<Longrightarrow> dd_room (snd (migrate_if_needed F s)) = None"
  using migrate_keeps_room[of F] by (simp add: stays_def keeps_room_def)

section \<open>Nothing is lost\<close>

text \<open>A database holds what the old files held: every grant, every known peer with its
  nickname, and the members of the named rings, without a nickname where they had none.\<close>

definition carried ::
    "('db, 'tx) redb_files \<Rightarrow> ('db \<Rightarrow> byte list \<rightharpoonup> unit) \<Rightarrow> ('db \<Rightarrow> byte list \<rightharpoonup> string) \<Rightarrow> ('db \<Rightarrow> string \<rightharpoonup> byte list)
     \<Rightarrow> 'db files \<Rightarrow> 'db \<Rightarrow> bool" where
  "carried F gview pview rview fs db \<longleftrightarrow>
     gview db = old_rows F (rf_grants F) gview (fs GRANTS_FILE)
   \<and> pview db = backfill (old_rows F (rf_peers F) pview (fs PEERS_FILE))
       (ring_members (old_rows F (rf_rings F) rview (fs REGISTRY_FILE)))"

lemma file_names [simp]:
  "LOCAL \<noteq> LOCAL_TMP" "LOCAL_TMP \<noteq> LOCAL" "LOCAL \<noteq> GRANTS_FILE" "LOCAL \<noteq> PEERS_FILE" "LOCAL \<noteq> REGISTRY_FILE"
  "GRANTS_FILE \<noteq> LOCAL" "PEERS_FILE \<noteq> LOCAL" "REGISTRY_FILE \<noteq> LOCAL"
  "GRANTS_FILE \<noteq> LOCAL_TMP" "PEERS_FILE \<noteq> LOCAL_TMP" "REGISTRY_FILE \<noteq> LOCAL_TMP"
  "LOCAL_TMP \<noteq> GRANTS_FILE" "LOCAL_TMP \<noteq> PEERS_FILE" "LOCAL_TMP \<noteq> REGISTRY_FILE"
  "GRANTS_FILE \<noteq> PEERS_FILE" "PEERS_FILE \<noteq> GRANTS_FILE" "GRANTS_FILE \<noteq> REGISTRY_FILE"
  "REGISTRY_FILE \<noteq> GRANTS_FILE" "PEERS_FILE \<noteq> REGISTRY_FILE" "REGISTRY_FILE \<noteq> PEERS_FILE"
  by (simp_all add: LOCAL_def LOCAL_TMP_def GRANTS_FILE_def PEERS_FILE_def REGISTRY_FILE_def)

lemma old_rows_None [simp]: "old_rows F D view None = Map.empty"
  by (simp add: old_rows_def)

lemma ring_members_empty [simp]: "ring_members Map.empty = {}"
  by (simp add: ring_members_def)

lemma thenA_cases:
  assumes "thenA m n s = (r, t)"
  obtains (first) e where "m s = (Inl e, t)" "r = Inl e" | (second) a u where "m s = (Inr a, u)" "n u = (r, t)"
  using assms by (auto simp: thenA_def bindA_def split: prod.splits sum.splits)

lemma copy_step_Inr:
  assumes "(if has then bindA (getA (\<lambda>s. dd_files s n)) (\<lambda>src. commit_db c LOCAL_TMP (copy src)) else ret ()) s = (Inr u, t)"
    and "dd_files s LOCAL_TMP = Some db"
  obtains (copied) r where "has" "copy (dd_files s n) db = Inr r"
      "dd_files t = (case r of None \<Rightarrow> dd_files s | Some db' \<Rightarrow> (dd_files s)(LOCAL_TMP \<mapsto> db'))"
    | (skipped) "\<not> has" "t = s"
proof (cases has)
  case True
  with assms(1) have "commit_db c LOCAL_TMP (copy (dd_files s n)) s = (Inr u, t)" by (simp add: act_simps)
  from commit_db_Inr[OF this] assms(2) True that(1) show ?thesis by auto
next
  case False
  with assms(1) that(2) show ?thesis by (simp add: act_simps)
qed

context store_files
begin

lemma fill_tmp_Inr:
  assumes "fill_tmp F has_grants has_peers s = (Inr u, t)" "dd_files s LOCAL_TMP = None"
    and "has_grants = (dd_files s GRANTS_FILE \<noteq> None)" "has_peers = (dd_files s PEERS_FILE \<noteq> None)"
  shows "\<exists>db. dd_files t = (dd_files s)(LOCAL_TMP \<mapsto> db) \<and> carried F gview pview rview (dd_files s) db"
proof -
  let ?copy = "\<lambda>has n c cp. if has then bindA (getA (\<lambda>s. dd_files s n)) (\<lambda>src.
      commit_db c LOCAL_TMP (cp src)) else ret ()"
  let ?fs = "dd_files s"
  from assms(1) obtain u1 s1 u2 s2 u3 s3 u4 s4 where
    create: "create_db F ''creating local.redb.tmp'' LOCAL_TMP s = (Inr u1, s1)" and
    init: "commit_db ''committing local.redb.tmp init'' LOCAL_TMP (init_tables F) s1 = (Inr u2, s2)" and
    grants: "?copy has_grants GRANTS_FILE ''committing grants migration'' (copy_grants F) s2 = (Inr u3, s3)" and
    peers: "?copy has_peers PEERS_FILE ''committing peers migration'' (copy_peers F) s3 = (Inr u4, s4)" and
    rings: "?copy (dd_files s4 REGISTRY_FILE \<noteq> None) REGISTRY_FILE ''committing ring peers migration''
      (copy_ring_peers F) s4 = (Inr u, t)"
    unfolding fill_tmp_def thenA_eq_Inr file_exists_def bindA_getA by blast
  from create_db_Inr[OF create] assms(2) created obtain db1 where
    1: "dd_files s1 = ?fs(LOCAL_TMP \<mapsto> db1)" "gview db1 = Map.empty" "pview db1 = Map.empty" by auto
  from commit_db_Inr[OF init] 1 init_tables_Inr obtain db2 where
    2: "dd_files s2 = ?fs(LOCAL_TMP \<mapsto> db2)" "gview db2 = Map.empty" "pview db2 = Map.empty" by fastforce
  have tmp2: "dd_files s2 LOCAL_TMP = Some db2" using 2 by simp
  obtain db3 where 3: "dd_files s3 = ?fs(LOCAL_TMP \<mapsto> db3)"
    "gview db3 = old_rows F (rf_grants F) gview (?fs GRANTS_FILE)" "pview db3 = Map.empty"
  proof (rule copy_step_Inr[OF grants tmp2])
    fix r assume "copy_grants F (dd_files s2 GRANTS_FILE) db2 = Inr r"
      "dd_files s3 = (case r of None \<Rightarrow> dd_files s2 | Some db' \<Rightarrow> (dd_files s2)(LOCAL_TMP \<mapsto> db'))"
    with copy_grants_Inr[of "dd_files s2 GRANTS_FILE" db2 r] 2 that show ?thesis by (auto split: option.splits)
  next
    assume "\<not> has_grants" "s3 = s2"
    with 2 assms(3) that[of db2] show ?thesis by simp
  qed
  have tmp3: "dd_files s3 LOCAL_TMP = Some db3" using 3 by simp
  obtain db4 where 4: "dd_files s4 = ?fs(LOCAL_TMP \<mapsto> db4)" "gview db4 = gview db3"
    "pview db4 = old_rows F (rf_peers F) pview (?fs PEERS_FILE)"
  proof (rule copy_step_Inr[OF peers tmp3])
    fix r assume "copy_peers F (dd_files s3 PEERS_FILE) db3 = Inr r"
      "dd_files s4 = (case r of None \<Rightarrow> dd_files s3 | Some db' \<Rightarrow> (dd_files s3)(LOCAL_TMP \<mapsto> db'))"
    with copy_peers_Inr[of "dd_files s3 PEERS_FILE" db3 r] 3 that show ?thesis by (auto split: option.splits)
  next
    assume "\<not> has_peers" "s4 = s3"
    with 3 assms(4) that[of db3] show ?thesis by simp
  qed
  have tmp4: "dd_files s4 LOCAL_TMP = Some db4" using 4 by simp
  show ?thesis
  proof (rule copy_step_Inr[OF rings tmp4])
    fix r assume "copy_ring_peers F (dd_files s4 REGISTRY_FILE) db4 = Inr r"
      "dd_files t = (case r of None \<Rightarrow> dd_files s4 | Some db' \<Rightarrow> (dd_files s4)(LOCAL_TMP \<mapsto> db'))"
    with copy_ring_peers_Inr[of "dd_files s4 REGISTRY_FILE" db4 r] 3 4 show ?thesis
      by (auto simp: carried_def Let_def split: option.splits)
  next
    assume "\<not> dd_files s4 REGISTRY_FILE \<noteq> None" "t = s4"
    with 3 4 show ?thesis by (auto simp: carried_def)
  qed
qed

end

section \<open>Where the migration can stop\<close>

definition old_present :: "'db files \<Rightarrow> bool" where
  "old_present fs \<longleftrightarrow> fs GRANTS_FILE \<noteq> None \<or> fs PEERS_FILE \<noteq> None"

lemma migrate_run:
  assumes "dd_files s LOCAL = None" "old_present (dd_files s)"
  shows "migrate_if_needed F s =
    (let hg = (dd_files s GRANTS_FILE \<noteq> None); hp = (dd_files s PEERS_FILE \<noteq> None) in
     thenA remove_stale (thenA (fill_tmp F hg hp)
       (thenA (ctxA (''renaming local.redb.tmp '' @ arrow @ '' local.redb'') (rename_file LOCAL_TMP LOCAL))
         (delete_old hg hp))) s)"
  using assms by (auto simp: migrate_if_needed_def file_exists_def bindA_getA old_present_def Let_def)

lemma migrate_idle:
  "dd_files s LOCAL \<noteq> None \<or> \<not> old_present (dd_files s) \<Longrightarrow> migrate_if_needed F s = (Inr (), s)"
  by (auto simp: migrate_if_needed_def file_exists_def bindA_getA old_present_def act_simps)

lemma remove_file_Inr: "remove_file n s = (Inr u, t) \<Longrightarrow> dd_files t = (dd_files s)(n := None)"
  by (auto simp: remove_file_def file_exists_def bindA_getA act_apply dest!: mutate_Inr split: if_splits)

lemma remove_stale_only_tmp: "stays only_tmp remove_stale"
  unfolding remove_stale_def remove_file_def file_exists_def
  by (intro only_tmp.stays_rules stays_ctxA mutate_only_tmp) simp

lemma remove_stale_Inr: "remove_stale s = (Inr u, t) \<Longrightarrow> dd_files t = (dd_files s)(LOCAL_TMP := None)"
  by (auto simp: remove_stale_def file_exists_def bindA_getA ctxA_Inr act_apply fun_upd_idem
      dest!: remove_file_Inr split: if_splits)

lemma rename_file_Inr:
  "rename_file a b s = (Inr u, t) \<Longrightarrow> \<exists>f. dd_files s a = Some f \<and> dd_files t = (dd_files s)(a := None, b \<mapsto> f)"
  by (auto simp: rename_file_def bindA_getA act_apply dest!: mutate_Inr split: option.splits)

lemma rename_file_Inl: "rename_file a b s = (Inl e, t) \<Longrightarrow> t = s"
  by (auto simp: rename_file_def bindA_getA act_apply dest!: mutate_Inl split: option.splits)

text \<open>After the rename only the old files can still change.\<close>

definition only_old :: "'db data_dir \<Rightarrow> 'db data_dir \<Rightarrow> bool" where
  "only_old s t \<longleftrightarrow> (\<forall>n. n \<noteq> GRANTS_FILE \<and> n \<noteq> PEERS_FILE \<longrightarrow> dd_files t n = dd_files s n)"

interpretation only_old: act_preorder only_old
  by unfold_locales (auto simp: only_old_def)

lemma delete_old_only_old: "stays only_old (delete_old a b)"
proof -
  have del: "stays only_old (mutate (\<lambda>fs. fs(n := None)))" if "n = GRANTS_FILE \<or> n = PEERS_FILE" for n
    using that by (auto simp: stays_def mutate_def only_old_def split: option.splits nat.splits)
  show ?thesis
    unfolding delete_old_def remove_file_def file_exists_def
    by (intro only_old.stays_rules stays_ctxA del) simp_all
qed

lemma delete_old_Inr:
  assumes "delete_old (fs GRANTS_FILE \<noteq> None) (fs PEERS_FILE \<noteq> None) s = (Inr u, t)"
    and "dd_files s GRANTS_FILE = fs GRANTS_FILE" "dd_files s PEERS_FILE = fs PEERS_FILE"
  shows "dd_files t GRANTS_FILE = None" "dd_files t PEERS_FILE = None"
  using assms by (auto simp: delete_old_def thenA_eq_Inr ctxA_Inr act_apply dest!: remove_file_Inr split: if_splits)

lemma publish_stops:
  assumes "thenA (ctxA c (rename_file LOCAL_TMP LOCAL))
      (delete_old (fs GRANTS_FILE \<noteq> None) (fs PEERS_FILE \<noteq> None)) s = (r, t)"
    and fs: "dd_files s = fs(LOCAL_TMP \<mapsto> db)"
  shows "(t = s \<and> (\<exists>e. r = Inl e))
    \<or> (dd_files t LOCAL = Some db \<and> dd_files t LOCAL_TMP = None \<and> dd_files t REGISTRY_FILE = fs REGISTRY_FILE
        \<and> (is_ok r \<longrightarrow> \<not> old_present (dd_files t)))"
proof (rule thenA_cases[OF assms(1)])
  fix e assume "ctxA c (rename_file LOCAL_TMP LOCAL) s = (Inl e, t)" "r = Inl e"
  then show ?thesis by (auto dest!: ctxA_Inl rename_file_Inl)
next
  fix a u assume "ctxA c (rename_file LOCAL_TMP LOCAL) s = (Inr a, u)"
    and del: "delete_old (fs GRANTS_FILE \<noteq> None) (fs PEERS_FILE \<noteq> None) u = (r, t)"
  then have u: "dd_files u = fs(LOCAL_TMP := None, LOCAL \<mapsto> db)"
    using fs by (auto simp: ctxA_Inr dest!: rename_file_Inr)
  have oo: "only_old u t" by (rule only_old.stays_state[OF delete_old_only_old del])
  have "\<not> old_present (dd_files t)" if "is_ok r"
  proof -
    from that obtain v where "r = Inr v" by (rule is_okE)
    with del delete_old_Inr[of fs u v t] u show ?thesis by (simp add: old_present_def)
  qed
  with oo u show ?thesis by (simp add: only_old_def)
qed

context store_files
begin

lemma migrate_stops:
  assumes "dd_files s LOCAL = None" "migrate_if_needed F s = (r, t)"
  shows "(dd_files t LOCAL = None \<and> only_tmp s t \<and> (is_ok r \<longrightarrow> \<not> old_present (dd_files s)))
    \<or> (\<exists>db. dd_files t LOCAL = Some db \<and> carried F gview pview rview (dd_files s) db
        \<and> dd_files t LOCAL_TMP = None \<and> dd_files t REGISTRY_FILE = dd_files s REGISTRY_FILE
        \<and> (is_ok r \<longrightarrow> \<not> old_present (dd_files t)))"
proof (cases "old_present (dd_files s)")
  case False
  with migrate_idle[of s F] assms have "t = s" by simp
  with False assms(1) show ?thesis by (simp add: only_tmp.rel_refl)
next
  case True
  let ?fs = "dd_files s"
  let ?hg = "?fs GRANTS_FILE \<noteq> None" and ?hp = "?fs PEERS_FILE \<noteq> None"
  let ?publish = "thenA (ctxA (''renaming local.redb.tmp '' @ arrow @ '' local.redb'')
      (rename_file LOCAL_TMP LOCAL)) (delete_old ?hg ?hp)"
  have untouched: ?thesis if "only_tmp s t" "r = Inl e" for e
    using that assms(1) by (simp add: only_tmp_def)
  from assms(2) have run: "thenA remove_stale (thenA (fill_tmp F ?hg ?hp) ?publish) s = (r, t)"
    unfolding migrate_run[OF assms(1) True] Let_def .
  show ?thesis
  proof (rule thenA_cases[OF run])
    fix e assume "remove_stale s = (Inl e, t)" "r = Inl e"
    with only_tmp.stays_state[OF remove_stale_only_tmp] show ?thesis by (intro untouched)
  next
    fix a1 s1 assume 1: "remove_stale s = (Inr a1, s1)" and rest: "thenA (fill_tmp F ?hg ?hp) ?publish s1 = (r, t)"
    note ot1 = only_tmp.stays_state[OF remove_stale_only_tmp 1] and fs1 = remove_stale_Inr[OF 1]
    show ?thesis
    proof (rule thenA_cases[OF rest])
      fix e assume f: "fill_tmp F ?hg ?hp s1 = (Inl e, t)" "r = Inl e"
      from only_tmp.rel_trans[OF ot1 only_tmp.stays_state[OF fill_tmp_only_tmp f(1)]] f(2)
      show ?thesis by (rule untouched)
    next
      fix a2 s2 assume 2: "fill_tmp F ?hg ?hp s1 = (Inr a2, s2)" and pub: "?publish s2 = (r, t)"
      have ot2: "only_tmp s s2"
        by (rule only_tmp.rel_trans[OF ot1 only_tmp.stays_state[OF fill_tmp_only_tmp 2]])
      obtain db where "dd_files s2 = (dd_files s1)(LOCAL_TMP \<mapsto> db)"
        "carried F gview pview rview (dd_files s1) db"
        using fill_tmp_Inr[OF 2] unfolding fs1 by fastforce
      then have db: "dd_files s2 = ?fs(LOCAL_TMP \<mapsto> db)" "carried F gview pview rview ?fs db"
        by (simp_all add: fs1 carried_def)
      from publish_stops[OF pub db(1)] show ?thesis
      proof
        assume "t = s2 \<and> (\<exists>e. r = Inl e)"
        with ot2 untouched show ?thesis by metis
      next
        assume "dd_files t LOCAL = Some db \<and> dd_files t LOCAL_TMP = None
          \<and> dd_files t REGISTRY_FILE = ?fs REGISTRY_FILE \<and> (is_ok r \<longrightarrow> \<not> old_present (dd_files t))"
        with db(2) show ?thesis by (intro disjI2 exI[of _ db]) simp
      qed
    qed
  qed
qed

end

section \<open>When nothing fails\<close>

lemma thenA_seq: "m s = (Inr a, t) \<Longrightarrow> n t = r \<Longrightarrow> thenA m n s = r"
  by (simp add: thenA_def bindA_def)

lemma ctxA_ok: "m s = (Inr a, t) \<Longrightarrow> ctxA c m s = (Inr a, t)"
  by (simp add: ctxA_def)

lemma commit_db_runs:
  assumes "dd_room s = None" "dd_files s n = Some db" "body db = Inr r"
  shows "commit_db c n body s = (Inr (), s\<lparr>dd_files := (case r of None \<Rightarrow> dd_files s | Some d \<Rightarrow> (dd_files s)(n \<mapsto> d))\<rparr>)"
  using assms by (cases r) (simp_all add: commit_db_def bindA_def queryA_def ctxA_def mutate_room act_apply)

lemma create_db_runs:
  "dd_room s = None \<Longrightarrow> rf_create F (dd_files s n) = Inr db \<Longrightarrow>
     create_db F c n s = (Inr (), s\<lparr>dd_files := (dd_files s)(n \<mapsto> db)\<rparr>)"
  by (simp add: create_db_def bindA_def queryA_def ctxA_def mutate_room)

lemma remove_file_runs:
  "dd_room s = None \<Longrightarrow> dd_files s n \<noteq> None \<Longrightarrow>
     remove_file n s = (Inr (), s\<lparr>dd_files := (dd_files s)(n := None)\<rparr>)"
  by (simp add: remove_file_def file_exists_def bindA_getA mutate_room)

lemma rename_file_runs:
  "dd_room s = None \<Longrightarrow> dd_files s a = Some f \<Longrightarrow>
     rename_file a b s = (Inr (), s\<lparr>dd_files := (dd_files s)(a := None, b \<mapsto> f)\<rparr>)"
  by (simp add: rename_file_def bindA_getA mutate_room)

lemma remove_stale_runs:
  assumes "dd_room s = None"
  shows "remove_stale s = (Inr (), s\<lparr>dd_files := (dd_files s)(LOCAL_TMP := None)\<rparr>)"
proof (cases "dd_files s LOCAL_TMP")
  case None
  then have "(dd_files s)(LOCAL_TMP := None) = dd_files s" by (rule fun_upd_idem)
  with None show ?thesis by (simp add: remove_stale_def file_exists_def bindA_getA act_apply)
next
  case (Some f)
  with assms show ?thesis
    by (simp add: remove_stale_def file_exists_def bindA_getA ctxA_def remove_file_runs)
qed

lemma delete_old_runs:
  assumes "dd_room s = None" "a \<longrightarrow> dd_files s GRANTS_FILE \<noteq> None" "b \<longrightarrow> dd_files s PEERS_FILE \<noteq> None"
  shows "\<exists>t. delete_old a b s = (Inr (), t)"
proof -
  have "\<exists>t. (if has then ctxA c (remove_file n) else ret ()) u = (Inr (), t) \<and> dd_room t = None
      \<and> (\<forall>m. m \<noteq> n \<longrightarrow> dd_files t m = dd_files u m)"
    if "dd_room u = None" "has \<longrightarrow> dd_files u n \<noteq> None" for has n c and u :: "'a data_dir"
    using that by (simp add: ctxA_def remove_file_runs act_apply)
  from this[OF assms(1,2), of "''deleting grants.redb''"] obtain t where
    t: "(if a then ctxA ''deleting grants.redb'' (remove_file GRANTS_FILE) else ret ()) s = (Inr (), t)"
    "dd_room t = None" "dd_files t PEERS_FILE = dd_files s PEERS_FILE" by auto
  show ?thesis
  proof (cases b)
    case True
    with t assms(3) show ?thesis
      by (simp add: delete_old_def thenA_def bindA_def ctxA_def remove_file_runs)
  next
    case False
    with t show ?thesis by (simp add: delete_old_def thenA_def bindA_def act_apply)
  qed
qed

lemma copy_step_runs:
  assumes "dd_room s = None" "dd_files s LOCAL_TMP = Some db" "has \<longrightarrow> dd_files s n \<noteq> None"
    and "\<And>f. \<exists>r. copy (Some f) db = Inr r"
  shows "\<exists>d. (if has then bindA (getA (\<lambda>s. dd_files s n)) (\<lambda>src. commit_db c LOCAL_TMP (copy src)) else ret ()) s
    = (Inr (), s\<lparr>dd_files := (dd_files s)(LOCAL_TMP \<mapsto> d)\<rparr>)"
proof (cases has)
  case True
  with assms(3) obtain f where f: "dd_files s n = Some f" by blast
  from assms(4)[of f] obtain r where "copy (Some f) db = Inr r" by blast
  then have run: "commit_db c LOCAL_TMP (copy (Some f)) s
      = (Inr (), s\<lparr>dd_files := (case r of None \<Rightarrow> dd_files s | Some d \<Rightarrow> (dd_files s)(LOCAL_TMP \<mapsto> d))\<rparr>)"
    by (rule commit_db_runs[OF assms(1,2)])
  have "(dd_files s)(LOCAL_TMP \<mapsto> db) = dd_files s" using assms(2) by (rule fun_upd_idem)
  with run have "commit_db c LOCAL_TMP (copy (Some f)) s
      = (Inr (), s\<lparr>dd_files := (dd_files s)(LOCAL_TMP \<mapsto> (case r of None \<Rightarrow> db | Some d \<Rightarrow> d))\<rparr>)"
    by (simp split: option.split)
  with True f show ?thesis by (auto simp: bindA_getA)
next
  case False
  with assms(2) show ?thesis by (auto simp: act_apply fun_upd_idem intro!: exI[of _ db])
qed

context redb_live
begin

lemma with_write_runs:
  assumes "\<And>t. \<exists>t'. body t = Inr t'"
  shows "\<exists>db'. with_write D c1 c2 c3 body db = Inr db'"
proof -
  obtain tx t t' db' where "rd_begin_write D db = Inr tx" "rd_open_table D tx = Inr t"
    "body t = Inr t'" "rd_commit D db t' = Inr db'"
    using live_begin_write live_open_table live_commit assms by metis
  then show ?thesis by (simp add: with_write_def)
qed

lemma copy_rows_runs: "\<exists>t'. copy_rows D c1 c2 (map Inr kvs) t = Inr t'"
proof (induction kvs arbitrary: t)
  case (Cons kv kvs)
  obtain t1 where "rd_insert D t (fst kv) (snd kv) = Inr t1" using live_insert by blast
  with Cons.IH[of t1] show ?case by (cases kv) simp
qed simp

lemma copy_table_runs:
  "\<exists>db'. with_write D c1 c2 c3 (\<lambda>new. bindR (ctxs c4 (rd_iter E old)) (\<lambda>items.
     copy_rows D c5 c6 items new)) dst = Inr db'" if "\<exists>kvs. rd_iter E old = Inr (map Inr kvs)"
  using that copy_rows_runs by (intro with_write_runs) (auto simp: bindR_Inr)

end

lemma bindR_runs: "\<exists>a. m = Inr a \<Longrightarrow> \<exists>r. bindR m (\<lambda>a. Inr (f a)) = Inr r"
  by auto

locale store_files_live = store_files F gview gt pview pt rview rt
    + gl: redb_live "rf_grants F" gview gt + pl: redb_live "rf_peers F" pview pt + rl: redb_live "rf_rings F" rview rt
  for F :: "('db, 'tx) redb_files" and gview gt pview pt rview rt +
  assumes live_create: "\<exists>db. rf_create F f = Inr db"
    and live_open: "\<exists>db. rf_open F d = Inr db"
begin

lemma add_missing_runs: "\<exists>t'. add_missing (rf_peers F) cs t = Inr t'"
proof (induction cs arbitrary: t)
  case (Cons c cs)
  obtain v where v: "rd_get (rf_peers F) t c = Inr v" using pl.live_get by blast
  obtain t1 where "rd_insert (rf_peers F) t c [] = Inr t1" using pl.live_insert by blast
  with v Cons.IH show ?case by simp
qed simp

lemma add_rings_runs: "\<exists>t'. add_rings (rf_peers F) (map Inr rows) t = Inr t'"
proof (induction rows arbitrary: t)
  case (Cons row rows)
  obtain t1 where "add_missing (rf_peers F) (chunks32 (snd row)) t = Inr t1" using add_missing_runs by blast
  with Cons.IH show ?case by (cases row) simp
qed simp

lemma copy_grants_runs: "\<exists>r. copy_grants F (Some f) dst = Inr r"
proof -
  obtain src where src: "rf_open F f = Inr src" using live_open by blast
  obtain read where read: "rd_begin_read (rf_grants F) src = Inr read" using gl.live_begin_read by blast
  obtain old where old: "rd_open_table (rf_grants F) read = Inr old" using gl.live_open_table by blast
  show ?thesis
    by (simp only: copy_grants_def open_source_def option.case src ctxs_simps bindR_simps read old sum.case)
      (rule bindR_runs, rule gl.copy_table_runs[OF gl.live_iter])
qed

lemma copy_peers_runs: "\<exists>r. copy_peers F (Some f) dst = Inr r"
proof -
  obtain src where src: "rf_open F f = Inr src" using live_open by blast
  obtain read where read: "rd_begin_read (rf_peers F) src = Inr read" using pl.live_begin_read by blast
  obtain old where old: "rd_open_table (rf_peers F) read = Inr old" using pl.live_open_table by blast
  show ?thesis
    by (simp only: copy_peers_def open_source_def option.case src ctxs_simps bindR_simps read old sum.case)
      (rule bindR_runs, rule pl.copy_table_runs[OF pl.live_iter])
qed

lemma copy_ring_peers_runs: "\<exists>r. copy_ring_peers F (Some f) dst = Inr r"
proof -
  obtain src where src: "rf_open F f = Inr src" using live_open by blast
  obtain read where read: "rd_begin_read (rf_rings F) src = Inr read" using rl.live_begin_read by blast
  obtain old where old: "rd_open_table (rf_rings F) read = Inr old" using rl.live_open_table by blast
  obtain rows where "rd_iter (rf_rings F) old = Inr (map Inr rows)" using rl.live_iter by blast
  then have "\<exists>t'. bindR (ctxs c (rd_iter (rf_rings F) old)) (\<lambda>items. add_rings (rf_peers F) items t) = Inr t'" for c t
    using add_rings_runs by simp
  then show ?thesis
    by (simp only: copy_ring_peers_def open_source_def option.case src ctxs_simps bindR_simps read old sum.case)
      (rule bindR_runs, rule pl.with_write_runs)
qed

lemma init_tables_runs: "\<exists>r. init_tables F db = Inr r"
  unfolding init_tables_def using gl.live_begin_write gl.live_open_table pl.live_open_table gl.live_commit
  by (metis bindR_simps(2) ctxs_simps(1))

lemma fill_tmp_runs:
  assumes "dd_room s = None"
    and "has_grants = (dd_files s GRANTS_FILE \<noteq> None)" "has_peers = (dd_files s PEERS_FILE \<noteq> None)"
  shows "\<exists>d. fill_tmp F has_grants has_peers s = (Inr (), s\<lparr>dd_files := (dd_files s)(LOCAL_TMP \<mapsto> d)\<rparr>)"
proof -
  let ?s = "\<lambda>d. s\<lparr>dd_files := (dd_files s)(LOCAL_TMP \<mapsto> d)\<rparr>"
  obtain db1 where 1: "create_db F ''creating local.redb.tmp'' LOCAL_TMP s = (Inr (), ?s db1)"
    using create_db_runs[OF assms(1)] live_create by metis
  obtain r where "init_tables F db1 = Inr r" using init_tables_runs by blast
  then obtain db2 where 2: "commit_db ''committing local.redb.tmp init'' LOCAL_TMP (init_tables F) (?s db1) = (Inr (), ?s db2)"
    using commit_db_runs[of "?s db1" LOCAL_TMP db1 "init_tables F" r] init_tables_Inr assms(1) by fastforce
  obtain db3 where 3: "(if has_grants then bindA (getA (\<lambda>s. dd_files s GRANTS_FILE)) (\<lambda>src.
        commit_db ''committing grants migration'' LOCAL_TMP (copy_grants F src)) else ret ()) (?s db2) = (Inr (), ?s db3)"
    using copy_step_runs[of "?s db2" db2 has_grants GRANTS_FILE "copy_grants F" "''committing grants migration''"]
      copy_grants_runs assms(1,2) by auto
  obtain db4 where 4: "(if has_peers then bindA (getA (\<lambda>s. dd_files s PEERS_FILE)) (\<lambda>src.
        commit_db ''committing peers migration'' LOCAL_TMP (copy_peers F src)) else ret ()) (?s db3) = (Inr (), ?s db4)"
    using copy_step_runs[of "?s db3" db3 has_peers PEERS_FILE "copy_peers F" "''committing peers migration''"]
      copy_peers_runs assms(1,3) by auto
  obtain db5 where 5: "(if dd_files (?s db4) REGISTRY_FILE \<noteq> None then bindA (getA (\<lambda>s. dd_files s REGISTRY_FILE)) (\<lambda>src.
        commit_db ''committing ring peers migration'' LOCAL_TMP (copy_ring_peers F src)) else ret ()) (?s db4) = (Inr (), ?s db5)"
    using copy_step_runs[of "?s db4" db4 "dd_files (?s db4) REGISTRY_FILE \<noteq> None" REGISTRY_FILE "copy_ring_peers F"
        "''committing ring peers migration''"] copy_ring_peers_runs assms(1) by auto
  have "fill_tmp F has_grants has_peers s = (Inr (), ?s db5)"
    unfolding fill_tmp_def file_exists_def
    by (rule thenA_seq, rule 1, rule thenA_seq, rule 2, rule thenA_seq, rule 3, rule thenA_seq, rule 4,
      subst bindA_getA, rule 5)
  then show ?thesis by blast
qed

lemma migrate_runs:
  assumes "dd_room s = None"
  shows "\<exists>t. migrate_if_needed F s = (Inr (), t)"
proof (cases "dd_files s LOCAL = None \<and> old_present (dd_files s)")
  case False
  then show ?thesis using migrate_idle[of s F] by auto
next
  case True
  let ?hg = "dd_files s GRANTS_FILE \<noteq> None" and ?hp = "dd_files s PEERS_FILE \<noteq> None"
  let ?s1 = "s\<lparr>dd_files := (dd_files s)(LOCAL_TMP := None)\<rparr>"
  obtain d where 2: "fill_tmp F ?hg ?hp ?s1 = (Inr (), ?s1\<lparr>dd_files := (dd_files ?s1)(LOCAL_TMP \<mapsto> d)\<rparr>)"
    using fill_tmp_runs[of ?s1 ?hg ?hp] assms by auto
  let ?s2 = "s\<lparr>dd_files := (dd_files s)(LOCAL_TMP \<mapsto> d)\<rparr>"
  let ?s3 = "s\<lparr>dd_files := (dd_files s)(LOCAL_TMP := None, LOCAL \<mapsto> d)\<rparr>"
  have 3: "ctxA c (rename_file LOCAL_TMP LOCAL) ?s2 = (Inr (), ?s3)" for c
    using rename_file_runs[of ?s2 LOCAL_TMP d LOCAL] assms by (simp add: ctxA_def)
  obtain t where 4: "delete_old ?hg ?hp ?s3 = (Inr (), t)"
    using delete_old_runs[of ?s3 ?hg ?hp] assms by auto
  have "migrate_if_needed F s = (Inr (), t)"
    unfolding migrate_run[OF True[THEN conjunct1] True[THEN conjunct2]] Let_def
    by (rule thenA_seq, rule remove_stale_runs[OF assms], rule thenA_seq, rule 2, rule thenA_seq)
      (use 3 4 in simp_all)
  then show ?thesis by blast
qed

end

section \<open>The stores on the migrated file\<close>

definition rows_of :: "('db \<Rightarrow> 'k \<rightharpoonup> 'v) \<Rightarrow> 'db option \<Rightarrow> 'k \<rightharpoonup> 'v" where
  "rows_of view src = (case src of None \<Rightarrow> Map.empty | Some f \<Rightarrow> view f)"

definition merged_peers ::
    "('db \<Rightarrow> byte list \<rightharpoonup> string) \<Rightarrow> ('db \<Rightarrow> string \<rightharpoonup> byte list) \<Rightarrow> 'db files \<Rightarrow> byte list \<rightharpoonup> string" where
  "merged_peers pview rview fs =
     backfill (rows_of pview (fs PEERS_FILE)) (ring_members (rows_of rview (fs REGISTRY_FILE)))"

lemma old_rows_all:
  assumes "\<And>f. \<exists>db. rf_open F f = Inr db" "\<And>db. \<exists>tx. rd_begin_read D db = Inr tx"
    and "\<And>tx. \<exists>t. rd_open_table D tx = Inr t"
  shows "old_rows F D view src = rows_of view src"
proof (cases src)
  case None
  then show ?thesis by (simp add: rows_of_def)
next
  case (Some f)
  obtain db tx t where "rf_open F f = Inr db" "rd_begin_read D db = Inr tx" "rd_open_table D tx = Inr t"
    using assms by metis
  with Some show ?thesis by (simp add: old_rows_def rows_of_def)
qed

context store_files_live
begin

lemma old_rows_eq:
  "old_rows F (rf_grants F) gview src = rows_of gview src"
  "old_rows F (rf_peers F) pview src = rows_of pview src"
  "old_rows F (rf_rings F) rview src = rows_of rview src"
  by (rule old_rows_all live_open gl.live_begin_read gl.live_open_table pl.live_begin_read pl.live_open_table
      rl.live_begin_read rl.live_open_table)+

lemma carried_eq:
  "carried F gview pview rview fs db \<longleftrightarrow>
     gview db = rows_of gview (fs GRANTS_FILE) \<and> pview db = merged_peers pview rview fs"
  by (simp add: carried_def old_rows_eq merged_peers_def)

lemma migrate_completes:
  assumes "dd_room s = None" "dd_files s LOCAL = None" "old_present (dd_files s)"
  shows "\<exists>u db. migrate_if_needed F s = (Inr (), u) \<and> dd_files u LOCAL = Some db
    \<and> carried F gview pview rview (dd_files s) db"
proof -
  obtain u where u: "migrate_if_needed F s = (Inr (), u)" using migrate_runs[OF assms(1)] by blast
  from migrate_stops[OF assms(2) u] assms(3) u show ?thesis by auto
qed

lemma migrate_recovers:
  assumes "dd_files s LOCAL = None" "old_present (dd_files s)" "migrate_if_needed F s = (r, t)"
  shows "\<exists>u db. migrate_if_needed F (t\<lparr>dd_room := None\<rparr>) = (Inr (), u) \<and> dd_files u LOCAL = Some db
    \<and> carried F gview pview rview (dd_files s) db"
  using migrate_stops[OF assms(1,3)]
proof
  assume "dd_files t LOCAL = None \<and> only_tmp s t \<and> (is_ok r \<longrightarrow> \<not> old_present (dd_files s))"
  then have t: "dd_files t LOCAL = None" "\<And>n. n \<noteq> LOCAL_TMP \<Longrightarrow> dd_files t n = dd_files s n"
    by (auto simp: only_tmp_def)
  then have "carried F gview pview rview (dd_files t) db = carried F gview pview rview (dd_files s) db" for db
    by (simp add: carried_def)
  moreover have "old_present (dd_files t)" using assms(2) t(2) by (simp add: old_present_def)
  ultimately show ?thesis using migrate_completes[of "t\<lparr>dd_room := None\<rparr>"] t(1) by simp
next
  assume "\<exists>db. dd_files t LOCAL = Some db \<and> carried F gview pview rview (dd_files s) db
        \<and> dd_files t LOCAL_TMP = None \<and> dd_files t REGISTRY_FILE = dd_files s REGISTRY_FILE
        \<and> (is_ok r \<longrightarrow> \<not> old_present (dd_files t))"
  then show ?thesis using migrate_idle[of "t\<lparr>dd_room := None\<rparr>" F] by auto
qed

text \<open>Opening an existing file creates no rows and loses none.\<close>

lemma open_existing:
  assumes "dd_room s = None" "dd_files s LOCAL = Some db"
  shows "\<exists>u db'. thenA (create_db F ''opening local.redb'' LOCAL)
      (thenA (ctxA ''initialising grant store'' (commit_db ''committing grants init'' LOCAL
          (\<lambda>db. bindR (grants_from_db (rf_grants F) db) (\<lambda>db. Inr (Some db)))))
        (ctxA ''initialising peer store'' (commit_db ''committing peers init'' LOCAL
          (\<lambda>db. bindR (peers_from_db (rf_peers F) db) (\<lambda>db. Inr (Some db)))))) s = (Inr (), u)
    \<and> dd_files u LOCAL = Some db' \<and> gview db' = gview db \<and> pview db' = pview db"
proof -
  let ?s = "\<lambda>d. s\<lparr>dd_files := (dd_files s)(LOCAL \<mapsto> d)\<rparr>"
  obtain d1 where d1: "rf_create F (dd_files s LOCAL) = Inr d1" using live_create by blast
  have v1: "gview d1 = gview db" "pview d1 = pview db" using recreated[of db d1] d1 assms(2) by simp_all
  obtain d2 where d2: "grants_from_db (rf_grants F) d1 = Inr d2" "gview d2 = gview d1"
    unfolding grants_from_db_def using gl.with_write_ok[of d1 Inr "gview d1"] by blast
  have v2: "pview d2 = pview d1"
    using d2(1) unfolding grants_from_db_def by (rule g_write_keeps_p) simp
  obtain d3 where d3: "peers_from_db (rf_peers F) d2 = Inr d3" "pview d3 = pview d2"
    unfolding peers_from_db_def using pl.with_write_ok[of d2 Inr "pview d2"] by blast
  have v3: "gview d3 = gview d2"
    using d3(1) unfolding peers_from_db_def by (rule p_write_keeps_g) simp
  have 1: "create_db F ''opening local.redb'' LOCAL s = (Inr (), ?s d1)"
    by (rule create_db_runs[OF assms(1) d1])
  have 2: "commit_db ''committing grants init'' LOCAL
      (\<lambda>db. bindR (grants_from_db (rf_grants F) db) (\<lambda>db. Inr (Some db))) (?s d1) = (Inr (), ?s d2)"
    using commit_db_runs[of "?s d1" LOCAL d1 _ "Some d2"] d2(1) assms(1) by simp
  have 3: "commit_db ''committing peers init'' LOCAL
      (\<lambda>db. bindR (peers_from_db (rf_peers F) db) (\<lambda>db. Inr (Some db))) (?s d2) = (Inr (), ?s d3)"
    using commit_db_runs[of "?s d2" LOCAL d2 _ "Some d3"] d3(1) assms(1) by simp
  show ?thesis
    by (intro exI[of _ "?s d3"] exI[of _ d3] conjI, rule thenA_seq, rule 1, rule thenA_seq,
      rule ctxA_ok, rule 2, rule ctxA_ok, rule 3) (simp_all add: d2 d3 v1 v2 v3)
qed

text \<open>So does opening a store alone; a new file is an empty store.\<close>

lemma grant_store_open_runs:
  assumes "dd_room s = None"
  shows "\<exists>u db. grant_store_open F path s = (Inr (), u) \<and> dd_files u path = Some db
    \<and> gview db = rows_of gview (dd_files s path)"
proof -
  let ?s = "\<lambda>d. s\<lparr>dd_files := (dd_files s)(path \<mapsto> d)\<rparr>"
  obtain d1 where d1: "rf_create F (dd_files s path) = Inr d1" using live_create by blast
  have v: "gview d1 = rows_of gview (dd_files s path)"
    using created recreated d1 by (cases "dd_files s path") (auto simp: rows_of_def)
  obtain d2 where d2: "grants_from_db (rf_grants F) d1 = Inr d2" "gview d2 = gview d1"
    unfolding grants_from_db_def using gl.with_write_ok[of d1 Inr "gview d1"] by blast
  have 1: "create_db F ''opening grants database'' path s = (Inr (), ?s d1)"
    by (rule create_db_runs[OF assms d1])
  have 2: "commit_db ''committing grants init'' path
      (\<lambda>db. bindR (grants_from_db (rf_grants F) db) (\<lambda>db. Inr (Some db))) (?s d1) = (Inr (), ?s d2)"
    using commit_db_runs[of "?s d1" path d1 _ "Some d2"] d2(1) assms by simp
  show ?thesis
    unfolding grant_store_open_def
    by (intro exI[of _ "?s d2"] exI[of _ d2] conjI, rule thenA_seq, rule 1, rule 2) (simp_all add: d2 v)
qed

lemma peer_store_open_runs:
  assumes "dd_room s = None"
  shows "\<exists>u db. peer_store_open F path s = (Inr (), u) \<and> dd_files u path = Some db
    \<and> pview db = rows_of pview (dd_files s path)"
proof -
  let ?s = "\<lambda>d. s\<lparr>dd_files := (dd_files s)(path \<mapsto> d)\<rparr>"
  obtain d1 where d1: "rf_create F (dd_files s path) = Inr d1" using live_create by blast
  have v: "pview d1 = rows_of pview (dd_files s path)"
    using created recreated d1 by (cases "dd_files s path") (auto simp: rows_of_def)
  obtain d2 where d2: "peers_from_db (rf_peers F) d1 = Inr d2" "pview d2 = pview d1"
    unfolding peers_from_db_def using pl.with_write_ok[of d1 Inr "pview d1"] by blast
  have 1: "create_db F ''opening peers database'' path s = (Inr (), ?s d1)"
    by (rule create_db_runs[OF assms d1])
  have 2: "commit_db ''committing peers init'' path
      (\<lambda>db. bindR (peers_from_db (rf_peers F) db) (\<lambda>db. Inr (Some db))) (?s d1) = (Inr (), ?s d2)"
    using commit_db_runs[of "?s d1" path d1 _ "Some d2"] d2(1) assms by simp
  show ?thesis
    unfolding peer_store_open_def
    by (intro exI[of _ "?s d2"] exI[of _ d2] conjI, rule thenA_seq, rule 1, rule 2) (simp_all add: d2 v)
qed

end

end
