(* ===== verification/Migration.thy ===== *)
theory Migration
  imports LocalStore
begin

text \<open>
  What the migration of \<open>LocalStore\<close> means for the stores that are opened on the result,
  the reference instance of the file contract, and the properties.
\<close>

section \<open>The stores behind the contract\<close>

text \<open>Files that meet the contract give both stores their database.\<close>

locale local_stores = store_files_live F gview gt pview pt rview rt + iroh_ids I
  for F :: "('db, 'tx) redb_files" and gview gt pview pt rview rt and I :: iroh

sublocale local_stores \<subseteq> grants: grant_store "rf_grants F" gview gt I ..

sublocale local_stores \<subseteq> peers: peer_store "rf_peers F" pview pt I ..

context local_stores
begin

lemma open_serves:
  assumes "dd_room s = None" "dd_files s LOCAL = None" "old_present (dd_files s)"
  shows "\<exists>u db. local_store_open F s = (Inr (), u) \<and> dd_files u LOCAL = Some db
    \<and> gview db = rows_of gview (dd_files s GRANTS_FILE) \<and> pview db = merged_peers pview rview (dd_files s)"
proof -
  from migrate_completes[OF assms] obtain u db where m: "migrate_if_needed F s = (Inr (), u)"
    "dd_files u LOCAL = Some db" "carried F gview pview rview (dd_files s) db" by blast
  have room: "dd_room u = None" using migrate_room[of s F] m(1) assms(1) by simp
  from open_existing[OF room m(2)] obtain v db' where
    o: "thenA (create_db F ''opening local.redb'' LOCAL)
      (thenA (ctxA ''initialising grant store'' (commit_db ''committing grants init'' LOCAL
          (\<lambda>db. bindR (grants_from_db (rf_grants F) db) (\<lambda>db. Inr (Some db)))))
        (ctxA ''initialising peer store'' (commit_db ''committing peers init'' LOCAL
          (\<lambda>db. bindR (peers_from_db (rf_peers F) db) (\<lambda>db. Inr (Some db)))))) u = (Inr (), v)"
    "dd_files v LOCAL = Some db'" "gview db' = gview db" "pview db' = pview db" by blast
  have "local_store_open F s = (Inr (), v)"
    unfolding local_store_open_def by (rule thenA_seq, rule ctxA_ok, rule m(1), rule o(1))
  with o m(3) show ?thesis by (auto simp: carried_eq)
qed

lemma served_answers:
  "grants_has_grant (rf_grants F) pr p db = Inr (gview db (grant_key pr p) \<noteq> None)"
  "peers_get (rf_peers F) p db = Inr (map_option stored_nick (pview db (peer_key p)))"
  by (simp_all add: grants.has_grant peers.get_nick grants_abs_def peers_abs_def)

end

section \<open>A reference instance\<close>

text \<open>Three association lists per file; with \<open>damaged\<close>, the grants table of a file can no
  longer be opened for reading.\<close>

record mem_file =
  mf_grants :: "(byte list, unit) mem_db"
  mf_peers :: "(byte list, string) mem_db"
  mf_rings :: "(string, byte list) mem_db"

definition mem_table ::
    "bool \<Rightarrow> (mem_file \<Rightarrow> ('k, 'v) mem_db) \<Rightarrow> ((('k, 'v) mem_db \<Rightarrow> ('k, 'v) mem_db) \<Rightarrow> mem_file \<Rightarrow> mem_file)
     \<Rightarrow> (mem_file, bool \<times> mem_file, 'k, 'v) redb" where
  "mem_table damaged rows upd = \<lparr>
     rd_begin_read = (\<lambda>d. Inr (True, d)),
     rd_begin_write = (\<lambda>d. Inr (False, d)),
     rd_open_table = (\<lambda>t. if damaged \<and> fst t then Inl ''table is corrupted'' else Inr t),
     rd_get = (\<lambda>t k. Inr (map_of (rows (snd t)) k)),
     rd_insert = (\<lambda>t k v. Inr (fst t, upd (AList.update k v) (snd t))),
     rd_remove = (\<lambda>t k. Inr ((fst t, upd (AList.delete k) (snd t)), map_of (rows (snd t)) k)),
     rd_iter = (\<lambda>t. Inr (map Inr (AList.clearjunk (rows (snd t))))),
     rd_commit = (\<lambda>d t. Inr (snd t)) \<rparr>"

definition empty_file :: mem_file where
  "empty_file = \<lparr>mf_grants = [], mf_peers = [], mf_rings = []\<rparr>"

definition mem_files :: "bool \<Rightarrow> (mem_file, bool \<times> mem_file) redb_files" where
  "mem_files damaged = \<lparr>
     rf_create = (\<lambda>f. Inr (case f of None \<Rightarrow> empty_file | Some d \<Rightarrow> d)),
     rf_open = Inr,
     rf_grants = mem_table damaged mf_grants mf_grants_update,
     rf_peers = mem_table False mf_peers mf_peers_update,
     rf_rings = mem_table False mf_rings mf_rings_update \<rparr>"

abbreviation grants_of :: "mem_file \<Rightarrow> byte list \<rightharpoonup> unit" where "grants_of d \<equiv> map_of (mf_grants d)"
abbreviation peers_of :: "mem_file \<Rightarrow> byte list \<rightharpoonup> string" where "peers_of d \<equiv> map_of (mf_peers d)"
abbreviation rings_of :: "mem_file \<Rightarrow> string \<rightharpoonup> byte list" where "rings_of d \<equiv> map_of (mf_rings d)"

lemma mem_table_laws:
  assumes "\<And>g d. rows (upd g d) = g (rows d)"
  shows "redb_table (mem_table damaged rows upd) (\<lambda>d. map_of (rows d)) (\<lambda>t. map_of (rows (snd t)))"
proof
  fix t kvs
  assume "rd_iter (mem_table damaged rows upd) t = Inr (map Inr kvs)"
  then have "kvs = AList.clearjunk (rows (snd t))" by (simp add: mem_table_def map_Inr_eq)
  then show "distinct (map fst kvs) \<and> map_of kvs = map_of (rows (snd t))"
    by (simp add: map_of_clearjunk distinct_clearjunk)
qed (auto simp: mem_table_def assms update_conv' map_of_delete split: if_splits)

lemma mem_table_live:
  assumes "\<And>g d. rows (upd g d) = g (rows d)"
  shows "redb_live (mem_table False rows upd) (\<lambda>d. map_of (rows d)) (\<lambda>t. map_of (rows (snd t)))"
  using mem_table_laws[where rows = rows and upd = upd and damaged = False, OF assms] by (auto simp: redb_live_def redb_live_axioms_def mem_table_def)

interpretation mem_files: store_files "mem_files damaged" grants_of "\<lambda>t. grants_of (snd t)"
    peers_of "\<lambda>t. peers_of (snd t)" rings_of "\<lambda>t. rings_of (snd t)"
proof -
  have g: "redb_table (rf_grants (mem_files damaged)) grants_of (\<lambda>t. grants_of (snd t))"
    and p: "redb_table (rf_peers (mem_files damaged)) peers_of (\<lambda>t. peers_of (snd t))"
    and r: "redb_table (rf_rings (mem_files damaged)) rings_of (\<lambda>t. rings_of (snd t))"
    by (simp_all add: mem_files_def mem_table_laws)
  show "store_files (mem_files damaged) grants_of (\<lambda>t. grants_of (snd t))
      peers_of (\<lambda>t. peers_of (snd t)) rings_of (\<lambda>t. rings_of (snd t))"
    using g p r unfolding store_files_def store_files_axioms_def peers_table_def
    by (auto simp: mem_files_def mem_table_def empty_file_def split: if_splits)
qed

interpretation mem_live: local_stores "mem_files False" grants_of "\<lambda>t. grants_of (snd t)"
    peers_of "\<lambda>t. peers_of (snd t)" rings_of "\<lambda>t. rings_of (snd t)" hex_iroh
proof -
  have "redb_live (rf_grants (mem_files False)) grants_of (\<lambda>t. grants_of (snd t))"
    "redb_live (rf_peers (mem_files False)) peers_of (\<lambda>t. peers_of (snd t))"
    "redb_live (rf_rings (mem_files False)) rings_of (\<lambda>t. rings_of (snd t))"
    by (simp_all add: mem_files_def mem_table_live)
  then show "local_stores (mem_files False) grants_of (\<lambda>t. grants_of (snd t))
      peers_of (\<lambda>t. peers_of (snd t)) rings_of (\<lambda>t. rings_of (snd t)) hex_iroh"
    using mem_files.store_files_axioms[of False] hex.iroh_ids_axioms
    unfolding local_stores_def store_files_live_def store_files_live_axioms_def
    by (auto simp: mem_files_def)
qed

definition sample_dir :: "nat option \<Rightarrow> mem_file data_dir" where
  "sample_dir room = \<lparr>dd_files = [
     GRANTS_FILE \<mapsto> empty_file\<lparr>mf_grants := [(grant_key BlobList (EndpointId 7), ())]\<rparr>,
     PEERS_FILE \<mapsto> empty_file\<lparr>mf_peers := [(peer_key (EndpointId 7), ''alice'')]\<rparr>,
     REGISTRY_FILE \<mapsto> empty_file\<lparr>mf_rings := [(''friends'', id_bytes (EndpointId 7) @ id_bytes (EndpointId 9))]\<rparr>],
     dd_room = room\<rparr>"

lemma sample_dir_files:
  "dd_files (sample_dir room) LOCAL = None" "old_present (dd_files (sample_dir room))"
  "rows_of grants_of (dd_files (sample_dir room) GRANTS_FILE) = [grant_key BlobList (EndpointId 7) \<mapsto> ()]"
  "rows_of peers_of (dd_files (sample_dir room) PEERS_FILE) = [peer_key (EndpointId 7) \<mapsto> ''alice'']"
  "dd_room (sample_dir room) = room"
  by (simp_all add: sample_dir_def old_present_def rows_of_def)

lemma chunks32_ids: "chunks32 (id_bytes p @ id_bytes q) = [id_bytes p, id_bytes q]"
  by (simp add: chunks32.simps)

lemma sample_members:
  "ring_members (rows_of rings_of (dd_files (sample_dir room) REGISTRY_FILE)) = {peer_key (EndpointId 7), peer_key (EndpointId 9)}"
  by (auto simp: ring_members_def sample_dir_def rows_of_def chunks32_ids peer_key_def)

lemma sample_merged:
  "merged_peers peers_of rings_of (dd_files (sample_dir room))
   = [peer_key (EndpointId 7) \<mapsto> ''alice'', peer_key (EndpointId 9) \<mapsto> []]"
  unfolding merged_peers_def sample_dir_files sample_members
  by (auto simp: backfill_def fun_eq_iff)

lemma damaged_run: "\<exists>t. migrate_if_needed (mem_files True) (sample_dir None) = (Inr (), t)"
  by (simp add: migrate_if_needed_def remove_stale_def delete_old_def fill_tmp_def file_exists_def remove_file_def rename_file_def create_db_def
      commit_db_def init_tables_def copy_grants_def copy_peers_def copy_ring_peers_def open_source_def
      with_write_def bindA_def thenA_def ctxA_def queryA_def act_apply mutate_def mem_files_def mem_table_def
      sample_dir_def empty_file_def chunks32_ids)

section \<open>Properties\<close>

text \<open>
  C18: Wherever the migration stops (a failing disk, a failing database, a killed process),
  nothing is lost: either every file but the temporary one is as it was, or \<open>local.redb\<close>
  is in place and holds every row that could be read from the old files and the members
  of the named rings; and it only reports success when the old files are gone.
\<close>
theorem migration_never_loses:
  assumes "store_files F gview gt pview pt rview rt"
    and "dd_files s LOCAL = None" "migrate_if_needed F s = (r, t)"
  shows "(dd_files t LOCAL = None \<and> (\<forall>n. n \<noteq> LOCAL_TMP \<longrightarrow> dd_files t n = dd_files s n)
          \<and> (is_ok r \<longrightarrow> \<not> old_present (dd_files s)))
    \<or> (\<exists>db. dd_files t LOCAL = Some db \<and> carried F gview pview rview (dd_files s) db
        \<and> dd_files t REGISTRY_FILE = dd_files s REGISTRY_FILE \<and> (is_ok r \<longrightarrow> \<not> old_present (dd_files t)))"
  using store_files.migrate_stops[OF assms] unfolding only_tmp_def by blast

lemma migration_never_loses_witness:
  "\<exists>r t. migrate_if_needed (mem_files True) (sample_dir (Some 3)) = (r, t)
    \<and> (dd_files t LOCAL = None \<longrightarrow> dd_files t GRANTS_FILE = dd_files (sample_dir (Some 3)) GRANTS_FILE)"
proof -
  obtain r t where m: "migrate_if_needed (mem_files True) (sample_dir (Some 3)) = (r, t)"
    by (cases "migrate_if_needed (mem_files True) (sample_dir (Some 3))")
  from migration_never_loses[OF mem_files.store_files_axioms sample_dir_files(1) m] m show ?thesis by auto
qed

text \<open>
  C17: Crash safety: on a working database, whatever stopped the first run, the next run
  ends with a \<open>local.redb\<close> that holds exactly the old grants, the old peers with their
  nicknames, and the missing members of the named rings without one.
\<close>
theorem migration_recovers:
  assumes "store_files_live F gview gt pview pt rview rt"
    and "dd_files s LOCAL = None" "old_present (dd_files s)" "migrate_if_needed F s = (r, t)"
  shows "\<exists>u db. migrate_if_needed F (t\<lparr>dd_room := None\<rparr>) = (Inr (), u) \<and> dd_files u LOCAL = Some db
    \<and> gview db = rows_of gview (dd_files s GRANTS_FILE) \<and> pview db = merged_peers pview rview (dd_files s)"
  using store_files_live.migrate_recovers[OF assms] unfolding store_files_live.carried_eq[OF assms(1)] .

lemma migration_recovers_witness:
  "\<exists>u db. migrate_if_needed (mem_files False)
      ((snd (migrate_if_needed (mem_files False) (sample_dir (Some 4))))\<lparr>dd_room := None\<rparr>) = (Inr (), u)
    \<and> dd_files u LOCAL = Some db \<and> grants_of db = [grant_key BlobList (EndpointId 7) \<mapsto> ()]
    \<and> peers_of db = [peer_key (EndpointId 7) \<mapsto> ''alice'', peer_key (EndpointId 9) \<mapsto> []]"
proof -
  obtain r t where m: "migrate_if_needed (mem_files False) (sample_dir (Some 4)) = (r, t)"
    by (cases "migrate_if_needed (mem_files False) (sample_dir (Some 4))")
  from migration_recovers[OF mem_live.store_files_live_axioms sample_dir_files(1,2) m]
  show ?thesis unfolding m sample_merged sample_dir_files by simp
qed

text \<open>
  Opening the local store over the old files always succeeds on a working disk and
  gives stores that answer as the old ones did: the same grants, the same nicknames, and
  the members of the named rings known.
\<close>
theorem open_serves_old_data:
  assumes "local_stores F gview gt pview pt rview rt I"
    and "dd_room s = None" "dd_files s LOCAL = None" "old_present (dd_files s)"
  shows "\<exists>u db. local_store_open F s = (Inr (), u) \<and> dd_files u LOCAL = Some db
    \<and> (\<forall>pr p. grants_has_grant (rf_grants F) pr p db
          = Inr (rows_of gview (dd_files s GRANTS_FILE) (grant_key pr p) \<noteq> None))
    \<and> (\<forall>p. peers_get (rf_peers F) p db
          = Inr (map_option stored_nick (merged_peers pview rview (dd_files s) (peer_key p))))"
proof -
  from local_stores.open_serves[OF assms] obtain u db where o: "local_store_open F s = (Inr (), u)"
    "dd_files u LOCAL = Some db" "gview db = rows_of gview (dd_files s GRANTS_FILE)"
    "pview db = merged_peers pview rview (dd_files s)" by blast
  then show ?thesis
    using local_stores.served_answers[OF assms(1)] by auto
qed

lemma open_serves_old_data_witness:
  "\<exists>u db. local_store_open (mem_files False) (sample_dir None) = (Inr (), u) \<and> dd_files u LOCAL = Some db
    \<and> grants_has_grant (rf_grants (mem_files False)) BlobList (EndpointId 7) db = Inr True
    \<and> peers_get (rf_peers (mem_files False)) (EndpointId 7) db = Inr (Some (Some ''alice''))
    \<and> peers_get (rf_peers (mem_files False)) (EndpointId 9) db = Inr (Some None)"
proof -
  from open_serves_old_data[OF mem_live.local_stores_axioms sample_dir_files(5,1,2)] show ?thesis
    unfolding sample_merged sample_dir_files by auto
qed



end
