(* ===== verification/Sharing.thy ===== *)
theory Sharing
  imports Histories Migration
begin

text \<open>
  What the parts achieve together: a blob that is imported into a ring appears in the
  catalogs of the ring's members, a blob that is removed appears in nobody's, and the
  migration of the old stores gives an address book that fits the registry, whatever is
  requested afterwards.
\<close>

section \<open>A catalog served by the node\<close>

text \<open>The connection of a peer to the catalog of a node in the state \<open>s\<close>.\<close>

definition serving ::
    "('r, 'g, 'gt, 'p, 'pt, 's) env \<Rightarrow> ('r, 'g, 'p, 's) session \<Rightarrow> endpoint_id \<Rightarrow> dial" where
  "serving E s p = (\<lambda>_. Inr (Inr (\<lambda>request. Inr (ss_sent (snd (catalog_accept (en_registry E) (en_grants E)
     (en_codec E) (en_store E) (en_addr E) (nd_registry s) (nd_grants s) (nd_disk s) p (Inr request) (new_stream None)))))))"

lemma relay_only_id [simp]: "ea_id (relay_only_addr a) = ea_id a"
  by (simp add: relay_only_addr_def foldl_with_relay_url addr_new_def)

lemma attached_read_allowed:
  assumes "attached_read as h ns as'" "n \<in> ns" "in_ring rs n p"
  shows "allowed rs as' p h Read"
proof -
  from assms(1,2) have "Read \<in> perms_of (as' h n)" by (auto simp: attached_read_def perms_of_def)
  with assms(3) show ?thesis by (auto simp: allowed_iff)
qed

context blob_store
begin

lemma import_path_tags:
  assumes "import_path S Os I path s = (Inr (h, f), s')"
  shows "\<exists>n. tags s' n = Some (h, f)"
proof (cases "os_is_dir Os s path")
  case True
  with assms have "import_directory S Os I path s = (Inr (h, f), s')" by (simp add: import_path_def)
  from import_directory_tags[OF this] show ?thesis by auto
next
  case False
  with assms have "import_file S Os I path s = (Inr (h, f), s')" by (simp add: import_path_def)
  from import_file_tags[OF this] show ?thesis by auto
qed

end

context node_laws
begin

lemma serving_lists:
  assumes "ticket_laws (en_codec E)" "(BlobList, p) \<in> grants_abs gview (nd_grants s)"
    and "tag_infos (en_store E) (nd_disk s) = Inr infos"
    and "\<And>i. i \<in> set infos \<Longrightarrow> allowed (rings (nd_registry s)) (attached (nd_registry s)) p (hash_word (ti_hash i)) Read \<Longrightarrow>
      servable (en_codec E) (relay_only_addr (en_addr E)) i"
  shows "catalog_connect (en_codec E) (serving E s p) peer_addr
    = Inr (map (catalog_view (en_store E) (relay_only_addr (en_addr E)) (nd_disk s))
        (filter (\<lambda>i. allowed (rings (nd_registry s)) (attached (nd_registry s)) p (hash_word (ti_hash i)) Read) infos))"
  by (rule catalog_listing[OF reg.live_registry_axioms gs.grant_store_axioms assms])
    (simp_all add: serving_def)

lemma attach_rings_frame:
  "forA names (\<lambda>n. thenA (attach_ring E h n) (send (f n))) s = (Inr (), s') \<Longrightarrow>
     nd_grants s' = nd_grants s \<and> nd_peers s' = nd_peers s \<and> nd_disk s' = nd_disk s"
proof (induction names arbitrary: s)
  case (Cons n names)
  then obtain r where "forA names (\<lambda>n. thenA (attach_ring E h n) (send (f n)))
      (s\<lparr>nd_registry := r, sn_out := sn_out s @ [f n]\<rparr>) = (Inr (), s')"
    by (auto simp: attach_ring_def registryU_def act_Inr send_Inr bindR_Inr)
  from Cons.IH[OF this] show ?case by simp
qed (simp add: act_apply)

text \<open>The parts of a successful import.\<close>

lemma handle_import_ok:
  assumes "handle_import E q path names open_ring s = (Inr (), s')"
  shows "\<exists>h f d. import_path (en_store E) (en_os E) (en_iroh E) path (nd_disk s) = (Inr (h, f), d)
    \<and> nd_disk s' = d \<and> nd_grants s' = nd_grants s \<and> rings (nd_registry s') = rings (nd_registry s)
    \<and> attached_read (attached (nd_registry s)) (hash_word h)
        (set (if open_ring then [OPEN_RING_NAME] else names)) (attached (nd_registry s'))"
proof -
  let ?names = "if open_ring then [OPEN_RING_NAME] else names"
  let ?msg = "\<lambda>n. event_line q (if n = OPEN_RING_NAME then ''Attached to open ring (publicly accessible)''
      else ''Attached to ring '' @ quoted n)"
  from assms obtain h f d s1 where imp: "import_path (en_store E) (en_os E) (en_iroh E) path (nd_disk s) = (Inr (h, f), d)"
    and body: "(if ?names = [] then
          bindA (registryQ (\<lambda>r. rg_list_resource_rings (en_registry E) r (hash_word h))) (\<lambda>existing.
          if existing = [] then send_lines q (import_warning (en_iroh E) h)
          else thenA (send (event_line q ''Already attached to:''))
            (forA existing (\<lambda>(r, _). send (event_line q (format_ring r)))))
        else forA ?names (\<lambda>n. thenA (attach_ring E h n) (send (?msg n)))) (s\<lparr>nd_disk := d\<rparr>) = (Inr (), s1)"
    and s': "nd_registry s' = nd_registry s1" "nd_grants s' = nd_grants s1" "nd_disk s' = nd_disk s1"
    by (auto simp: handle_import_def import_report_def diskA_Inr act_Inr send_Inr Let_def)
  show ?thesis
  proof (cases "?names = []")
    case True
    from body[unfolded if_P[OF True]] have "nd_registry s1 = nd_registry s \<and> nd_grants s1 = nd_grants s \<and> nd_disk s1 = d"
      by (auto simp: act_Inr send_Inr registryQ_run send_lines_run forA_send case_prod_unfold split: if_splits)
    with imp s' True show ?thesis by (intro exI[of _ h] exI[of _ f] exI[of _ d]) (simp add: attached_read_def)
  next
    case False
    note loop = body[unfolded if_not_P[OF False]]
    from attach_rings_ok[OF loop] attach_rings_frame[OF loop] imp s' show ?thesis
      by (intro exI[of _ h] exI[of _ f] exI[of _ d]) simp
  qed
qed

text \<open>The part of a successful removal that concerns the registry.\<close>

lemma handle_blob_remove_ok:
  assumes "handle_blob_remove E q target s = (Inr (), s')"
  shows "\<exists>h s1. resolve_target E target s = (Inr h, s1) \<and> nd_grants s' = nd_grants s1
    \<and> attached (nd_registry s') = (attached (nd_registry s1))(hash_word h := Map.empty)
    \<and> rings (nd_registry s') = rings (nd_registry s1)"
proof -
  from assms obtain h s1 r d where "resolve_target E target s = (Inr h, s1)"
    and r: "rg_remove_ring_from_resource (en_registry E) (nd_registry s1) (hash_word h) = Inr r"
    and "nd_registry s' = r" "nd_grants s' = nd_grants s1" "nd_disk s' = d"
    by (auto simp: handle_blob_remove_def registryU_def diskA_Inr act_Inr send_Inr bindR_Inr)
  with reg.remove_ring_from_resource[OF r] show ?thesis by auto
qed

lemma imported_listed:
  assumes "blob_store (en_store E) tags" "ticket_laws (en_codec E)"
    and import: "handle_import E q path names open_ring s = (Inr (), s')"
    and ring: "n \<in> set (if open_ring then [OPEN_RING_NAME] else names)" "in_ring (rings (nd_registry s)) n p"
    and granted: "(BlobList, p) \<in> grants_abs gview (nd_grants s)"
    and infos: "tag_infos (en_store E) (nd_disk s') = Inr infos"
    and servable: "\<And>i. i \<in> set infos \<Longrightarrow> servable (en_codec E) (relay_only_addr (en_addr E)) i"
  shows "\<exists>h f d entries. import_path (en_store E) (en_os E) (en_iroh E) path (nd_disk s) = (Inr (h, f), d)
    \<and> catalog_connect (en_codec E) (serving E s' p) peer_addr = Inr entries
    \<and> (\<exists>e \<in> set entries. ce_hash e = h \<and> ce_format e = f \<and> st_hash (ce_ticket e) = h
        \<and> ticket_peer_id (ce_ticket e) = ea_id (en_addr E))"
proof -
  from handle_import_ok[OF import] obtain h f d where
    imp: "import_path (en_store E) (en_os E) (en_iroh E) path (nd_disk s) = (Inr (h, f), d)"
    and s': "nd_disk s' = d" "nd_grants s' = nd_grants s" "rings (nd_registry s') = rings (nd_registry s)"
    and att: "attached_read (attached (nd_registry s)) (hash_word h)
      (set (if open_ring then [OPEN_RING_NAME] else names)) (attached (nd_registry s'))" by blast
  from blob_store.import_path_tags[OF assms(1) imp] blob_store.tag_map_iff[OF assms(1) infos] s'(1)
  obtain i where i: "i \<in> set infos" "ti_hash i = h" "ti_format i = f" by auto
  have "allowed (rings (nd_registry s')) (attached (nd_registry s')) p (hash_word h) Read"
    using attached_read_allowed[OF att ring(1)] ring(2) s'(3) by simp
  then have "catalog_view (en_store E) (relay_only_addr (en_addr E)) (nd_disk s') i
    \<in> set (map (catalog_view (en_store E) (relay_only_addr (en_addr E)) (nd_disk s'))
        (filter (\<lambda>i. allowed (rings (nd_registry s')) (attached (nd_registry s')) p (hash_word (ti_hash i)) Read) infos))"
    using i by simp
  moreover have "catalog_connect (en_codec E) (serving E s' p) peer_addr
    = Inr (map (catalog_view (en_store E) (relay_only_addr (en_addr E)) (nd_disk s'))
        (filter (\<lambda>i. allowed (rings (nd_registry s')) (attached (nd_registry s')) p (hash_word (ti_hash i)) Read) infos))"
    by (rule serving_lists[OF assms(2) _ infos servable]) (simp_all add: s'(2) granted)
  moreover have "ce_hash (catalog_view (en_store E) (relay_only_addr (en_addr E)) (nd_disk s') i) = h"
    "ce_format (catalog_view (en_store E) (relay_only_addr (en_addr E)) (nd_disk s') i) = f"
    "st_hash (ce_ticket (catalog_view (en_store E) (relay_only_addr (en_addr E)) (nd_disk s') i)) = h"
    "ticket_peer_id (ce_ticket (catalog_view (en_store E) (relay_only_addr (en_addr E)) (nd_disk s') i)) = ea_id (en_addr E)"
    using i by (simp_all add: catalog_view_def entry_ticket_def ticket_from_format_def ticket_peer_id_def)
  ultimately show ?thesis using imp by blast
qed

lemma removed_unlisted:
  assumes "ticket_laws (en_codec E)" and remove: "handle_blob_remove E q target s = (Inr (), s')"
    and granted: "(BlobList, p) \<in> grants_abs gview (nd_grants s')"
    and infos: "tag_infos (en_store E) (nd_disk s') = Inr infos"
    and servable: "\<And>i. i \<in> set infos \<Longrightarrow> servable (en_codec E) (relay_only_addr (en_addr E)) i"
  shows "\<exists>h entries. fst (resolve_target E target s) = Inr h
    \<and> (\<forall>peer perm. \<not> allowed (rings (nd_registry s')) (attached (nd_registry s')) peer (hash_word h) perm)
    \<and> catalog_connect (en_codec E) (serving E s' p) peer_addr = Inr entries \<and> h \<notin> ce_hash ` set entries"
proof -
  from handle_blob_remove_ok[OF remove] obtain h s1 where h: "fst (resolve_target E target s) = Inr h"
    and att: "attached (nd_registry s') (hash_word h) = Map.empty" by auto
  then have none: "\<forall>peer perm. \<not> allowed (rings (nd_registry s')) (attached (nd_registry s')) peer (hash_word h) perm"
    by (simp add: allowed_def)
  have "h \<notin> ce_hash ` set (map (catalog_view (en_store E) (relay_only_addr (en_addr E)) (nd_disk s'))
      (filter (\<lambda>i. allowed (rings (nd_registry s')) (attached (nd_registry s')) p (hash_word (ti_hash i)) Read) infos))"
    using none by (auto simp: catalog_view_def)
  with h none serving_lists[OF assms(1) granted infos servable] show ?thesis by blast
qed

end

section \<open>From the upgrade to the running daemon\<close>

lemma merged_known:
  assumes "pview db = merged_peers pview rview files" "peer_key p \<in> ring_members (rows_of rview (files REGISTRY_FILE))"
  shows "peers_abs pview db p \<noteq> None"
  using assms by (auto simp: peers_abs_None[symmetric] merged_peers_def backfill_def split: option.splits)

section \<open>The sample\<close>

lemma servable_ascii:
  assumes "ascii n" "length n \<le> 1000"
  shows "servable ref_codec (relay_only_addr sample_addr) \<lparr>ti_name = str_bytes n, ti_hash = h, ti_format = f\<rparr>"
proof -
  let ?i = "\<lparr>ti_name = str_bytes n, ti_hash = h, ti_format = f\<rparr>"
  obtain u where u: "ticket_to_uri ref_codec (entry_ticket (relay_only_addr sample_addr) ?i) = Inr u"
    using ref_to_uri by blast
  have "length u \<le> 600 + 4 * length n"
    by (rule length_ref_uri[OF u]) (simp_all add: entry_ticket_def ticket_from_format_def
        sample_addr_def addr_new_def ascii_lossy[OF assms(1)] relay_only_addr_def)
  with u assms(2) show ?thesis by (simp add: servable_def ascii_lossy[OF assms(1)])
qed

definition shared_disk :: mem_disk where
  "shared_disk = sample_disk\<lparr>md_tags := [(str_bytes ''a.txt'', Hash 3, Raw), (str_bytes ''b.txt'', Hash 2, Raw)],
     md_blobs := AList.update (Hash 3) 1 (md_blobs sample_disk)\<rparr>"

lemma shared_infos: "tag_infos mem_store shared_disk
  = Inr [\<lparr>ti_name = str_bytes ''a.txt'', ti_hash = Hash 3, ti_format = Raw\<rparr>,
         \<lparr>ti_name = str_bytes ''b.txt'', ti_hash = Hash 2, ti_format = Raw\<rparr>]"
  by (simp add: shared_disk_def)

lemma sample_import_path: "import_path mem_store mem_os hex_iroh ''/x/a.txt'' sample_disk = (Inr (Hash 3, Raw), shared_disk)"
proof -
  have n: "leaf_name ''/x/a.txt'' = Some ''a.txt''" by code_simp
  have abs: "os_absolute mem_os sample_disk ''/x/a.txt'' = Inr ''/x/a.txt''"
    by (simp add: mem_os_def path_join_def)
  have d: "\<not> os_is_dir mem_os sample_disk ''/x/a.txt''" by (simp add: mem_os_def sample_disk_def)
  show ?thesis
    by (simp add: import_path_def d import_file_def abs n tag_key_def bindA_def queryA_def thenA_def updA_def
        stepA_def ret_def) (simp add: shared_disk_def sample_disk_def mem_store_def bindA_def updA_def ret_def)
qed

lemma sample_import:
  "\<exists>s'. handle_import mem_env 0 ''/x/a.txt'' [''friends''] False sample_session = (Inr (), s') \<and> nd_disk s' = shared_disk"
proof -
  have d: "diskA (import_path (en_store mem_env) (en_os mem_env) (en_iroh mem_env) ''/x/a.txt'') sample_session
      = (Inr (Hash 3, Raw), sample_session\<lparr>nd_disk := shared_disk\<rparr>)"
    using sample_import_path by (simp add: diskA_def sample_session_def)
  obtain u where u: "ticket_to_uri ref_codec (make_ticket sample_addr (Hash 3) Raw (leaf_name ''/x/a.txt'')) = Inr u"
    using ref_to_uri by blast
  show ?thesis
    unfolding handle_import_def import_report_def bindA_run(1)[where m = "diskA (import_path (en_store mem_env) (en_os mem_env) (en_iroh mem_env) ''/x/a.txt'')"
      and s = sample_session, OF d] prod.case Let_def
    by (simp add: attach_ring_def registryU_run act_simps mem_registry_def sample_session_def sample_reg_def
        OPEN_RING_NAME_def u bindA_def)
qed

lemma sample_remove:
  "\<exists>s'. handle_blob_remove mem_env 0 sample_target sample_session = (Inr (), s')
     \<and> nd_disk s' = sample_disk\<lparr>md_tags := [(str_bytes ''b.txt'', Hash 2, Raw)]\<rparr> \<and> nd_grants s' = sample_grants"
proof -
  have r: "resolve_target mem_env sample_target sample_session = (Inr (Hash 1), sample_session)"
    by (simp add: sample_resolve sample_session_def)
  have d: "delete_blob mem_store hex_iroh (Hash 1) sample_disk
      = (Inr (), sample_disk\<lparr>md_tags := [(str_bytes ''b.txt'', Hash 2, Raw)]\<rparr>)"
    by (simp add: delete_blob_def sample_disk_def bindA_def queryA_def thenA_def updA_def ret_def)
  show ?thesis
    unfolding handle_blob_remove_def bindA_run(1)[where m = "resolve_target mem_env sample_target", OF r]
    by (simp add: registryU_run diskA_run act_simps mem_registry_def sample_session_def d)
qed

text \<open>The upgraded node: the stores of the reference files, the registry of the old ones.\<close>

definition upgraded_env :: "(mem_reg, mem_file, bool \<times> mem_file, mem_file, bool \<times> mem_file, mem_disk) env" where
  "upgraded_env = \<lparr>en_registry = mem_registry, en_grants = rf_grants (mem_files False),
     en_peers = rf_peers (mem_files False), en_iroh = hex_iroh, en_codec = ref_codec, en_store = mem_store,
     en_os = mem_os, en_addr = sample_addr, en_now = 0, en_dial = sample_dial,
     en_connect = (\<lambda>_. Inr mem_transfer), en_qr = (\<lambda>s. Inr [s])\<rparr>"

interpretation upgraded: node_laws upgraded_env mem_rings mem_attached
    grants_of "\<lambda>t. grants_of (snd t)" peers_of "\<lambda>t. peers_of (snd t)"
  unfolding node_laws_def
  using mem_reg.live_registry_axioms mem_live.grants.grant_store_axioms mem_live.peers.peer_store_axioms
  by (simp add: upgraded_env_def)

definition old_registry :: mem_reg where
  "old_registry = \<lparr>mr_rings = [(''friends'', [(EndpointId 7, None), (EndpointId 9, None)])], mr_attached = []\<rparr>"

section \<open>Properties\<close>

text \<open>
  C9: Sharing works end to end: after a successful import into a ring (or, with \<open>--open\<close>,
  the open ring), a peer that is in the ring and holds the catalog privilege finds the
  imported blob in the catalog it fetches from the node, under its hash and format and
  with a ticket for it that names the node.
\<close>
theorem imported_blob_listed:
  assumes "node_laws E rings attached gview gtview pview ptview"
    and "blob_store (en_store E) tags" "ticket_laws (en_codec E)"
    and "handle_import E q path names open_ring s = (Inr (), s')"
    and "n \<in> set (if open_ring then [OPEN_RING_NAME] else names)" "in_ring (rings (nd_registry s)) n p"
    and "(BlobList, p) \<in> grants_abs gview (nd_grants s)"
    and "tag_infos (en_store E) (nd_disk s') = Inr infos"
    and "\<And>i. i \<in> set infos \<Longrightarrow> servable (en_codec E) (relay_only_addr (en_addr E)) i"
  shows "\<exists>h f d entries. import_path (en_store E) (en_os E) (en_iroh E) path (nd_disk s) = (Inr (h, f), d)
    \<and> catalog_connect (en_codec E) (serving E s' p) peer_addr = Inr entries
    \<and> (\<exists>e \<in> set entries. ce_hash e = h \<and> ce_format e = f \<and> st_hash (ce_ticket e) = h
        \<and> ticket_peer_id (ce_ticket e) = ea_id (en_addr E))"
  by (rule node_laws.imported_listed[OF assms(1-8)]) (rule assms(9))

lemma imported_blob_listed_witness:
  "\<exists>s' entries. handle_import mem_env 0 ''/x/a.txt'' [''friends''] False sample_session = (Inr (), s')
     \<and> catalog_connect ref_codec (serving mem_env s' (EndpointId 5)) sample_addr = Inr entries
     \<and> (\<exists>e \<in> set entries. ce_hash e = Hash 3)"
proof -
  obtain s' where s': "handle_import mem_env 0 ''/x/a.txt'' [''friends''] False sample_session = (Inr (), s')"
    and d: "nd_disk s' = shared_disk" using sample_import by blast
  have r: "''friends'' \<in> set (if False then [OPEN_RING_NAME] else [''friends''])" by simp
  have m: "in_ring (mem_rings (nd_registry sample_session)) ''friends'' (EndpointId 5)"
    by (simp add: in_ring_def mem_members_of mem_members_def sample_session_def sample_reg_def)
  have g: "(BlobList, EndpointId 5) \<in> grants_abs map_of (nd_grants sample_session)"
    using sample_granted(1) by (simp add: sample_session_def)
  have c: "ticket_laws (en_codec mem_env)" using ref_codec.ticket_laws_axioms by simp
  have b: "blob_store (en_store mem_env) mem_tags" using mem_store.blob_store_axioms by simp
  have i: "tag_infos (en_store mem_env) (nd_disk s') = Inr [\<lparr>ti_name = str_bytes ''a.txt'', ti_hash = Hash 3, ti_format = Raw\<rparr>,
      \<lparr>ti_name = str_bytes ''b.txt'', ti_hash = Hash 2, ti_format = Raw\<rparr>]" using shared_infos by (simp add: d del: mem_tag_infos)
  have v: "servable (en_codec mem_env) (relay_only_addr (en_addr mem_env)) j"
    if "j \<in> set [\<lparr>ti_name = str_bytes ''a.txt'', ti_hash = Hash 3, ti_format = Raw\<rparr>,
      \<lparr>ti_name = str_bytes ''b.txt'', ti_hash = Hash 2, ti_format = Raw\<rparr>]" for j
    using that by (auto intro!: servable_ascii simp: ascii_def)
  from imported_blob_listed[OF mem_node.node_laws_axioms b c s' r m g i v, of sample_addr] s'
  show ?thesis using sample_import_path by (fastforce simp: sample_session_def)
qed

text \<open>
  C14: Unsharing works end to end: after \<open>blob remove\<close> nobody holds any permission on the
  blob, and no peer, whatever its privileges and rings, finds it in the catalog.
\<close>
theorem removed_blob_unlisted:
  assumes "node_laws E rings attached gview gtview pview ptview" "ticket_laws (en_codec E)"
    and "handle_blob_remove E q target s = (Inr (), s')"
    and "(BlobList, p) \<in> grants_abs gview (nd_grants s')"
    and "tag_infos (en_store E) (nd_disk s') = Inr infos"
    and "\<And>i. i \<in> set infos \<Longrightarrow> servable (en_codec E) (relay_only_addr (en_addr E)) i"
  shows "\<exists>h entries. fst (resolve_target E target s) = Inr h
    \<and> (\<forall>peer perm. \<not> allowed (rings (nd_registry s')) (attached (nd_registry s')) peer (hash_word h) perm)
    \<and> catalog_connect (en_codec E) (serving E s' p) peer_addr = Inr entries \<and> h \<notin> ce_hash ` set entries"
  by (rule node_laws.removed_unlisted[OF assms(1-5)]) (rule assms(6))

lemma removed_blob_unlisted_witness:
  "\<exists>s' entries. handle_blob_remove mem_env 0 sample_target sample_session = (Inr (), s')
     \<and> catalog_connect ref_codec (serving mem_env s' (EndpointId 5)) sample_addr = Inr entries
     \<and> Hash 1 \<notin> ce_hash ` set entries"
proof -
  obtain s' where s': "handle_blob_remove mem_env 0 sample_target sample_session = (Inr (), s')"
    and d: "nd_disk s' = sample_disk\<lparr>md_tags := [(str_bytes ''b.txt'', Hash 2, Raw)]\<rparr>" "nd_grants s' = sample_grants"
    using sample_remove by blast
  have c: "ticket_laws (en_codec mem_env)" using ref_codec.ticket_laws_axioms by simp
  have g: "(BlobList, EndpointId 5) \<in> grants_abs map_of (nd_grants s')" using sample_granted(1) d(2) by simp
  have i: "tag_infos (en_store mem_env) (nd_disk s') = Inr [\<lparr>ti_name = str_bytes ''b.txt'', ti_hash = Hash 2, ti_format = Raw\<rparr>]"
    by (simp add: d)
  have v: "servable (en_codec mem_env) (relay_only_addr (en_addr mem_env)) j"
    if "j \<in> set [\<lparr>ti_name = str_bytes ''b.txt'', ti_hash = Hash 2, ti_format = Raw\<rparr>]" for j
    using that by (auto intro!: servable_ascii simp: ascii_def)
  have r: "fst (resolve_target mem_env sample_target sample_session) = Inr (Hash 1)"
    by (simp add: sample_resolve sample_session_def)
  from removed_blob_unlisted[OF mem_node.node_laws_axioms c s' g i v, of sample_addr] s' r
  show ?thesis by auto
qed

text \<open>
  C19: From the upgrade on: when the node starts on a migrated store, its registry having
  the rings that the migration read, every member of a ring is in the address book, and
  stays so through every history of requests.
\<close>
theorem upgrade_keeps_members_known:
  assumes "local_stores F gview gt pview pt rview rt I" "dd_room d = None" "dd_files d LOCAL = None"
    and "old_present (dd_files d)" "local_store_open F d = (r, u)" "dd_files u LOCAL = Some (nd_peers s)"
    and mirror: "\<And>n p. n \<noteq> OPEN_RING_NAME \<Longrightarrow> in_ring (rings (nd_registry s)) n p \<Longrightarrow>
      peer_key p \<in> ring_members (rows_of rview (dd_files d REGISTRY_FILE))"
    and "node_laws E rings attached gview' gtview' pview ptview"
    and "history E default_dir rings attached s tr t"
  shows "is_ok r \<and> members_known rings pview t"
proof -
  from local_stores.open_serves[OF assms(1-4)] assms(5,6) have "is_ok r"
    "pview (nd_peers s) = merged_peers pview rview (dd_files d)" by auto
  moreover from merged_known[OF this(2)] mirror have "members_known rings pview s"
    unfolding members_known_def by blast
  ultimately show ?thesis using node_laws.history_known[OF assms(8,9)] by blast
qed

lemma upgrade_keeps_members_known_witness:
  "\<exists>u db. local_store_open (mem_files False) (sample_dir None) = (Inr (), u) \<and> dd_files u LOCAL = Some db
     \<and> members_known mem_rings peers_of
       (\<lparr>nd_registry = old_registry, nd_grants = db, nd_peers = db, nd_disk = sample_disk, sn_out = []\<rparr>
         :: (mem_reg, mem_file, mem_file, mem_disk) session)"
proof -
  obtain u db where o: "local_store_open (mem_files False) (sample_dir None) = (Inr (), u)" "dd_files u LOCAL = Some db"
    using mem_live.open_serves[OF sample_dir_files(5,1,2)] by blast
  let ?s = "\<lparr>nd_registry = old_registry, nd_grants = db, nd_peers = db, nd_disk = sample_disk, sn_out = []\<rparr>
    :: (mem_reg, mem_file, mem_file, mem_disk) session"
  have db: "dd_files u LOCAL = Some (nd_peers ?s)" using o(2) by simp
  have m: "peer_key p \<in> ring_members (rows_of rings_of (dd_files (sample_dir None) REGISTRY_FILE))"
    if "n \<noteq> OPEN_RING_NAME" "in_ring (mem_rings (nd_registry ?s)) n p" for n p
    using that unfolding sample_members
    by (auto simp: in_ring_def mem_members_of mem_members_def old_registry_def split: if_splits)
  have "is_ok (Inr ()) \<and> members_known mem_rings peers_of ?s"
    by (rule upgrade_keeps_members_known[OF mem_live.local_stores_axioms sample_dir_files(5,1,2) o(1) db _
          upgraded.node_laws_axioms history_start]) (rule m)
  with o show ?thesis by blast
qed

end
