(* ===== verification/AccessMachine.thy ===== *)
theory AccessMachine
  imports Sharing
begin

text \<open>
  What the operations of the daemon promise about access control, without stores, errors,
  events or text: a machine over rings, attachments, grants and the address book with one
  command per kind of change.  Every operation of the daemon implements the command that
  its arguments denote: when it succeeds it makes a step of the machine, and when it fails
  it leaves the state as it was, up to attachments of the one blob it works on.
\<close>

section \<open>The machine\<close>

record access =
  ac_rings :: "ring \<rightharpoonup> members"
  ac_attached :: "bytes32 \<Rightarrow> ring \<rightharpoonup> permission set"
  ac_grants :: "(privilege \<times> endpoint_id) set"
  ac_book :: "endpoint_id \<rightharpoonup> string option"

datatype command =
    Idle
  | NewRing ring
  | AddMember ring endpoint_id "system_time option"
  | DropMember ring endpoint_id
  | AddPeer endpoint_id "string option"
  | ForgetPeer endpoint_id
  | GrantTo privilege endpoint_id
  | RevokeFrom privilege endpoint_id
  | Share bytes32 "ring list"
  | Unshare bytes32 "ring list"
  | UnshareAll bytes32

definition book_ensure :: "endpoint_id \<Rightarrow> (endpoint_id \<rightharpoonup> string option) \<Rightarrow> endpoint_id \<rightharpoonup> string option" where
  "book_ensure p b = (if b p = None then b(p \<mapsto> None) else b)"

inductive access_step :: "command \<Rightarrow> access \<Rightarrow> access \<Rightarrow> bool" where
  idle: "access_step Idle a a"
| new_ring: "access_step (NewRing n) a (a\<lparr>ac_rings := (ac_rings a)(n \<mapsto> members_of (ac_rings a n))\<rparr>)"
| add_member: "\<forall>q. q \<noteq> p \<longrightarrow> m q = members_of (ac_rings a n) q \<Longrightarrow> (expiry = None \<longrightarrow> p \<in> dom m) \<Longrightarrow>
    (\<forall>t. expiry = Some t \<longrightarrow> m p = None \<or> m p = Some (Some t)) \<Longrightarrow>
    access_step (AddMember n p expiry) a
      (a\<lparr>ac_rings := (ac_rings a)(n \<mapsto> m), ac_book := book_ensure p (ac_book a)\<rparr>)"
| drop_member: "access_step (DropMember n p) a
    (a\<lparr>ac_rings := (ac_rings a)(n := map_option (\<lambda>m. m(p := None)) (ac_rings a n))\<rparr>)"
| add_peer: "access_step (AddPeer p nick) a (a\<lparr>ac_book := (case nick of
    None \<Rightarrow> book_ensure p (ac_book a) | Some n \<Rightarrow> (ac_book a)(p \<mapsto> norm_nick (Some n)))\<rparr>)"
| forget_peer: "ac_book a p \<noteq> None \<Longrightarrow> access_step (ForgetPeer p) a (a\<lparr>ac_rings := rings_without p (ac_rings a),
    ac_grants := ac_grants a - {(BlobList, p)}, ac_book := (ac_book a)(p := None)\<rparr>)"
| grant_to: "access_step (GrantTo pr p) a (a\<lparr>ac_grants := insert (pr, p) (ac_grants a)\<rparr>)"
| revoke_from: "access_step (RevokeFrom pr p) a (a\<lparr>ac_grants := ac_grants a - {(pr, p)}\<rparr>)"
| share: "attached_read (ac_attached a) h (set ns) as \<Longrightarrow> access_step (Share h ns) a (a\<lparr>ac_attached := as\<rparr>)"
| unshare: "\<exists>n \<in> set ns. ac_attached a h n \<noteq> None \<Longrightarrow>
    access_step (Unshare h ns) a (a\<lparr>ac_attached := (ac_attached a)(h := ac_attached a h |` (- set ns))\<rparr>)"
| unshare_all: "access_step (UnshareAll h) a (a\<lparr>ac_attached := (ac_attached a)(h := Map.empty)\<rparr>)"

section \<open>The daemon's side\<close>

definition access_of ::
    "('r \<Rightarrow> ring \<rightharpoonup> members) \<Rightarrow> ('r \<Rightarrow> bytes32 \<Rightarrow> ring \<rightharpoonup> permission set) \<Rightarrow> ('g \<Rightarrow> byte list \<rightharpoonup> unit)
     \<Rightarrow> ('p \<Rightarrow> byte list \<rightharpoonup> string) \<Rightarrow> ('r, 'g, 'p, 's) session \<Rightarrow> access" where
  "access_of rings attached gview pview s =
     \<lparr>ac_rings = rings (nd_registry s), ac_attached = attached (nd_registry s),
      ac_grants = grants_abs gview (nd_grants s), ac_book = peers_abs pview (nd_peers s)\<rparr>"

definition option_of :: "'e + 'a \<Rightarrow> 'a option" where
  "option_of r = (case r of Inr a \<Rightarrow> Some a | Inl _ \<Rightarrow> None)"

text \<open>The command an operation denotes; none when its arguments are not acceptable.\<close>

fun command_of ::
    "('r, 'g, 'gt, 'p, 'pt, 's) env \<Rightarrow> op \<Rightarrow> ('r, 'g, 'p, 's) session \<Rightarrow> command option" where
  "command_of E (RingNew name) s = Some (NewRing name)"
| "command_of E (RingAdd ring peer expires_at) s = (if ring = OPEN_RING_NAME then Some Idle else
     Option.bind (option_of (ir_parse_id (en_iroh E) peer)) (\<lambda>p. if p = ea_id (en_addr E) then None else
     Option.bind (option_of (transpose_map (future_expiry (en_now E)) expires_at)) (\<lambda>expiry.
       Some (AddMember ring p (map_option ex_at expiry)))))"
| "command_of E (RingRemove ring peer) s = (if ring = OPEN_RING_NAME then Some Idle else
     map_option (DropMember ring) (option_of (ir_parse_id (en_iroh E) peer)))"
| "command_of E (PeerAdd peer nickname) s =
     map_option (\<lambda>p. AddPeer p nickname) (option_of (ir_parse_id (en_iroh E) peer))"
| "command_of E (PeerRemove peer) s = map_option ForgetPeer (option_of (ir_parse_id (en_iroh E) peer))"
| "command_of E (OpGrant peer privilege) s = Option.bind (option_of (ir_parse_id (en_iroh E) peer)) (\<lambda>p.
     map_option (\<lambda>pr. GrantTo pr p) (option_of (privilege_try_from privilege)))"
| "command_of E (OpRevoke peer privilege) s = Option.bind (option_of (ir_parse_id (en_iroh E) peer)) (\<lambda>p.
     map_option (\<lambda>pr. RevokeFrom pr p) (option_of (privilege_try_from privilege)))"
| "command_of E (Import path names open_ring) s =
     map_option (\<lambda>(h, _). Share (hash_word h) (if open_ring then [OPEN_RING_NAME] else names))
       (option_of (fst (import_path (en_store E) (en_os E) (en_iroh E) path (nd_disk s))))"
| "command_of E (BlobAttach target names open_ring) s = (if names = [] \<and> \<not> open_ring then None else
     map_option (\<lambda>h. Share (hash_word h) (if open_ring then OPEN_RING_NAME # names else names))
       (option_of (fst (resolve_target E target s))))"
| "command_of E (BlobDetach target names open_ring detach_all) s =
     map_option (\<lambda>h. if detach_all then UnshareAll (hash_word h)
         else Unshare (hash_word h) (if open_ring then [OPEN_RING_NAME] else names))
       (option_of (fst (resolve_target E target s)))"
| "command_of E (BlobRemove target) s =
     map_option (\<lambda>h. UnshareAll (hash_word h)) (option_of (fst (resolve_target E target s)))"
| "command_of E _ s = Some Idle"

text \<open>The blob an operation works on, when its target resolves to one.\<close>

definition blobs_of :: "'e + blob_hash \<Rightarrow> bytes32 set" where
  "blobs_of r = (case r of Inr h \<Rightarrow> {hash_word h} | Inl _ \<Rightarrow> {})"

fun touched_blobs ::
    "('r, 'g, 'gt, 'p, 'pt, 's) env \<Rightarrow> op \<Rightarrow> ('r, 'g, 'p, 's) session \<Rightarrow> bytes32 set" where
  "touched_blobs E (Import path names open_ring) s = blobs_of (bindR
     (fst (import_path (en_store E) (en_os E) (en_iroh E) path (nd_disk s))) (\<lambda>(h, _). Inr h))"
| "touched_blobs E (BlobAttach target names open_ring) s = blobs_of (fst (resolve_target E target s))"
| "touched_blobs E (BlobDetach target names open_ring detach_all) s = blobs_of (fst (resolve_target E target s))"
| "touched_blobs E (BlobRemove target) s = blobs_of (fst (resolve_target E target s))"
| "touched_blobs E _ s = {}"

lemma option_of_simps [simp]: "option_of (Inr a) = Some a" "option_of (Inl e) = None"
  by (simp_all add: option_of_def)

lemma same_access_of: "same_access s t \<Longrightarrow> access_of rings attached gview pview t = access_of rings attached gview pview s"
  by (simp add: same_access_def access_of_def)

lemma send_ok_Inr: "send_ok q m s = (Inr u, t) \<Longrightarrow> \<exists>lines v. m s = (Inr lines, v) \<and> same_access v t"
  by (auto simp: send_ok_def act_Inr send_Inr send_lines_run same_access_def)

lemma send_ok_Inl: "send_ok q m s = (Inl e, t) \<Longrightarrow> m s = (Inl e, t)"
  by (cases "m s"; cases "fst (m s)") (simp_all add: send_ok_def bindA_def thenA_def send_lines_run send_run)

lemma resolve_frame: "resolve_target E target s = (r, t) \<Longrightarrow> same_access s t"
  by (rule frame.stays_state[OF frame_talk_parts(2)])

context node_laws
begin

abbreviation acc where "acc \<equiv> access_of rings attached gview pview"

lemma acc_cong: "same_access s t \<Longrightarrow> acc t = acc s"
  by (rule same_access_of)

lemma acc_registry: "nd_registry t = r \<Longrightarrow> nd_grants t = nd_grants s \<Longrightarrow> nd_peers t = nd_peers s \<Longrightarrow>
    acc t = (acc s)\<lparr>ac_rings := rings r, ac_attached := attached r\<rparr>"
  by (simp add: access_of_def)

lemma ring_new_step:
  assumes "handle_op E D q (RingNew n) s = (Inr (), t)"
  shows "access_step (NewRing n) (acc s) (acc t)"
proof -
  from assms obtain r where r: "rg_create_ring (en_registry E) (nd_registry s) n = Inr r"
    and t: "nd_registry t = r" "nd_grants t = nd_grants s" "nd_peers t = nd_peers s"
    by (auto simp: ring_new_lines_def registryU_def act_Inr send_Inr send_lines_run bindR_Inr)
  from reg.create_ring[OF r] acc_registry[OF t] have "acc t = (acc s)\<lparr>ac_rings := (ac_rings (acc s))(n \<mapsto> members_of (ac_rings (acc s) n))\<rparr>"
    by (simp add: access_of_def)
  then show ?thesis using access_step.new_ring by simp
qed

lemma ring_add_step:
  assumes "ring_add_lines E (ea_id (en_addr E)) ring str ex s = (Inr lines, t)"
  shows "\<exists>c. command_of E (RingAdd ring str ex) s = Some c \<and> access_step c (acc s) (acc t)"
proof (cases "ring = OPEN_RING_NAME")
  case True
  with assms have "t = s" by (simp add: ring_add_lines_def act_simps)
  with True show ?thesis by (auto intro: access_step.idle)
next
  case False
  from ring_add_ok[OF assms False] obtain p expiry m' where
    p: "ir_parse_id (en_iroh E) str = Inr p" "p \<noteq> ea_id (en_addr E)"
      "transpose_map (future_expiry (en_now E)) ex = Inr expiry"
    and eff: "rings (nd_registry t) = (rings (nd_registry s))(ring \<mapsto> m')"
      "attached (nd_registry t) = attached (nd_registry s)" "nd_grants t = nd_grants s"
      "peers_abs pview (nd_peers t) = (if peers_abs pview (nd_peers s) p = None
        then (peers_abs pview (nd_peers s))(p \<mapsto> None) else peers_abs pview (nd_peers s))"
    and m: "\<forall>q. q \<noteq> p \<longrightarrow> m' q = members_of (rings (nd_registry s) ring) q" "expiry = None \<longrightarrow> p \<in> dom m'"
      "\<forall>e. expiry = Some e \<longrightarrow> m' p = None \<or> m' p = Some (Some (ex_at e))"
    by blast
  have "acc t = (acc s)\<lparr>ac_rings := (ac_rings (acc s))(ring \<mapsto> m'), ac_book := book_ensure p (ac_book (acc s))\<rparr>"
    using eff by (simp add: access_of_def book_ensure_def)
  moreover have "access_step (AddMember ring p (map_option ex_at expiry)) (acc s)
      ((acc s)\<lparr>ac_rings := (ac_rings (acc s))(ring \<mapsto> m'), ac_book := book_ensure p (ac_book (acc s))\<rparr>)"
    by (rule access_step.add_member) (use m in \<open>auto simp: access_of_def\<close>)
  ultimately show ?thesis using False p by simp
qed

lemma ring_remove_step:
  assumes "ring_remove_lines E ring str s = (Inr lines, t)"
  shows "\<exists>c. command_of E (RingRemove ring str) s = Some c \<and> access_step c (acc s) (acc t)"
proof (cases "ring = OPEN_RING_NAME")
  case True
  with assms have "t = s" by (simp add: ring_remove_lines_def act_simps)
  with True show ?thesis by (auto intro: access_step.idle)
next
  case False
  with assms obtain p r where p: "ir_parse_id (en_iroh E) str = Inr p"
    and r: "rg_remove_peer_from_ring (en_registry E) (nd_registry s) ring p = Inr r"
    and t: "nd_registry t = r" "nd_grants t = nd_grants s" "nd_peers t = nd_peers s"
    by (auto simp: ring_remove_lines_def registryU_def act_Inr bindR_Inr)
  from reg.remove_peer[OF r] acc_registry[OF t] have "acc t = (acc s)\<lparr>ac_rings :=
      (ac_rings (acc s))(ring := map_option (\<lambda>m. m(p := None)) (ac_rings (acc s) ring))\<rparr>"
    by (simp add: access_of_def)
  with False p show ?thesis using access_step.drop_member[of ring p "acc s"] by simp
qed

lemma peer_add_step:
  assumes "peer_add_lines E str nick s = (Inr lines, t)"
  shows "\<exists>c. command_of E (PeerAdd str nick) s = Some c \<and> access_step c (acc s) (acc t)"
proof -
  from assms obtain p ps' where p: "ir_parse_id (en_iroh E) str = Inr p"
    and ps': "(case nick of None \<Rightarrow> peers_ensure (en_peers E) p (nd_peers s)
      | Some n \<Rightarrow> peers_upsert (en_peers E) p (Some n) (nd_peers s)) = Inr ps'"
    and t: "t = s\<lparr>nd_peers := ps'\<rparr>"
    by (auto simp: peer_add_lines_def peersU_def act_Inr bindR_Inr split: option.splits)
  have "peers_abs pview ps' = (case nick of None \<Rightarrow> book_ensure p (peers_abs pview (nd_peers s))
      | Some n \<Rightarrow> (peers_abs pview (nd_peers s))(p \<mapsto> norm_nick (Some n)))"
    using ps' ps.ensure[of p "nd_peers s"] ps.upsert[of p nick "nd_peers s"]
    by (cases nick) (auto simp: book_ensure_def)
  then have "acc t = (acc s)\<lparr>ac_book := (case nick of None \<Rightarrow> book_ensure p (ac_book (acc s))
      | Some n \<Rightarrow> (ac_book (acc s))(p \<mapsto> norm_nick (Some n)))\<rparr>"
    by (cases nick) (simp_all add: access_of_def t)
  with p show ?thesis using access_step.add_peer[of p nick "acc s"] by simp
qed

lemma peer_remove_step:
  assumes "peer_remove_lines E str s = (Inr lines, t)"
  shows "\<exists>c. command_of E (PeerRemove str) s = Some c \<and> access_step c (acc s) (acc t)"
proof -
  from assms obtain p where p: "ir_parse_id (en_iroh E) str = Inr p" "peers_abs pview (nd_peers s) p \<noteq> None"
    by (auto simp: peer_remove_lines_def peersQ_def ps.get_nick act_Inr split: if_splits)
  from peer_remove_ok[OF this] assms have "acc t = (acc s)\<lparr>ac_rings := rings_without p (ac_rings (acc s)),
      ac_grants := ac_grants (acc s) - {(BlobList, p)}, ac_book := (ac_book (acc s))(p := None)\<rparr>"
    by (auto simp: access_of_def)
  with p show ?thesis using access_step.forget_peer[of "acc s" p] by (simp add: access_of_def)
qed

lemma grant_step:
  assumes "handle_grant E q str privilege s = (Inr (), t)"
  shows "\<exists>c. command_of E (OpGrant str privilege) s = Some c \<and> access_step c (acc s) (acc t)"
proof -
  from assms obtain p pr g where p: "ir_parse_id (en_iroh E) str = Inr p" "privilege_try_from privilege = Inr pr"
    and g: "grants_grant (en_grants E) pr p (nd_grants s) = Inr g"
    and t: "nd_registry t = nd_registry s" "nd_grants t = g" "nd_peers t = nd_peers s"
    by (auto simp: handle_grant_def grant_lines_def grantsU_def act_Inr send_Inr send_lines_run bindR_Inr)
  from gs.grant[of pr p "nd_grants s"] g t have "acc t = (acc s)\<lparr>ac_grants := insert (pr, p) (ac_grants (acc s))\<rparr>"
    by (auto simp: access_of_def)
  with p show ?thesis using access_step.grant_to[of pr p "acc s"] by (simp del: privilege_try_from_Inr)
qed

lemma revoke_step:
  assumes "handle_revoke E q str privilege s = (Inr (), t)"
  shows "\<exists>c. command_of E (OpRevoke str privilege) s = Some c \<and> access_step c (acc s) (acc t)"
proof -
  from assms obtain p pr g where p: "ir_parse_id (en_iroh E) str = Inr p" "privilege_try_from privilege = Inr pr"
    and g: "grants_revoke (en_grants E) pr p (nd_grants s) = Inr g"
    and t: "nd_registry t = nd_registry s" "nd_grants t = g" "nd_peers t = nd_peers s"
    by (auto simp: handle_revoke_def revoke_lines_def grantsU_def act_Inr send_Inr send_lines_run bindR_Inr)
  from gs.revoke[of pr p "nd_grants s"] g t have "acc t = (acc s)\<lparr>ac_grants := ac_grants (acc s) - {(pr, p)}\<rparr>"
    by (auto simp: access_of_def)
  with p show ?thesis using access_step.revoke_from[of pr p "acc s"] by (simp del: privilege_try_from_Inr)
qed

lemma acc_attached:
  assumes "same_stores s t" "rings (nd_registry t) = rings (nd_registry s)" "attached (nd_registry t) = as"
  shows "acc t = (acc s)\<lparr>ac_attached := as\<rparr>"
  using assms by (simp add: same_stores_def access_of_def)

lemma import_step:
  assumes "handle_import E q path names open_ring s = (Inr (), t)"
  shows "\<exists>c. command_of E (Import path names open_ring) s = Some c \<and> access_step c (acc s) (acc t)"
proof -
  from handle_import_ok[OF assms] obtain h f d where
    h: "import_path (en_store E) (en_os E) (en_iroh E) path (nd_disk s) = (Inr (h, f), d)"
    and r: "rings (nd_registry t) = rings (nd_registry s)"
    and a: "attached_read (attached (nd_registry s)) (hash_word h)
      (set (if open_ring then [OPEN_RING_NAME] else names)) (attached (nd_registry t))" by blast
  have "acc t = (acc s)\<lparr>ac_attached := attached (nd_registry t)\<rparr>"
    using stores.stays_state[OF stores_blob_handlers(1) assms] r by (rule acc_attached) simp
  moreover have "access_step (Share (hash_word h) (if open_ring then [OPEN_RING_NAME] else names)) (acc s)
      ((acc s)\<lparr>ac_attached := attached (nd_registry t)\<rparr>)"
    by (rule access_step.share) (use a in \<open>simp add: access_of_def\<close>)
  ultimately show ?thesis using h by simp
qed

lemma attach_step:
  assumes "handle_attach E q target names open_ring s = (Inr (), t)"
  shows "\<exists>c. command_of E (BlobAttach target names open_ring) s = Some c \<and> access_step c (acc s) (acc t)"
proof -
  let ?ns = "if open_ring then OPEN_RING_NAME # names else names"
  from handle_attach_ok[OF assms] obtain h u where
    h: "resolve_target E target s = (Inr h, u)" and r: "rings (nd_registry t) = rings (nd_registry u)"
    and a: "attached_read (attached (nd_registry u)) (hash_word h) (set names \<union> (if open_ring then {OPEN_RING_NAME} else {}))
      (attached (nd_registry t))" by blast
  from resolve_frame[OF h] have u: "nd_registry u = nd_registry s" by (simp add: same_access_def)
  have ns: "set names \<union> (if open_ring then {OPEN_RING_NAME} else {}) = set ?ns" by auto
  have "acc t = (acc s)\<lparr>ac_attached := attached (nd_registry t)\<rparr>"
    using stores.stays_state[OF stores_blob_handlers(2) assms] r unfolding u by (rule acc_attached) simp
  moreover have "access_step (Share (hash_word h) ?ns) (acc s) ((acc s)\<lparr>ac_attached := attached (nd_registry t)\<rparr>)"
    by (rule access_step.share) (use a in \<open>simp only: access_of_def access.simps u ns\<close>)
  moreover have "\<not> (names = [] \<and> \<not> open_ring)"
  proof
    assume "names = [] \<and> \<not> open_ring"
    with assms show False by (simp add: handle_attach_def act_apply)
  qed
  ultimately show ?thesis using h by auto
qed

lemma remove_step:
  assumes "handle_blob_remove E q target s = (Inr (), t)"
  shows "\<exists>c. command_of E (BlobRemove target) s = Some c \<and> access_step c (acc s) (acc t)"
proof -
  from handle_blob_remove_ok[OF assms] obtain h u where h: "resolve_target E target s = (Inr h, u)"
    and a: "attached (nd_registry t) = (attached (nd_registry u))(hash_word h := Map.empty)"
    and r: "rings (nd_registry t) = rings (nd_registry u)" by blast
  from resolve_frame[OF h] have u: "nd_registry u = nd_registry s" by (simp add: same_access_def)
  have "acc t = (acc s)\<lparr>ac_attached := (ac_attached (acc s))(hash_word h := Map.empty)\<rparr>"
    using acc_attached[OF stores.stays_state[OF stores_blob_handlers(4) assms]] r a
    by (simp add: u) (simp add: access_of_def)
  with h show ?thesis using access_step.unshare_all[of "hash_word h" "acc s"] by simp
qed

text \<open>A rewrite of the rings that succeeds has the effect it should, whether the rings exist or not.\<close>

lemma add_back_Inr:
  assumes "forA l (\<lambda>(ring, perms). registryU (\<lambda>r. rg_add_ring_to_resource (en_registry E) r h ring perms)) s = (Inr (), t)"
    and "distinct (map fst l)" "\<And>n. n \<in> fst ` set l \<Longrightarrow> attached (nd_registry s) h n = None"
  shows "attached (nd_registry t) = (attached (nd_registry s))(h := attached (nd_registry s) h ++ assoc_map l)
    \<and> rings (nd_registry t) = rings (nd_registry s)"
  using assms
proof (induction l arbitrary: s)
  case Nil
  then show ?case by (auto simp: act_apply assoc_map_def)
next
  case (Cons np l)
  obtain n ps where np: "np = (n, ps)" by (cases np)
  with Cons.prems(1) obtain r1 where r1: "rg_add_ring_to_resource (en_registry E) (nd_registry s) h n ps = Inr r1"
    and rest: "forA l (\<lambda>(ring, perms). registryU (\<lambda>r. rg_add_ring_to_resource (en_registry E) r h ring perms))
      (s\<lparr>nd_registry := r1\<rparr>) = (Inr (), t)"
    by (auto simp: registryU_def act_Inr bindR_Inr)
  have none: "attached (nd_registry s) h n = None" "n \<notin> fst ` set l" using Cons.prems np by auto
  note eff = attach_fresh[OF r1 none(1)]
  have fresh: "attached (nd_registry (s\<lparr>nd_registry := r1\<rparr>)) h k = None" if "k \<in> fst ` set l" for k
    using that none(2) Cons.prems(3)[of k] by (cases "k = n") (auto simp: eff)
  have "distinct (map fst l)" using Cons.prems(2) by simp
  from Cons.IH[OF rest this fresh] have "attached (nd_registry t) = (attached r1)(h := attached r1 h ++ assoc_map l)
      \<and> rings (nd_registry t) = rings r1" by (simp add: fun_upd_def)
  then have "attached (nd_registry t) = (attached (nd_registry s))(h :=
      (attached (nd_registry s) h)(n \<mapsto> set ps) ++ assoc_map l)" "rings (nd_registry t) = rings (nd_registry s)"
    by (simp_all add: eff)
  moreover have "assoc_map l n = None" using none(2) by (metis assoc_map_dom domIff)
  then have "(attached (nd_registry s) h)(n \<mapsto> set ps) ++ assoc_map l
      = attached (nd_registry s) h ++ (assoc_map l)(n \<mapsto> set ps)"
    by (auto simp: fun_eq_iff map_add_def split: option.splits)
  ultimately show ?case unfolding np by (simp only: assoc_map_Cons)
qed

lemma rewrite_rings_Inr:
  assumes "rewrite_rings E h l s = (Inr (), t)" "distinct (map fst l)"
  shows "attached (nd_registry t) = (attached (nd_registry s))(hash_word h := assoc_map l)
    \<and> rings (nd_registry t) = rings (nd_registry s)"
proof -
  from assms(1) obtain r where r: "rg_remove_ring_from_resource (en_registry E) (nd_registry s) (hash_word h) = Inr r"
    and rest: "forA l (\<lambda>(ring, perms). registryU (\<lambda>r. rg_add_ring_to_resource (en_registry E) r (hash_word h) ring perms))
      (s\<lparr>nd_registry := r\<rparr>) = (Inr (), t)"
    by (auto simp: rewrite_rings_def registryU_def act_Inr bindR_Inr)
  from add_back_Inr[OF rest assms(2)] reg.remove_ring_from_resource[OF r] show ?thesis by simp
qed

lemma detach_step:
  assumes "handle_detach E q target names open_ring detach_all s = (Inr (), t)"
  shows "\<exists>c. command_of E (BlobDetach target names open_ring detach_all) s = Some c \<and> access_step c (acc s) (acc t)"
proof -
  let ?rm = "if open_ring then [OPEN_RING_NAME] else names"
  note st = stores.stays_state[OF stores_blob_handlers(3) assms]
  from assms obtain h u where h: "resolve_target E target s = (Inr h, u)"
    by (auto simp: handle_detach_def act_Inr)
  from resolve_frame[OF h] have u: "nd_registry u = nd_registry s" by (simp add: same_access_def)
  show ?thesis
  proof (cases detach_all)
    case True
    with assms h obtain r where r: "rg_remove_ring_from_resource (en_registry E) (nd_registry s) (hash_word h) = Inr r"
      and t: "nd_registry t = r"
      by (auto simp: handle_detach_def registryU_def act_Inr send_Inr bindR_Inr Let_def u)
    from reg.remove_ring_from_resource[OF r]
    have "acc t = (acc s)\<lparr>ac_attached := (ac_attached (acc s))(hash_word h := Map.empty)\<rparr>"
      using acc_attached[OF st] by (simp add: t) (simp add: access_of_def)
    with h True show ?thesis using access_step.unshare_all[of "hash_word h" "acc s"] by simp
  next
    case False
    with assms h obtain l v where l: "rg_list_resource_rings (en_registry E) (nd_registry u) (hash_word h) = Inr l"
      and some: "filter (\<lambda>name. list_ex (\<lambda>(r, _). r = name) l) ?rm \<noteq> []"
      and w: "rewrite_rings E h (filter (\<lambda>(ring, _). ring \<notin> set ?rm) l) u = (Inr (), v)"
      and t: "nd_registry t = nd_registry v"
      by (auto simp: handle_detach_def act_Inr send_Inr forA_send registryQ_run Let_def split: if_splits)
    note d = reg.list_resource_rings[OF l, THEN conjunct1] and a = reg.list_resource_rings[OF l, THEN conjunct2]
    have "distinct (map fst (filter (\<lambda>(ring, _). ring \<notin> set ?rm) l))" using d by (simp add: distinct_map_filter)
    from rewrite_rings_Inr[OF w this] have eff: "attached (nd_registry t) = (attached (nd_registry s))(hash_word h :=
        attached (nd_registry s) (hash_word h) |` (- set ?rm))" "rings (nd_registry t) = rings (nd_registry s)"
      unfolding assoc_map_filter a t u by simp_all
    have "list_ex (\<lambda>(r, _). r = n) l \<longleftrightarrow> attached (nd_registry s) (hash_word h) n \<noteq> None" for n
      unfolding u[symmetric] a[symmetric] list_ex_iff using assoc_names[of l "\<lambda>m. m = n"] by auto
    with some have ex: "\<exists>n \<in> set ?rm. attached (nd_registry s) (hash_word h) n \<noteq> None"
      by (auto simp: filter_empty_conv)
    have "acc t = (acc s)\<lparr>ac_attached := (ac_attached (acc s))(hash_word h := ac_attached (acc s) (hash_word h) |` (- set ?rm))\<rparr>"
      using acc_attached[OF st eff(2,1)] by (simp add: access_of_def)
    moreover have "access_step (Unshare (hash_word h) ?rm) (acc s) ((acc s)\<lparr>ac_attached :=
        (ac_attached (acc s))(hash_word h := ac_attached (acc s) (hash_word h) |` (- set ?rm))\<rparr>)"
      by (rule access_step.unshare) (use ex in \<open>simp add: access_of_def\<close>)
    ultimately show ?thesis using h False by simp
  qed
qed

section \<open>Failures\<close>

lemmas act_Inl = bindA_eq_Inl thenA_def act_apply send_run send_lines_run registryU_def grantsU_def peersU_def updA_Inl

lemma remove_lines_fail:
  assumes "peer_remove_lines E str s = (Inl e, t)"
  shows "t = s"
proof (cases "\<exists>p. ir_parse_id (en_iroh E) str = Inr p \<and> peers_abs pview (nd_peers s) p \<noteq> None")
  case True
  then obtain p where "ir_parse_id (en_iroh E) str = Inr p" "peers_abs pview (nd_peers s) p \<noteq> None" by blast
  from peer_remove_ok[OF this] assms show ?thesis by auto
next
  case False
  with assms show ?thesis
    by (auto simp: peer_remove_lines_def bindA_eq_Inl act_apply peersQ_def queryA_run ps.get_nick split: if_splits)
qed

lemma lines_fail:
  "ring_new_lines E n s = (Inl e, t) \<Longrightarrow> t = s"
  "ring_remove_lines E ring str s = (Inl e, t) \<Longrightarrow> t = s"
  "peer_add_lines E str nick s = (Inl e, t) \<Longrightarrow> t = s"
  "grant_lines E str privilege s = (Inl e, t) \<Longrightarrow> t = s"
  "revoke_lines E str privilege s = (Inl e, t) \<Longrightarrow> t = s"
  by (auto simp: ring_new_lines_def ring_remove_lines_def peer_add_lines_def grant_lines_def revoke_lines_def act_Inl
      split: if_splits option.splits)

lemma write_fails:
  assumes "handle_op E D q op s = (Inl e, t)"
    and "(\<exists>n. op = RingNew n) \<or> (\<exists>n p x. op = RingAdd n p x) \<or> (\<exists>n p. op = RingRemove n p) \<or> (\<exists>p n. op = PeerAdd p n)
      \<or> (\<exists>p. op = PeerRemove p) \<or> (\<exists>p pr. op = OpGrant p pr) \<or> (\<exists>p pr. op = OpRevoke p pr) \<or> op = Shutdown"
  shows "t = s"
  using assms(2,1)
  by (elim disjE exE)
    (auto dest!: send_ok_Inl simp: ring_add_fails remove_lines_fail lines_fail handle_grant_def handle_revoke_def
      bindA_eq_Inl thenA_def act_apply send_run send_lines_run)

end

text \<open>The blob operations work in several steps: where they fail, the steps they made stay,
  but they are on the attachments of their blob alone.\<close>

definition blob_only ::
    "('r \<Rightarrow> ring \<rightharpoonup> members) \<Rightarrow> ('r \<Rightarrow> bytes32 \<Rightarrow> ring \<rightharpoonup> permission set) \<Rightarrow> bytes32 set
     \<Rightarrow> ('r, 'g, 'p, 's) session \<Rightarrow> ('r, 'g, 'p, 's) session \<Rightarrow> bool" where
  "blob_only rings attached H s t \<longleftrightarrow> same_stores s t \<and> rings (nd_registry t) = rings (nd_registry s)
     \<and> (\<forall>g. g \<notin> H \<longrightarrow> attached (nd_registry t) g = attached (nd_registry s) g)"

interpretation touch: act_preorder "blob_only rings attached H"
  for rings :: "'r \<Rightarrow> ring \<rightharpoonup> members" and attached H
  by unfold_locales (simp_all add: blob_only_def same_stores_def)

lemma frame_touch: "stays same_access m \<Longrightarrow> stays (blob_only rings attached H) m"
  by (simp add: stays_def same_access_def blob_only_def same_stores_def)

lemmas touch_rules = touch.stays_rules frame_parts[THEN frame_touch] frame_talk_parts[THEN frame_touch]

context node_laws
begin

lemma touch_registry:
  assumes "\<And>r r'. f r = Inr r' \<Longrightarrow> rings r' = rings r \<and> (\<forall>g. g \<notin> H \<longrightarrow> attached r' g = attached r g)"
  shows "stays (blob_only rings attached H) (registryU f)"
  unfolding stays_def
proof
  fix s
  show "blob_only rings attached H s (snd (registryU f s))"
    using assms[of "nd_registry s"]
    by (cases "f (nd_registry s)") (simp_all add: registryU_run blob_only_def same_stores_def)
qed

lemma touch_add: "stays (blob_only rings attached {h}) (registryU (\<lambda>r. rg_add_ring_to_resource (en_registry E) r h n ps))"
  by (rule touch_registry) (drule reg.add_ring_to_resource, auto)

lemma touch_detach: "stays (blob_only rings attached {h}) (registryU (\<lambda>r. rg_remove_ring_from_resource (en_registry E) r h))"
  by (rule touch_registry) (drule reg.remove_ring_from_resource, auto)

lemma touch_target:
  assumes "\<And>h. stays (blob_only rings attached {hash_word h}) (f h)"
  shows "blob_only rings attached (blobs_of (fst (resolve_target E target s))) s (snd (bindA (resolve_target E target) f s))"
proof (rule touch.rel_bind, rule touch.stays_rel, rule frame_talk_parts[THEN frame_touch])
  fix h t assume "resolve_target E target s = (Inr h, t)"
  with assms[of h] show "blob_only rings attached (blobs_of (fst (resolve_target E target s))) t (snd (f h t))"
    by (simp add: blobs_of_def stays_def)
qed

lemmas touch_steps = touch_rules touch_add touch_detach

lemma touch_import:
  "blob_only rings attached (touched_blobs E (Import path names open_ring) s) s (snd (handle_import E q path names open_ring s))"
  unfolding handle_import_def import_report_def
proof (rule touch.rel_bind, rule touch.stays_rel, rule frame_parts[THEN frame_touch], goal_cases)
  case (1 hf t)
  then obtain h f where hf: "hf = (h, f)"
    and run: "fst (import_path (en_store E) (en_os E) (en_iroh E) path (nd_disk s)) = Inr (h, f)"
    by (cases hf) (auto simp: diskA_def split: prod.splits)
  then have H: "touched_blobs E (Import path names open_ring) s = {hash_word h}" by (simp add: blobs_of_def)
  show ?case
    unfolding hf prod.case Let_def H attach_ring_def by (intro touch.stays_rel touch_steps)
qed

lemma touch_attach:
  "blob_only rings attached (touched_blobs E (BlobAttach target names open_ring) s) s
     (snd (handle_attach E q target names open_ring s))"
proof (cases "names = [] \<and> \<not> open_ring")
  case True
  then show ?thesis by (simp add: handle_attach_def act_simps touch.rel_refl)
next
  case False
  show ?thesis
    unfolding handle_attach_def if_not_P[OF False] attach_ring_def touched_blobs.simps
    by (rule touch_target) (intro touch_steps)
qed

lemma touch_rest:
  "blob_only rings attached (touched_blobs E (BlobDetach target names open_ring detach_all) s) s
     (snd (handle_detach E q target names open_ring detach_all s))"
  "blob_only rings attached (touched_blobs E (BlobRemove target) s) s (snd (handle_blob_remove E q target s))"
  unfolding handle_detach_def handle_blob_remove_def rewrite_rings_def Let_def touched_blobs.simps
  by (rule touch_target, intro touch_steps)+

section \<open>The refinement\<close>

abbreviation implements where
  "implements op s t \<equiv> \<exists>c. command_of E op s = Some c \<and> access_step c (acc s) (acc t)"

lemma quiet_implements:
  assumes "stays same_access (handle_op E D q op)" "handle_op E D q op s = (r, t)"
  shows "acc t = acc s"
  by (rule acc_cong, rule frame.stays_state[OF assms])

lemma idle_implements:
  "command_of E op s = Some Idle \<Longrightarrow> acc t = acc s \<Longrightarrow> implements op s t"
  using access_step.idle by simp

lemma lines_implement:
  assumes "m s = (Inr lines, v)" "same_access v t" "implements op s v"
  shows "implements op s t"
  using assms by (simp add: acc_cong)

lemma send_ok_implements:
  assumes "send_ok q m s = (Inr u, t)" "\<And>lines v. m s = (Inr lines, v) \<Longrightarrow> implements op s v"
  shows "implements op s t"
proof -
  from send_ok_Inr[OF assms(1)] obtain lines v where v: "m s = (Inr lines, v)" "same_access v t" by blast
  then show ?thesis by (rule lines_implement) (rule assms(2)[OF v(1)])
qed

lemma peer_add_op:
  assumes "handle_op E D q (PeerAdd str nick) s = (Inr u, t)"
  shows "implements (PeerAdd str nick) s t"
proof -
  from assms obtain lines v where v: "peer_add_lines E str nick s = (Inr lines, v)" "same_access v t"
    by (auto simp: act_Inr send_Inr send_lines_run same_access_def)
  then show ?thesis by (rule lines_implement) (rule peer_add_step[OF v(1)])
qed

lemma handle_op_implements:
  assumes "handle_op E D q op s = (Inr (), t)"
  shows "implements op s t"
proof (cases op)
  case (RingNew n)
  with ring_new_step assms show ?thesis by simp
next
  case (RingAdd ring str ex)
  with assms have "send_ok q (ring_add_lines E (ea_id (en_addr E)) ring str ex) s = (Inr (), t)" by simp
  then show ?thesis unfolding RingAdd by (rule send_ok_implements) (rule ring_add_step)
next
  case (RingRemove ring str)
  with assms have "send_ok q (ring_remove_lines E ring str) s = (Inr (), t)" by simp
  then show ?thesis unfolding RingRemove by (rule send_ok_implements) (rule ring_remove_step)
next
  case (PeerAdd str nick)
  with assms peer_add_op show ?thesis by blast
next
  case (PeerRemove str)
  with assms have "send_ok q (peer_remove_lines E str) s = (Inr (), t)" by simp
  then show ?thesis unfolding PeerRemove by (rule send_ok_implements) (rule peer_remove_step)
next
  case (Import path names open_ring)
  with assms import_step show ?thesis by (simp del: command_of.simps)
next
  case (BlobAttach target names open_ring)
  with assms attach_step show ?thesis by (simp del: command_of.simps)
next
  case (BlobDetach target names open_ring detach_all)
  with assms detach_step show ?thesis by (simp del: command_of.simps)
next
  case (BlobRemove target)
  with assms remove_step show ?thesis by (simp del: command_of.simps)
next
  case (OpGrant str privilege)
  with assms grant_step show ?thesis by (simp del: command_of.simps)
next
  case (OpRevoke str privilege)
  with assms revoke_step show ?thesis by (simp del: command_of.simps)
next
  case Shutdown
  with assms show ?thesis by (simp add: act_apply)
qed (rule idle_implements, simp, rule quiet_implements[OF _ assms], simp add: frame_handlers)+

lemma blob_only_acc:
  "blob_only rings attached H s t \<Longrightarrow>
    \<exists>as. acc t = (acc s)\<lparr>ac_attached := as\<rparr> \<and> (\<forall>g. g \<notin> H \<longrightarrow> as g = ac_attached (acc s) g)"
  by (rule exI[of _ "attached (nd_registry t)"]) (simp add: blob_only_def same_stores_def access_of_def)

lemma handle_op_fails:
  assumes "handle_op E D q op s = (Inl e, t)"
  shows "blob_only rings attached (touched_blobs E op s) s t"
proof (cases "stays same_access (handle_op E D q op)")
  case True
  from touch.stays_state[OF frame_touch[OF this] assms] show ?thesis .
next
  case False
  show ?thesis
  proof (cases op)
    case (Import path names open_ring)
    with touch_import[of path names open_ring s q] assms show ?thesis by (simp del: touched_blobs.simps)
  next
    case (BlobAttach target names open_ring)
    with touch_attach[of target names open_ring s q] assms show ?thesis by (simp del: touched_blobs.simps)
  next
    case (BlobDetach target names open_ring detach_all)
    with touch_rest(1)[of target names open_ring detach_all s q] assms show ?thesis by (simp del: touched_blobs.simps)
  next
    case (BlobRemove target)
    with touch_rest(2)[of target s q] assms show ?thesis by (simp del: touched_blobs.simps)
  qed (use False write_fails[OF assms] in \<open>simp add: frame_handlers touch.rel_refl\<close>)+
qed

end



end
