(* ===== verification/Programs.thy ===== *)
theory Programs
  imports Prelude "HOL-Library.Multiset"
begin

text \<open>
  Operations that can be interrupted.  An action is carried out at once; a program is the
  same operation as a tree of atomic steps, between which other operations may change
  the shared state.  The combinators follow those of actions one by one, and \<open>solo\<close> runs
  a program without interruption: it turns each combinator into the one of the actions.
\<close>

datatype ('s, 'a) prog = Halt "'a result" | Step "'s \<Rightarrow> ('s, 'a) prog \<times> 's"

primrec solo :: "('s, 'a) prog \<Rightarrow> ('s, 'a) act" where
  "solo (Halt r) = (\<lambda>s. (r, s))"
| "solo (Step f) = (\<lambda>s. case map_prod solo id (f s) of (m, t) \<Rightarrow> m t)"

definition atomP :: "('s, 'a) act \<Rightarrow> ('s, 'a) prog" where
  "atomP m = Step (\<lambda>s. case m s of (r, t) \<Rightarrow> (Halt r, t))"

primrec bindP :: "('s, 'a) prog \<Rightarrow> ('a \<Rightarrow> ('s, 'b) prog) \<Rightarrow> ('s, 'b) prog" where
  "bindP (Halt r) g = (case r of Inl e \<Rightarrow> Halt (Inl e) | Inr a \<Rightarrow> g a)"
| "bindP (Step f) g = Step (\<lambda>s. map_prod (\<lambda>p. bindP p g) id (f s))"

definition thenP :: "('s, 'a) prog \<Rightarrow> ('s, 'b) prog \<Rightarrow> ('s, 'b) prog" where
  "thenP p q = bindP p (\<lambda>_. q)"

definition retP :: "'a \<Rightarrow> ('s, 'a) prog" where
  "retP a = Halt (Inr a)"

definition failP :: "anyhow \<Rightarrow> ('s, 'a) prog" where
  "failP e = Halt (Inl e)"

definition liftP :: "'a result \<Rightarrow> ('s, 'a) prog" where
  "liftP r = Halt r"

fun forP :: "'a list \<Rightarrow> ('a \<Rightarrow> ('s, unit) prog) \<Rightarrow> ('s, unit) prog" where
  "forP [] f = retP ()"
| "forP (x # xs) f = thenP (f x) (forP xs f)"

text \<open>What is done about an error: a handler that follows a failed program.\<close>

primrec orelseP :: "('s, 'a) prog \<Rightarrow> (anyhow \<Rightarrow> ('s, 'a) prog) \<Rightarrow> ('s, 'a) prog" where
  "orelseP (Halt r) g = (case r of Inl e \<Rightarrow> g e | Inr a \<Rightarrow> Halt (Inr a))"
| "orelseP (Step f) g = Step (\<lambda>s. map_prod (\<lambda>p. orelseP p g) id (f s))"

section \<open>Without interruption\<close>

lemma solo_Step: "solo (Step f) s = solo (fst (f s)) (snd (f s))"
  by (simp add: split_beta)

lemma solo_atom: "solo (atomP m) = m"
  by (simp add: atomP_def fun_eq_iff split: prod.split)

lemma solo_pure: "solo (retP a) = ret a" "solo (failP e) = fail e" "solo (liftP r) = liftA r"
  by (simp_all add: retP_def failP_def liftP_def fun_eq_iff act_apply)

lemma solo_bind: "solo (bindP p g) = bindA (solo p) (\<lambda>a. solo (g a))"
proof
  fix s
  show "solo (bindP p g) s = bindA (solo p) (\<lambda>a. solo (g a)) s"
  proof (induction p arbitrary: s)
    case (Halt r)
    then show ?case by (cases r) (simp_all add: bindA_def)
  next
    case (Step f)
    obtain p t where f: "f s = (p, t)" by (cases "f s")
    then have "(p, t) \<in> range f" by (metis rangeI)
    from Step[OF this] f show ?case by (simp add: bindA_def)
  qed
qed

lemma solo_then: "solo (thenP p q) = thenA (solo p) (solo q)"
  by (simp add: thenP_def thenA_def solo_bind)

lemma solo_for: "solo (forP xs f) = forA xs (\<lambda>x. solo (f x))"
  by (induction xs) (simp_all add: solo_pure solo_then)

lemma solo_split:
  "solo (if b then p else q) = (if b then solo p else solo q)"
  "solo (case v of None \<Rightarrow> p | Some x \<Rightarrow> f x) = (case v of None \<Rightarrow> solo p | Some x \<Rightarrow> solo (f x))"
  "solo (case pr of (x, y) \<Rightarrow> g x y) = (case pr of (x, y) \<Rightarrow> solo (g x y))"
  by (simp_all split: option.split prod.split)

lemma solo_orelse:
  "solo (orelseP p g) s = (case solo p s of (Inl e, t) \<Rightarrow> solo (g e) t | (Inr a, t) \<Rightarrow> (Inr a, t))"
proof (induction p arbitrary: s)
  case (Halt r)
  then show ?case by (cases r) simp_all
next
  case (Step f)
  obtain q t where f: "f s = (q, t)" by (cases "f s")
  then have "(q, t) \<in> range f" by (metis rangeI)
  from Step[OF this] f show ?case by simp
qed

lemmas solo_rules = solo_atom solo_pure solo_bind solo_then solo_for solo_split

section \<open>A program in any environment\<close>

text \<open>\<open>safe J I p\<close>: whatever others do between the steps of \<open>p\<close>, as long as each step finds
  \<open>J\<close> and \<open>I\<close>, every step keeps \<open>I\<close>.\<close>

inductive safe :: "('s \<Rightarrow> bool) \<Rightarrow> ('s \<Rightarrow> bool) \<Rightarrow> ('s, 'a) prog \<Rightarrow> bool" for J I where
  safe_Halt: "safe J I (Halt r)"
| safe_Step: "(\<And>s. J s \<Longrightarrow> I s \<Longrightarrow> I (snd (f s)) \<and> safe J I (fst (f s))) \<Longrightarrow> safe J I (Step f)"

inductive_cases safe_StepE: "safe J I (Step f)"

lemma safe_step: "safe J I (Step f) \<Longrightarrow> J s \<Longrightarrow> I s \<Longrightarrow> f s = (p, t) \<Longrightarrow> I t \<and> safe J I p"
  by (erule safe_StepE) (metis fst_conv snd_conv)

lemma safe_pure: "safe J I (retP a)" "safe J I (failP e)" "safe J I (liftP r)"
  by (simp_all add: retP_def failP_def liftP_def safe_Halt)

lemma safe_atom: "(\<And>s. J s \<Longrightarrow> I s \<Longrightarrow> I (snd (m s))) \<Longrightarrow> safe J I (atomP m)"
  unfolding atomP_def by (rule safe_Step) (simp add: split_beta safe_Halt)

lemma safe_bind:
  assumes "safe J I p" "\<And>a. safe J I (g a)"
  shows "safe J I (bindP p g)"
  using assms(1)
proof induction
  case (safe_Halt r)
  then show ?case by (cases r) (simp_all add: assms(2) safe.safe_Halt)
next
  case (safe_Step f)
  then show ?case by (auto intro!: safe.safe_Step)
qed

text \<open>The rest of a program may rely on what its first step found out.\<close>

lemma safe_atom_bind:
  assumes "\<And>s r t. J s \<Longrightarrow> I s \<Longrightarrow> m s = (r, t) \<Longrightarrow> I t \<and> (\<forall>a. r = Inr a \<longrightarrow> safe J I (g a))"
  shows "safe J I (bindP (atomP m) g)"
proof -
  have "I (snd (m s)) \<and> safe J I (bindP (Halt (fst (m s))) g)" if "J s" "I s" for s
  proof -
    obtain r t where m: "m s = (r, t)" by (cases "m s")
    from assms[OF that m] m show ?thesis by (cases r) (simp_all add: safe_Halt)
  qed
  then show ?thesis by (auto simp: atomP_def split_beta intro!: safe_Step)
qed

lemma safe_then: "safe J I p \<Longrightarrow> safe J I q \<Longrightarrow> safe J I (thenP p q)"
  unfolding thenP_def by (rule safe_bind)

lemma safe_split:
  "(b \<Longrightarrow> safe J I p) \<Longrightarrow> (\<not> b \<Longrightarrow> safe J I q) \<Longrightarrow> safe J I (if b then p else q)"
  "safe J I p \<Longrightarrow> (\<And>x. safe J I (f x)) \<Longrightarrow> safe J I (case v of None \<Rightarrow> p | Some x \<Rightarrow> f x)"
  "(\<And>x y. safe J I (g x y)) \<Longrightarrow> safe J I (case pr of (x, y) \<Rightarrow> g x y)"
  by (auto split: option.split prod.split)

lemma safe_for: "(\<And>x. x \<in> set xs \<Longrightarrow> safe J I (f x)) \<Longrightarrow> safe J I (forP xs f)"
  by (induction xs) (auto intro: safe_pure safe_then)

lemma safe_bind_lift: "(\<And>a. r = Inr a \<Longrightarrow> safe J I (g a)) \<Longrightarrow> safe J I (bindP (liftP r) g)"
  by (cases r) (simp_all add: liftP_def safe_Halt)

lemma safe_orelse:
  assumes "safe J I p" "\<And>e. safe J I (g e)"
  shows "safe J I (orelseP p g)"
  using assms(1)
proof induction
  case (safe_Halt r)
  then show ?case by (cases r) (simp_all add: assms(2) safe.safe_Halt)
next
  case (safe_Step f)
  then show ?case by (auto intro!: safe.safe_Step)
qed

lemmas safe_rules = safe_pure safe_bind safe_then safe_split safe_for

section \<open>Every program ends\<close>

text \<open>A program steps to one of the programs its tree holds, whatever state it finds.\<close>

definition step_to :: "('s, 'a) prog \<Rightarrow> ('s, 'a) prog \<Rightarrow> bool" where
  "step_to q p \<longleftrightarrow> (\<exists>f s. p = Step f \<and> q = fst (f s))"

lemma wf_step_to: "wfp (step_to :: ('s, 'a) prog \<Rightarrow> ('s, 'a) prog \<Rightarrow> bool)"
  unfolding wfp_on_def
proof (intro allI impI ballI)
  fix P :: "('s, 'a) prog \<Rightarrow> bool" and p
  assume hyp: "\<forall>x\<in>UNIV. (\<forall>y\<in>UNIV. step_to y x \<longrightarrow> P y) \<longrightarrow> P x"
  then have step: "\<And>x. (\<And>y. step_to y x \<Longrightarrow> P y) \<Longrightarrow> P x" by blast
  show "P p"
  proof (induction p)
    case (Halt r)
    show ?case by (rule step) (simp add: step_to_def)
  next
    case (Step f)
    show ?case
    proof (rule step)
      fix y assume "step_to y (Step f)"
      then obtain s where "y = fst (f s)" by (auto simp: step_to_def)
      with Step[of "f s" y] show "P y" by (cases "f s") (auto simp: eq_commute)
    qed
  qed
qed

text \<open>A list of programs in which one makes a step: there is no infinite sequence of these.\<close>

definition list_step :: "('s, 'a) prog list \<Rightarrow> ('s, 'a) prog list \<Rightarrow> bool" where
  "list_step qs ps \<longleftrightarrow> (\<exists>i q. i < length ps \<and> step_to q (ps ! i) \<and> qs = ps[i := q])"

lemma wf_list_step: "wfp (list_step :: ('s, 'a) prog list \<Rightarrow> ('s, 'a) prog list \<Rightarrow> bool)"
proof -
  have "(mset qs, mset ps) \<in> mult {(q, p). step_to q p}" if step: "list_step qs ps"
    for qs ps :: "('s, 'a) prog list"
  proof -
    from step obtain i q where i: "i < length ps" "step_to q (ps ! i)" "qs = ps[i := q]"
      by (auto simp: list_step_def)
    have "mset ps = add_mset (ps ! i) (mset ps - {#ps ! i#})" using i(1) by simp
    moreover have "mset qs = (mset ps - {#ps ! i#}) + {#q#}" using i by (simp add: mset_update)
    ultimately have "(mset qs, mset ps) \<in> mult1 {(q, p). step_to q p}"
      using i(2) by (intro mult1I) auto
    then show ?thesis unfolding mult_def by blast
  qed
  then have sub: "{(qs :: ('s, 'a) prog list, ps). list_step qs ps} \<subseteq> inv_image (mult {(q, p). step_to q p}) mset"
    by auto
  have "wf (mult {(q, p). step_to (q :: ('s, 'a) prog) p})"
    using wf_step_to by (intro wf_mult) (simp add: wfp_def)
  then have "wf {(qs, ps). list_step (qs :: ('s, 'a) prog list) ps}"
    by (rule wf_subset[OF wf_inv_image sub])
  then show ?thesis by (simp add: wfp_def)
qed

end
