(* ===== verification/Interruptible.thy ===== *)
theory Interruptible
  imports Programs Frames
begin

text \<open>
  The operations that change the access state, as programs of atomic steps: one step per
  call of the registry, of a redb transaction and of the blob store.  The daemon runs its
  connections as tasks of their own (\<open>src/src/daemon/server/mod.rs\<close>), so between two such
  calls other requests may be served.  The handlers are those of \<open>RingHandlers\<close> and
  \<open>BlobHandlers\<close>, call by call; without interruption they are the same.  An operation
  that changes nothing is a single step: its answer is a snapshot.
\<close>

section \<open>Rings, peers and grants\<close>

definition ring_new_prog ::
    "('r, 'g, 'gt, 'p, 'pt, 's) env \<Rightarrow> string \<Rightarrow> (('r, 'g, 'p, 's) session, string list) prog" where
  "ring_new_prog E name =
     thenP (atomP (registryU (\<lambda>r. rg_create_ring (en_registry E) r name)))
       (retP [''Ring created: '' @ name, ''Add peers: rdrop ring add '' @ name @ '' <peer-id>''])"

text \<open>\<open>PeerStore::ensure\<close> is a read transaction followed by a write transaction.\<close>

definition ensure_prog ::
    "('r, 'g, 'gt, 'p, 'pt, 's) env \<Rightarrow> endpoint_id \<Rightarrow> (('r, 'g, 'p, 's) session, unit) prog" where
  "ensure_prog E peer =
     bindP (atomP (peersQ (with_read (en_peers E) ''beginning peer ensure read'' ''opening peers table''
       (\<lambda>t. ctxs ''querying peer'' (rd_get (en_peers E) t (peer_key peer)))))) (\<lambda>v.
     if v \<noteq> None then retP () else atomP (peersU (peers_upsert (en_peers E) peer None)))"

definition ring_add_prog ::
    "('r, 'g, 'gt, 'p, 'pt, 's) env \<Rightarrow> endpoint_id \<Rightarrow> ring \<Rightarrow> string \<Rightarrow> u64 option
     \<Rightarrow> (('r, 'g, 'p, 's) session, string list) prog" where
  "ring_add_prog E public_id ring peer expires_at =
     (if ring = OPEN_RING_NAME then
        retP [''The open ring has no membership list '' @ em_dash @ '' everyone is welcome by default.'']
      else
        bindP (liftP (parse_peer_id (en_iroh E) peer)) (\<lambda>peer_id.
        if peer_id = public_id then failP (anyhow_msg ''cannot add yourself to a ring'')
        else
          bindP (liftP (transpose_map (future_expiry (en_now E)) expires_at)) (\<lambda>expiry.
          thenP (atomP (registryU (\<lambda>r. rg_add_peer_to_ring (en_registry E) r ring peer_id None (map_option ex_at expiry))))
         (thenP (ensure_prog E peer_id)
           (retP [case expiry of
              Some e \<Rightarrow> ''Added '' @ ir_show_id (en_iroh E) peer_id @ '' to ring '' @ ring
                @ '' (expires in '' @ format_remaining (ex_remaining e) @ '')''
            | None \<Rightarrow> ''Added '' @ ir_show_id (en_iroh E) peer_id @ '' to ring '' @ ring])))))"

definition ring_remove_prog ::
    "('r, 'g, 'gt, 'p, 'pt, 's) env \<Rightarrow> ring \<Rightarrow> string \<Rightarrow> (('r, 'g, 'p, 's) session, string list) prog" where
  "ring_remove_prog E ring peer =
     (if ring = OPEN_RING_NAME then retP [''The open ring has no membership list to remove from.'']
      else
        bindP (liftP (parse_peer_id (en_iroh E) peer)) (\<lambda>peer_id.
        thenP (atomP (registryU (\<lambda>r. rg_remove_peer_from_ring (en_registry E) r ring peer_id)))
          (retP [''Removed '' @ ir_show_id (en_iroh E) peer_id @ '' from ring '' @ ring])))"

definition peer_add_prog ::
    "('r, 'g, 'gt, 'p, 'pt, 's) env \<Rightarrow> string \<Rightarrow> string option \<Rightarrow> (('r, 'g, 'p, 's) session, string list) prog" where
  "peer_add_prog E peer_str nickname =
     bindP (liftP (parse_peer_id (en_iroh E) peer_str)) (\<lambda>peer_id.
     case nickname of
       Some nick \<Rightarrow> thenP (atomP (peersU (peers_upsert (en_peers E) peer_id (Some nick))))
         (retP [''Peer '' @ ir_show_id (en_iroh E) peer_id @ '' added ('' @ nick @ '')''])
     | None \<Rightarrow> thenP (ensure_prog E peer_id)
         (retP [''Peer '' @ ir_show_id (en_iroh E) peer_id @ '' added'']))"

fun remove_rings_prog ::
    "('r, 'g, 'gt, 'p, 'pt, 's) env \<Rightarrow> endpoint_id \<Rightarrow> ring list \<Rightarrow> string list
     \<Rightarrow> (('r, 'g, 'p, 's) session, string list) prog" where
  "remove_rings_prog E peer_id [] acc = retP acc"
| "remove_rings_prog E peer_id (ring # rings) acc =
     (if ring_is_open ring then remove_rings_prog E peer_id rings acc
      else
        bindP (atomP (registryQ (\<lambda>r. rg_list_ring_peers (en_registry E) r ring))) (\<lambda>members.
        if list_ex (\<lambda>m. rp_peer m = peer_id) members then
          thenP (atomP (registryU (\<lambda>r. rg_remove_peer_from_ring (en_registry E) r ring peer_id)))
            (remove_rings_prog E peer_id rings (acc @ [ring]))
        else remove_rings_prog E peer_id rings acc))"

fun revoke_all_prog ::
    "('r, 'g, 'gt, 'p, 'pt, 's) env \<Rightarrow> endpoint_id \<Rightarrow> privilege list \<Rightarrow> string list
     \<Rightarrow> (('r, 'g, 'p, 's) session, string list) prog" where
  "revoke_all_prog E peer_id [] acc = retP acc"
| "revoke_all_prog E peer_id (pr # prs) acc =
     bindP (atomP (grantsQ (grants_has_grant (en_grants E) pr peer_id))) (\<lambda>has.
     if has then
       thenP (atomP (grantsU (grants_revoke (en_grants E) pr peer_id)))
         (revoke_all_prog E peer_id prs (acc @ [privilege_as_str pr]))
     else revoke_all_prog E peer_id prs acc)"

definition peer_remove_prog ::
    "('r, 'g, 'gt, 'p, 'pt, 's) env \<Rightarrow> string \<Rightarrow> (('r, 'g, 'p, 's) session, string list) prog" where
  "peer_remove_prog E peer_str =
     bindP (liftP (parse_peer_id (en_iroh E) peer_str)) (\<lambda>peer_id.
     bindP (atomP (peersQ (peers_get (en_peers E) peer_id))) (\<lambda>known.
     if known = None then failP (anyhow_msg (''peer not found: '' @ ir_show_id (en_iroh E) peer_id))
     else
       bindP (atomP (registryQ (rg_list_rings (en_registry E)))) (\<lambda>rings.
       bindP (remove_rings_prog E peer_id rings []) (\<lambda>removed_from.
       bindP (revoke_all_prog E peer_id [BlobList] []) (\<lambda>revoked.
       thenP (atomP (peersU (peers_remove (en_peers E) (en_iroh E) peer_id)))
         (retP ([''Removed peer '' @ ir_show_id (en_iroh E) peer_id]
            @ (if removed_from \<noteq> [] then [''  also removed from rings: '' @ join_str '', '' removed_from] else [])
            @ (if revoked \<noteq> [] then [''  also revoked grants: '' @ join_str '', '' revoked] else []))))))))"

definition grant_prog ::
    "('r, 'g, 'gt, 'p, 'pt, 's) env \<Rightarrow> string \<Rightarrow> string \<Rightarrow> (('r, 'g, 'p, 's) session, string list) prog" where
  "grant_prog E peer_str privilege_str =
     bindP (liftP (parse_peer_id (en_iroh E) peer_str)) (\<lambda>peer_id.
     bindP (liftP (privilege_try_from privilege_str)) (\<lambda>pr.
     thenP (atomP (grantsU (grants_grant (en_grants E) pr peer_id)))
       (retP [''Granted '' @ privilege_str @ '' to '' @ ir_show_id (en_iroh E) peer_id])))"

definition revoke_prog ::
    "('r, 'g, 'gt, 'p, 'pt, 's) env \<Rightarrow> string \<Rightarrow> string \<Rightarrow> (('r, 'g, 'p, 's) session, string list) prog" where
  "revoke_prog E peer_str privilege_str =
     bindP (liftP (parse_peer_id (en_iroh E) peer_str)) (\<lambda>peer_id.
     bindP (liftP (privilege_try_from privilege_str)) (\<lambda>pr.
     thenP (atomP (grantsU (grants_revoke (en_grants E) pr peer_id)))
       (retP [''Revoked '' @ privilege_str @ '' from '' @ ir_show_id (en_iroh E) peer_id])))"

section \<open>Blobs\<close>

definition import_prog ::
    "('r, 'g, 'gt, 'p, 'pt, 's) env \<Rightarrow> uuid \<Rightarrow> string \<Rightarrow> string list \<Rightarrow> bool
     \<Rightarrow> (('r, 'g, 'p, 's) session, unit) prog" where
  "import_prog E req_id path rings open_ring =
     bindP (atomP (diskA (import_path (en_store E) (en_os E) (en_iroh E) path))) (\<lambda>(hash, format).
     let effective_rings = (if open_ring then [OPEN_RING_NAME] else rings) in
     thenP
       (if effective_rings = [] then
          bindP (atomP (registryQ (\<lambda>r. rg_list_resource_rings (en_registry E) r (hash_word hash)))) (\<lambda>existing.
          if existing = [] then atomP (send_lines req_id (import_warning (en_iroh E) hash))
          else thenP (atomP (send (event_line req_id ''Already attached to:'')))
            (forP existing (\<lambda>(r, _). atomP (send (event_line req_id (format_ring r))))))
        else
          forP effective_rings (\<lambda>ring.
            thenP (atomP (attach_ring E hash ring))
             (atomP (send (event_line req_id (if ring = OPEN_RING_NAME
                then ''Attached to open ring (publicly accessible)''
                else ''Attached to ring '' @ quoted ring))))))
      (atomP (import_report E req_id path hash format)))"

definition blob_remove_prog ::
    "('r, 'g, 'gt, 'p, 'pt, 's) env \<Rightarrow> uuid \<Rightarrow> string \<Rightarrow> (('r, 'g, 'p, 's) session, unit) prog" where
  "blob_remove_prog E req_id target =
     bindP (atomP (resolve_target E target)) (\<lambda>hash.
     thenP (atomP (registryU (\<lambda>r. rg_remove_ring_from_resource (en_registry E) r (hash_word hash))))
    (thenP (atomP (diskA (delete_blob (en_store E) (en_iroh E) hash)))
    (thenP (atomP (send (event_line req_id (''Removed '' @ ir_show_hash (en_iroh E) hash))))
    (thenP (atomP (send (event_line req_id ''Disk space will be reclaimed on the next GC cycle.'')))
    (thenP (atomP (send (event_record req_id (JObj [(''hash'', JStr (ir_show_hash (en_iroh E) hash))]))))
       (atomP (send (event_done req_id))))))))"

definition attach_prog ::
    "('r, 'g, 'gt, 'p, 'pt, 's) env \<Rightarrow> uuid \<Rightarrow> string \<Rightarrow> string list \<Rightarrow> bool
     \<Rightarrow> (('r, 'g, 'p, 's) session, unit) prog" where
  "attach_prog E req_id target rings open_ring =
     (if rings = [] \<and> \<not> open_ring then failP (anyhow_msg (nothing_to_attach target))
      else
        bindP (atomP (resolve_target E target)) (\<lambda>hash.
        thenP (forP rings (\<lambda>ring.
          thenP (atomP (attach_ring E hash ring))
            (atomP (send (event_line req_id (''Attached '' @ ir_show_hash (en_iroh E) hash @ '' to ring '' @ quoted ring))))))
       (thenP (if open_ring then
            thenP (atomP (attach_ring E hash OPEN_RING_NAME))
              (atomP (send (event_line req_id (''Attached '' @ ir_show_hash (en_iroh E) hash
                @ '' to open ring (publicly accessible)''))))
          else retP ())
          (atomP (send (event_done req_id))))))"

definition rewrite_prog ::
    "('r, 'g, 'gt, 'p, 'pt, 's) env \<Rightarrow> blob_hash \<Rightarrow> (ring \<times> permission list) list
     \<Rightarrow> (('r, 'g, 'p, 's) session, unit) prog" where
  "rewrite_prog E hash remaining =
     thenP (atomP (registryU (\<lambda>r. rg_remove_ring_from_resource (en_registry E) r (hash_word hash))))
       (forP remaining (\<lambda>(ring, perms).
          atomP (registryU (\<lambda>r. rg_add_ring_to_resource (en_registry E) r (hash_word hash) ring perms))))"

definition detach_prog ::
    "('r, 'g, 'gt, 'p, 'pt, 's) env \<Rightarrow> uuid \<Rightarrow> string \<Rightarrow> string list \<Rightarrow> bool \<Rightarrow> bool
     \<Rightarrow> (('r, 'g, 'p, 's) session, unit) prog" where
  "detach_prog E req_id target rings open_ring detach_all =
     bindP (atomP (resolve_target E target)) (\<lambda>hash.
     let shown = ir_show_hash (en_iroh E) hash in
     if detach_all then
       thenP (atomP (registryU (\<lambda>r. rg_remove_ring_from_resource (en_registry E) r (hash_word hash))))
      (thenP (atomP (send (event_line req_id (''Detached '' @ shown @ '' from all rings''))))
         (atomP (send (event_done req_id))))
     else
       let to_remove = (if open_ring then [OPEN_RING_NAME] else rings) in
       bindP (atomP (registryQ (\<lambda>r. rg_list_resource_rings (en_registry E) r (hash_word hash)))) (\<lambda>current.
       let actually_removed = filter (\<lambda>name. list_ex (\<lambda>(r, _). r = name) current) to_remove in
       if actually_removed = [] then
         failP (anyhow_msg (''blob '' @ shown @ '' is not attached to: '' @ join_str '', '' to_remove))
       else
         let remaining = filter (\<lambda>(ring, _). ring \<notin> set to_remove) current in
         thenP (rewrite_prog E hash remaining)
        (thenP (forP actually_removed (\<lambda>name.
            atomP (send (event_line req_id (''Detached '' @ shown @ '' from ring '' @ quoted name)))))
           (atomP (send (event_done req_id))))))"

section \<open>Dispatch\<close>

definition send_ok_prog ::
    "uuid \<Rightarrow> (('r, 'g, 'p, 's) session, string list) prog \<Rightarrow> (('r, 'g, 'p, 's) session, unit) prog" where
  "send_ok_prog req_id p = bindP p (\<lambda>lines. thenP (atomP (send_lines req_id lines)) (atomP (send (event_done req_id))))"

fun op_prog ::
    "('r, 'g, 'gt, 'p, 'pt, 's) env \<Rightarrow> string option \<Rightarrow> uuid \<Rightarrow> op \<Rightarrow> (('r, 'g, 'p, 's) session, unit) prog" where
  "op_prog E default_dir q (Import path rings open_ring) = import_prog E q path rings open_ring"
| "op_prog E default_dir q (BlobRemove target) = blob_remove_prog E q target"
| "op_prog E default_dir q (BlobAttach target rings open_ring) = attach_prog E q target rings open_ring"
| "op_prog E default_dir q (BlobDetach target rings open_ring detach_all) =
     detach_prog E q target rings open_ring detach_all"
| "op_prog E default_dir q (RingNew name) =
     bindP (ring_new_prog E name) (\<lambda>lines.
     thenP (atomP (send_lines q lines))
    (thenP (atomP (send (event_record q (JObj [(''name'', JStr name)])))) (atomP (send (event_done q)))))"
| "op_prog E default_dir q (RingAdd ring peer expires_at) =
     send_ok_prog q (ring_add_prog E (ea_id (en_addr E)) ring peer expires_at)"
| "op_prog E default_dir q (RingRemove ring peer) = send_ok_prog q (ring_remove_prog E ring peer)"
| "op_prog E default_dir q (PeerAdd peer nickname) =
     bindP (peer_add_prog E peer nickname) (\<lambda>lines.
     thenP (atomP (send_lines q lines))
    (thenP (atomP (send (event_record q (JObj [(''peer_id'', JStr peer), (''nickname'', json_opt JStr nickname)]))))
       (atomP (send (event_done q)))))"
| "op_prog E default_dir q (PeerRemove peer) = send_ok_prog q (peer_remove_prog E peer)"
| "op_prog E default_dir q (OpGrant peer privilege) = send_ok_prog q (grant_prog E peer privilege)"
| "op_prog E default_dir q (OpRevoke peer privilege) = send_ok_prog q (revoke_prog E peer privilege)"
| "op_prog E default_dir q op = atomP (handle_op E default_dir q op)"

definition serve_prog ::
    "('r, 'g, 'gt, 'p, 'pt, 's) env \<Rightarrow> string option \<Rightarrow> request \<Rightarrow> (('r, 'g, 'p, 's) session, unit) prog" where
  "serve_prog E default_dir req =
     (if rq_op req = Shutdown then atomP (send (event_done (rq_req_id req)))
      else orelseP (op_prog E default_dir (rq_req_id req) (rq_op req))
        (\<lambda>e. atomP (send (event_error (rq_req_id req) (err_to_string e)))))"

section \<open>Without interruption\<close>

lemma solo_ensure: "solo (ensure_prog E p) = peersU (peers_ensure (en_peers E) p)"
  by (rule ext) (simp add: ensure_prog_def solo_rules bindA_def peersQ_def peersU_def queryA_def updA_def
      peers_ensure_def act_apply bindR_def split: sum.split)

lemma solo_remove_rings: "solo (remove_rings_prog E p rs acc) = remove_from_rings E p rs acc"
  by (induction rs arbitrary: acc) (simp_all add: solo_rules cong: if_cong)

lemma solo_revoke_all: "solo (revoke_all_prog E p prs acc) = revoke_all E p prs acc"
  by (induction prs arbitrary: acc) (simp_all add: solo_rules cong: if_cong)

lemma solo_lines:
  "solo (ring_new_prog E name) = ring_new_lines E name"
  "solo (ring_add_prog E me ring peer ex) = ring_add_lines E me ring peer ex"
  "solo (ring_remove_prog E ring peer) = ring_remove_lines E ring peer"
  "solo (peer_add_prog E peer nick) = peer_add_lines E peer nick"
  "solo (peer_remove_prog E peer) = peer_remove_lines E peer"
  "solo (grant_prog E peer privilege) = grant_lines E peer privilege"
  "solo (revoke_prog E peer privilege) = revoke_lines E peer privilege"
  by (simp_all add: ring_new_prog_def ring_new_lines_def ring_add_prog_def ring_add_lines_def ring_remove_prog_def
      ring_remove_lines_def peer_add_prog_def peer_add_lines_def peer_remove_prog_def peer_remove_lines_def
      grant_prog_def grant_lines_def revoke_prog_def revoke_lines_def solo_rules solo_ensure solo_remove_rings
      solo_revoke_all cong: if_cong option.case_cong)

lemma solo_blobs:
  "solo (import_prog E q path names open_ring) = handle_import E q path names open_ring"
  "solo (blob_remove_prog E q target) = handle_blob_remove E q target"
  "solo (attach_prog E q target names open_ring) = handle_attach E q target names open_ring"
  "solo (detach_prog E q target names open_ring detach_all) = handle_detach E q target names open_ring detach_all"
  by (simp_all add: import_prog_def handle_import_def blob_remove_prog_def handle_blob_remove_def attach_prog_def
      handle_attach_def detach_prog_def handle_detach_def rewrite_prog_def rewrite_rings_def Let_def solo_rules
      cong: if_cong)

lemma solo_send_ok: "solo (send_ok_prog q p) = send_ok q (solo p)"
  by (simp add: send_ok_prog_def send_ok_def solo_rules)

lemma solo_op: "solo (op_prog E default_dir q op) = handle_op E default_dir q op"
  by (cases op)
    (simp_all add: solo_rules solo_lines solo_blobs solo_send_ok handle_grant_def handle_revoke_def send_ok_def)

lemma uninterrupted:
  "solo (serve_prog E default_dir req) s = (Inr (), fst (dispatch E default_dir req s))"
proof (cases "rq_op req = Shutdown")
  case True
  then show ?thesis by (simp add: serve_prog_def dispatch_def solo_rules send_run)
next
  case False
  then show ?thesis
    by (auto simp: serve_prog_def dispatch_def solo_orelse solo_op solo_rules send_run split: prod.split sum.split)
qed


section \<open>The event discipline, step by step\<close>

text \<open>As \<open>talks\<close> and \<open>replies\<close>, for a program that others interrupt: what it appends to its
  own events is the same discipline, whatever it finds in the shared state.\<close>

inductive talksP :: "uuid \<Rightarrow> (('r, 'g, 'p, 's) session, 'a) prog \<Rightarrow> bool" for q where
  talksP_Halt: "talksP q (Halt r)"
| talksP_Step: "(\<And>s. \<exists>es. sn_out (snd (f s)) = sn_out s @ es \<and> body_events q es \<and> talksP q (fst (f s)))
    \<Longrightarrow> talksP q (Step f)"

inductive repliesP :: "uuid \<Rightarrow> (('r, 'g, 'p, 's) session, unit) prog \<Rightarrow> bool" for q where
  repliesP_fail: "repliesP q (Halt (Inl e))"
| repliesP_Step: "(\<And>s. \<exists>es. body_events q es \<and>
      (sn_out (snd (f s)) = sn_out s @ es \<and> repliesP q (fst (f s)) \<or>
       sn_out (snd (f s)) = sn_out s @ es @ [event_done q] \<and> (\<exists>u. fst (f s) = Halt (Inr u))))
    \<Longrightarrow> repliesP q (Step f)"

lemma talksP_pure: "talksP q (retP a)" "talksP q (failP e)" "talksP q (liftP r)"
  by (simp_all add: retP_def failP_def liftP_def talksP_Halt)

lemma talksP_atom: "talks q m \<Longrightarrow> talksP q (atomP m)"
  unfolding atomP_def talks_def by (rule talksP_Step) (simp add: split_beta talksP_Halt)

lemma talksP_bind:
  assumes "talksP q p" "\<And>a. talksP q (g a)"
  shows "talksP q (bindP p g)"
  using assms(1)
proof induction
  case (talksP_Halt r)
  then show ?case by (cases r) (simp_all add: assms(2) talksP.talksP_Halt)
next
  case (talksP_Step f)
  have "\<exists>es. sn_out (snd (map_prod (\<lambda>p. bindP p g) id (f s))) = sn_out s @ es \<and> body_events q es
      \<and> talksP q (fst (map_prod (\<lambda>p. bindP p g) id (f s)))" for s
    using talksP_Step[of s] by auto
  then show ?case by (simp add: talksP.talksP_Step)
qed

lemma talksP_then: "talksP q p \<Longrightarrow> talksP q r \<Longrightarrow> talksP q (thenP p r)"
  unfolding thenP_def by (rule talksP_bind)

lemma talksP_split:
  "(b \<Longrightarrow> talksP q p) \<Longrightarrow> (\<not> b \<Longrightarrow> talksP q r) \<Longrightarrow> talksP q (if b then p else r)"
  "talksP q p \<Longrightarrow> (\<And>x. talksP q (f x)) \<Longrightarrow> talksP q (case v of None \<Rightarrow> p | Some x \<Rightarrow> f x)"
  "(\<And>x y. talksP q (h x y)) \<Longrightarrow> talksP q (case pr of (x, y) \<Rightarrow> h x y)"
  by (auto split: option.split prod.split)

lemma talksP_for: "(\<And>x. talksP q (f x)) \<Longrightarrow> talksP q (forP xs f)"
  by (induction xs) (auto intro: talksP_pure talksP_then)

lemmas talksP_rules = talksP_pure talksP_bind talksP_then talksP_split talksP_for talksP_atom

lemma repliesP_fails: "repliesP q (failP e)"
  by (simp add: failP_def repliesP_fail)

lemma repliesP_atom: "replies q m \<Longrightarrow> repliesP q (atomP m)"
  unfolding atomP_def
proof (rule repliesP_Step, goal_cases)
  case (1 s)
  obtain r t where m: "m s = (r, t)" by (cases "m s")
  with 1 obtain es where "body_events q es" "sn_out t = sn_out s @ es @ (if is_ok r then [event_done q] else [])"
    unfolding replies_def by (metis fst_conv snd_conv)
  with m show ?case by (cases r) (auto simp: repliesP_fail)
qed

lemma repliesP_bind:
  assumes "talksP q p" "\<And>a. repliesP q (g a)"
  shows "repliesP q (bindP p g)"
  using assms(1)
proof induction
  case (talksP_Halt r)
  then show ?case by (cases r) (simp_all add: assms(2) repliesP_fail)
next
  case (talksP_Step f)
  have "\<exists>es. body_events q es \<and> (sn_out (snd (map_prod (\<lambda>p. bindP p g) id (f s))) = sn_out s @ es
      \<and> repliesP q (fst (map_prod (\<lambda>p. bindP p g) id (f s))))" for s
    using talksP_Step[of s] by auto
  then show ?case unfolding bindP.simps by (intro repliesP.repliesP_Step) blast
qed

lemma repliesP_then: "talksP q p \<Longrightarrow> repliesP q r \<Longrightarrow> repliesP q (thenP p r)"
  unfolding thenP_def by (rule repliesP_bind)

lemma repliesP_split:
  "(b \<Longrightarrow> repliesP q p) \<Longrightarrow> (\<not> b \<Longrightarrow> repliesP q r) \<Longrightarrow> repliesP q (if b then p else r)"
  "(\<And>x y. repliesP q (h x y)) \<Longrightarrow> repliesP q (case pr of (x, y) \<Rightarrow> h x y)"
  by (auto split: prod.split)

lemmas repliesP_rules = repliesP_fails repliesP_bind repliesP_then repliesP_split repliesP_atom talksP_rules

lemma talksP_ensure: "talksP q (ensure_prog E p)"
  unfolding ensure_prog_def by (intro talksP_rules spec_intros)

lemma talksP_remove_rings: "talksP q (remove_rings_prog E p rs acc)"
  by (induction rs arbitrary: acc) (auto intro!: talksP_rules spec_intros)

lemma talksP_revoke_all: "talksP q (revoke_all_prog E p prs acc)"
  by (induction prs arbitrary: acc) (auto intro!: talksP_rules spec_intros)

lemma talksP_lines:
  "talksP q (ring_new_prog E name)" "talksP q (ring_add_prog E me ring peer ex)" "talksP q (ring_remove_prog E ring peer)"
  "talksP q (peer_add_prog E peer nick)" "talksP q (peer_remove_prog E peer)"
  "talksP q (grant_prog E peer privilege)" "talksP q (revoke_prog E peer privilege)"
  unfolding ring_new_prog_def ring_add_prog_def ring_remove_prog_def peer_add_prog_def peer_remove_prog_def
    grant_prog_def revoke_prog_def
  by (intro talksP_rules talksP_ensure talksP_remove_rings talksP_revoke_all spec_intros)+

lemma replies_report: "replies q (import_report E q path h f)"
  unfolding import_report_def by (intro spec_intros; simp)

lemma repliesP_blobs:
  "repliesP q (import_prog E q path names open_ring)" "repliesP q (blob_remove_prog E q target)"
  "repliesP q (attach_prog E q target names open_ring)" "repliesP q (detach_prog E q target names open_ring detach_all)"
  unfolding import_prog_def blob_remove_prog_def attach_prog_def detach_prog_def rewrite_prog_def Let_def
  by (intro repliesP_rules replies_report spec_intros; simp)+

lemma repliesP_send_ok: "talksP q p \<Longrightarrow> repliesP q (send_ok_prog q p)"
  unfolding send_ok_prog_def by (intro repliesP_rules spec_intros)

lemma repliesP_op: "repliesP q (op_prog E default_dir q op)"
  by (cases op; simp only: op_prog.simps;
      intro repliesP_blobs repliesP_send_ok talksP_lines repliesP_rules replies_handle_op spec_intros; simp)

end
