(* ===== verification/Interleaving.thy ===== *)
theory Interleaving
  imports Interruptible Histories
begin

text \<open>
  The daemon as it runs: any number of requests at once, each a program of atomic steps
  over the shared stores, with an event channel of its own (\<open>handle_connection\<close> and
  \<open>dispatch\<close> of \<open>src/src/daemon/server/mod.rs\<close>, one task per connection).  Requests come at
  any time, the scheduler picks the next step, memberships expire and the disk changes in
  between.  What holds of histories served one after the other and still holds here: access
  is traceable to a request, every reply is complete, every request ends.  What does not:
  the address book, which a ring add may overwrite.
\<close>

section \<open>Tasks\<close>

record ('r, 'g, 'p, 's) task =
  tk_req :: request
  tk_out :: "event list"
  tk_prog :: "(('r, 'g, 'p, 's) session, unit) prog"

text \<open>One step of a task: it finds the shared state and its own channel.\<close>

definition task_step ::
    "('r, 'g, 'p, 's) task \<Rightarrow> ('r, 'g, 'p, 's) session \<Rightarrow> (('r, 'g, 'p, 's) task \<times> ('r, 'g, 'p, 's) session) option" where
  "task_step k s = (case tk_prog k of Halt r \<Rightarrow> None
     | Step f \<Rightarrow> (case f (s\<lparr>sn_out := tk_out k\<rparr>) of (p, t) \<Rightarrow> Some (k\<lparr>tk_out := sn_out t, tk_prog := p\<rparr>, t)))"

definition new_task ::
    "('r, 'g, 'gt, 'p, 'pt, 's) env \<Rightarrow> string option \<Rightarrow> request \<Rightarrow> ('r, 'g, 'p, 's) task" where
  "new_task E default_dir req = \<lparr>tk_req = req, tk_out = [], tk_prog = serve_prog E default_dir req\<rparr>"

datatype happening = Came op | Worked op | Waited

text \<open>A run records what happened, with the state it found.\<close>

inductive run ::
    "('r, 'g, 'gt, 'p, 'pt, 's) env \<Rightarrow> string option \<Rightarrow> ('r \<Rightarrow> ring \<rightharpoonup> members) \<Rightarrow> ('r \<Rightarrow> bytes32 \<Rightarrow> ring \<rightharpoonup> permission set)
     \<Rightarrow> ('r, 'g, 'p, 's) session \<Rightarrow> (('r, 'g, 'p, 's) session \<times> happening) list \<Rightarrow> ('r, 'g, 'p, 's) session
     \<Rightarrow> ('r, 'g, 'p, 's) task list \<Rightarrow> bool"
  for E default_dir rings attached s where
  run_start: "run E default_dir rings attached s [] s []"
| run_came: "run E default_dir rings attached s tr u ks \<Longrightarrow>
    run E default_dir rings attached s (tr @ [(u, Came (rq_op req))]) u
      (ks @ [new_task (E\<lparr>en_now := now, en_dial := dial, en_connect := connect\<rparr>) default_dir req])"
| run_worked: "run E default_dir rings attached s tr u ks \<Longrightarrow> i < length ks \<Longrightarrow> task_step (ks ! i) u = Some (k, v) \<Longrightarrow>
    run E default_dir rings attached s (tr @ [(u, Worked (rq_op (tk_req k)))]) v (ks[i := k])"
| run_waited: "run E default_dir rings attached s tr u ks \<Longrightarrow>
    (\<And>n p. in_ring (rings r) n p \<Longrightarrow> in_ring (rings (nd_registry u)) n p) \<Longrightarrow>
    attached r = attached (nd_registry u) \<Longrightarrow>
    run E default_dir rings attached s (tr @ [(u, Waited)]) (u\<lparr>nd_registry := r, nd_disk := disk\<rparr>) ks"

lemma task_step_Some:
  "task_step k s = Some (k', t) \<longleftrightarrow> (\<exists>f p. tk_prog k = Step f \<and> f (s\<lparr>sn_out := tk_out k\<rparr>) = (p, t)
    \<and> k' = k\<lparr>tk_out := sn_out t, tk_prog := p\<rparr>)"
  by (auto simp: task_step_def split: prog.splits prod.splits)

lemma task_step_None: "task_step k s = None \<longleftrightarrow> (\<exists>r. tk_prog k = Halt r)"
  by (auto simp: task_step_def split: prog.splits prod.splits)

lemma task_step_req: "task_step k s = Some (k', t) \<Longrightarrow> tk_req k' = tk_req k"
  by (auto simp: task_step_Some)

section \<open>Access\<close>

lemma resolve_out: "fst (resolve_target E target (u\<lparr>sn_out := es\<rparr>)) = fst (resolve_target E target u)"
  by (simp add: resolve_target_def bindA_def diskA_def act_apply split: prod.split sum.split)

lemma readers_out [simp]: "new_readers E op (u\<lparr>sn_out := es\<rparr>) = new_readers E op u"
  by (cases op) (simp_all add: resolve_out)

context node_laws
begin

abbreviation within where
  "within M A G s \<equiv> confined rings attached gview pview M A G UNIV s"

lemma safe_gains: "gains M A G UNIV m \<Longrightarrow> safe J (within M A G s) (atomP m)"
  by (rule safe_atom) (auto simp: stays_def intro: gain.rel_trans)

lemma gains_any_peer: "gains M A G UNIV (peersU f)"
  by (rule gains_peers) simp

lemmas within_rules = safe_rules safe_bind_lift[where J = J and I = I for J I] safe_gains gains_rules gains_any_peer

lemma safe_ensure: "safe J (within M A G s) (ensure_prog E p)"
  unfolding ensure_prog_def by (intro within_rules)

lemma safe_remove_rings: "safe J (within M A G s) (remove_rings_prog E p rs acc)"
  by (induction rs arbitrary: acc) (auto intro!: within_rules)

lemma safe_revoke_all: "safe J (within M A G s) (revoke_all_prog E p prs acc)"
  by (induction prs arbitrary: acc) (auto intro!: within_rules)

lemma safe_lines:
  "safe J (within M A G s) (ring_new_prog E name)" "safe J (within M A G s) (ring_remove_prog E ring peer)"
  "safe J (within M A G s) (peer_add_prog E peer nick)" "safe J (within M A G s) (peer_remove_prog E peer)"
  "safe J (within M A G s) (revoke_prog E peer privilege)"
  unfolding ring_new_prog_def ring_remove_prog_def peer_add_prog_def peer_remove_prog_def revoke_prog_def
  by (intro within_rules safe_ensure safe_remove_rings safe_revoke_all)+

lemma safe_ring_add:
  "new_members E (RingAdd ring peer ex) \<subseteq> M \<Longrightarrow> safe J (within M A G s) (ring_add_prog E me ring peer ex)"
  unfolding ring_add_prog_def
  by (intro safe_bind_lift within_rules safe_ensure gains_add_peer) auto

lemma safe_grant:
  "new_grants E (OpGrant peer privilege) \<subseteq> G \<Longrightarrow> safe J (within M A G s) (grant_prog E peer privilege)"
  unfolding grant_prog_def by (intro safe_bind_lift within_rules gains_grant) auto

text \<open>Steps after the target is resolved rely on what it was.\<close>

lemma safe_target:
  assumes "\<And>u h. J u \<Longrightarrow> fst (resolve_target E target u) = Inr h \<Longrightarrow> safe J (within M A G s) (g h)"
  shows "safe J (within M A G s) (bindP (atomP (resolve_target E target)) g)"
proof (rule safe_atom_bind)
  fix u r t assume J: "J u" and I: "within M A G s u" and run: "resolve_target E target u = (r, t)"
  have "within M A G u t" using gain.stays_state[OF frame_talk_parts(2)[THEN quiet_confined] run] .
  with I have "within M A G s t" by (rule gain.rel_trans)
  with assms[OF J] run show "within M A G s t \<and> (\<forall>a. r = Inr a \<longrightarrow> safe J (within M A G s) (g a))" by simp
qed

lemma safe_attach:
  assumes "\<And>u. J u \<Longrightarrow> new_readers E (BlobAttach target names open_ring) u \<subseteq> A"
  shows "safe J (within M A G s) (attach_prog E q target names open_ring)"
  unfolding attach_prog_def
proof (intro safe_split safe_pure safe_target)
  fix u h assume "J u" "fst (resolve_target E target u) = Inr h"
  with assms[of u] have "{hash_word h} \<times> set (if open_ring then OPEN_RING_NAME # names else names) \<subseteq> A"
    by (simp add: attach_pairs_def)
  then show "safe J (within M A G s) (thenP (forP names (\<lambda>ring. thenP (atomP (attach_ring E h ring))
      (atomP (send (event_line q (''Attached '' @ ir_show_hash (en_iroh E) h @ '' to ring '' @ quoted ring))))))
    (thenP (if open_ring then thenP (atomP (attach_ring E h OPEN_RING_NAME))
        (atomP (send (event_line q (''Attached '' @ ir_show_hash (en_iroh E) h @ '' to open ring (publicly accessible)''))))
      else retP ()) (atomP (send (event_done q)))))"
    by (intro within_rules gains_attach) auto
qed

lemma report_quiet: "stays same_access (import_report E q path h f)"
  unfolding import_report_def Let_def by (intro frame_rules)

lemma safe_import:
  assumes "\<And>u. J u \<Longrightarrow> new_readers E (Import path names open_ring) u \<subseteq> A"
  shows "safe J (within M A G s) (import_prog E q path names open_ring)"
  unfolding import_prog_def
proof (rule safe_atom_bind, intro conjI allI impI, goal_cases)
  case (1 u r t)
  from gain.stays_state[OF frame_parts(4)[THEN quiet_confined] 1(3)] 1(2) show ?case by (blast intro: gain.rel_trans)
next
  case (2 u r t hf)
  then obtain h f where hf: "hf = (h, f)"
    and run: "fst (import_path (en_store E) (en_os E) (en_iroh E) path (nd_disk u)) = Inr (h, f)"
    by (cases hf) (auto simp: diskA_def split: prod.splits)
  with assms[OF 2(1)] have "{hash_word h} \<times> set (if open_ring then [OPEN_RING_NAME] else names) \<subseteq> A"
    by (simp add: attach_pairs_def)
  then show ?case
    unfolding hf prod.case Let_def
    by (intro within_rules gains_attach report_quiet[THEN quiet_confined]) auto
qed

lemma safe_blob_remove: "safe J (within M A G s) (blob_remove_prog E q target)"
  unfolding blob_remove_prog_def by (intro within_rules)

text \<open>A detach writes back what it read: permissions that were there, or that a request gave.\<close>

lemma safe_rewrite:
  assumes "\<And>n ps. (n, ps) \<in> set l \<Longrightarrow>
    set ps \<subseteq> perms_of (attached (nd_registry s) (hash_word h) n) \<union> (if (hash_word h, n) \<in> A then {Read} else {})"
  shows "safe J (within M A G s) (rewrite_prog E h l)"
  unfolding rewrite_prog_def
proof (rule safe_then, rule safe_gains, rule gains_detach_all, rule safe_for)
  fix np assume "np \<in> set l"
  moreover obtain n ps where "np = (n, ps)" by (cases np)
  ultimately have np: "(n, ps) \<in> set l" "np = (n, ps)" by simp_all
  have "within M A G s (snd (registryU (\<lambda>r. rg_add_ring_to_resource (en_registry E) r (hash_word h) n ps) u))"
    if I: "within M A G s u" for u
  proof (cases "rg_add_ring_to_resource (en_registry E) (nd_registry u) (hash_word h) n ps")
    case (Inl e)
    with I show ?thesis by (simp add: registryU_run)
  next
    case (Inr r')
    from reg.add_ring_to_resource[OF Inr] obtain ps' where
      a: "attached r' = (attached (nd_registry u))(hash_word h := (attached (nd_registry u) (hash_word h))(n \<mapsto> ps'))"
        "ps' \<subseteq> set ps \<union> perms_of (attached (nd_registry u) (hash_word h) n)" "rings r' = rings (nd_registry u)" by auto
    have "perms_of (attached r' g k) \<subseteq> perms_of (attached (nd_registry s) g k) \<union> (if (g, k) \<in> A then {Read} else {})" for g k
    proof (cases "g = hash_word h \<and> k = n")
      case True
      with a(1,2) I assms[of n ps] np show ?thesis unfolding confined_def by (fastforce simp: perms_of_def)
    next
      case False
      with a(1) have "attached r' g k = attached (nd_registry u) g k" by auto
      with I show ?thesis unfolding confined_def by simp
    qed
    with I Inr a(3) show ?thesis by (simp add: registryU_run confined_def)
  qed
  then show "safe J (within M A G s) (case np of (ring, perms) \<Rightarrow>
      atomP (registryU (\<lambda>r. rg_add_ring_to_resource (en_registry E) r (hash_word h) ring perms)))"
    unfolding np(2) prod.case by (rule safe_atom)
qed

lemma safe_detach: "safe J (within M A G s) (detach_prog E q target names open_ring detach_all)"
proof -
  let ?k = "\<lambda>h rm current.
      let actually_removed = filter (\<lambda>name. list_ex (\<lambda>(r, _). r = name) current) rm in
       if actually_removed = [] then
         failP (anyhow_msg (''blob '' @ ir_show_hash (en_iroh E) h @ '' is not attached to: '' @ join_str '', '' rm))
       else
         let remaining = filter (\<lambda>(ring, _). ring \<notin> set rm) current in
         thenP (rewrite_prog E h remaining)
        (thenP (forP actually_removed (\<lambda>name.
            atomP (send (event_line q (''Detached '' @ ir_show_hash (en_iroh E) h @ '' from ring '' @ quoted name)))))
           (atomP (send (event_done q))))"
  have sel: "safe J (within M A G s) (bindP (atomP (registryQ (\<lambda>r. rg_list_resource_rings (en_registry E) r (hash_word h))))
      (?k h rm))" for h rm
  proof (rule safe_atom_bind, intro conjI allI impI, goal_cases)
    case (1 u r t)
    then show ?case by (simp add: registryQ_run)
  next
    case (2 u r t l)
    note I = 2(2) and run = 2(3,4)
    from run have l: "rg_list_resource_rings (en_registry E) (nd_registry u) (hash_word h) = Inr l"
      by (auto simp: registryQ_run)
    note d = reg.list_resource_rings[OF l, THEN conjunct1] and m = reg.list_resource_rings[OF l, THEN conjunct2]
    have "set ps \<subseteq> perms_of (attached (nd_registry u) (hash_word h) n)" if "(n, ps) \<in> set l" for n ps
      using that assoc_map_Some[OF d, of n "set ps"] m by (auto simp: perms_of_def)
    with I have "set ps \<subseteq> perms_of (attached (nd_registry s) (hash_word h) n) \<union> (if (hash_word h, n) \<in> A then {Read} else {})"
      if "(n, ps) \<in> set l" for n ps
      using that unfolding confined_def by blast
    then show ?case
      unfolding Let_def by (intro within_rules safe_rewrite) auto
  qed
  show ?thesis
    unfolding detach_prog_def Let_def
    by (rule safe_target, rule safe_split(1), intro within_rules, rule sel[unfolded Let_def])
qed

lemma safe_op:
  assumes "new_members E op \<subseteq> M" "new_grants E op \<subseteq> G"
  shows "safe (\<lambda>u. new_readers E op u \<subseteq> A) (within M A G s) (op_prog E default_dir q op)"
proof (cases op)
  case (RingAdd ring peer ex)
  with assms(1) show ?thesis
    unfolding RingAdd op_prog.simps send_ok_prog_def by (intro within_rules safe_ring_add) simp
next
  case (OpGrant peer privilege)
  with assms(2) show ?thesis
    unfolding OpGrant op_prog.simps send_ok_prog_def by (intro within_rules safe_grant) simp
next
  case (BlobAttach target names open_ring)
  show ?thesis unfolding BlobAttach op_prog.simps by (rule safe_attach)
next
  case (Import path names open_ring)
  show ?thesis unfolding Import op_prog.simps by (rule safe_import)
next
  case Shutdown
  show ?thesis unfolding Shutdown op_prog.simps handle_op.simps by (intro within_rules)
qed (erule ssubst, unfold op_prog.simps send_ok_prog_def handle_op.simps,
  intro frame_handlers[THEN quiet_confined] safe_blob_remove safe_detach safe_lines within_rules)+

lemma safe_serve:
  assumes "new_members E (rq_op req) \<subseteq> M" "new_grants E (rq_op req) \<subseteq> G"
  shows "safe (\<lambda>u. new_readers E (rq_op req) u \<subseteq> A) (within M A G s) (serve_prog E default_dir req)"
  unfolding serve_prog_def by (intro safe_split safe_orelse safe_op assms safe_gains gains_rules)

lemma run_within:
  assumes "run E default_dir rings attached s tr t ks"
    and "\<forall>(u, m) \<in> set tr. (\<forall>op. m = Came op \<longrightarrow> new_members E op \<subseteq> M \<and> new_grants E op \<subseteq> G)
      \<and> (\<forall>op. m = Worked op \<longrightarrow> new_readers E op u \<subseteq> A)"
  shows "within M A G s t \<and> (\<forall>k \<in> set ks.
    safe (\<lambda>u. new_readers E (rq_op (tk_req k)) u \<subseteq> A) (within M A G s) (tk_prog k))"
  using assms
proof (induction rule: run.induct)
  case run_start
  then show ?case by (simp add: gain.rel_refl)
next
  case (run_came tr u ks req connect dial now)
  then have "new_members E (rq_op req) \<subseteq> M" "new_grants E (rq_op req) \<subseteq> G" by auto
  then have "safe (\<lambda>u. new_readers (E\<lparr>en_now := now, en_dial := dial, en_connect := connect\<rparr>) (rq_op req) u \<subseteq> A)
      (within M A G s) (serve_prog (E\<lparr>en_now := now, en_dial := dial, en_connect := connect\<rparr>) default_dir req)"
    by (intro node_laws.safe_serve[OF at_moment]) simp_all
  with run_came show ?case by (auto simp: new_task_def)
next
  case (run_worked tr u ks i k v)
  then have IH: "within M A G s u" "\<forall>k \<in> set ks. safe (\<lambda>u. new_readers E (rq_op (tk_req k)) u \<subseteq> A) (within M A G s) (tk_prog k)"
    by auto
  have req: "tk_req k = tk_req (ks ! i)" using run_worked.hyps(3) by (rule task_step_req)
  with run_worked.prems have J: "new_readers E (rq_op (tk_req (ks ! i))) u \<subseteq> A" by simp
  from run_worked.hyps(3) obtain f p where f: "tk_prog (ks ! i) = Step f" "f (u\<lparr>sn_out := tk_out (ks ! i)\<rparr>) = (p, v)"
    and k: "k = (ks ! i)\<lparr>tk_out := sn_out v, tk_prog := p\<rparr>" by (auto simp: task_step_Some)
  have I: "within M A G s (u\<lparr>sn_out := tk_out (ks ! i)\<rparr>)" using IH(1) by (rule gain.rel_trans) (simp add: gain_quiet)
  have "safe (\<lambda>u. new_readers E (rq_op (tk_req (ks ! i))) u \<subseteq> A) (within M A G s) (Step f)"
    using IH(2) f(1) run_worked.hyps(2) by (metis nth_mem)
  from safe_step[OF this _ I f(2)] J
  have "within M A G s v \<and> safe (\<lambda>u. new_readers E (rq_op (tk_req (ks ! i))) u \<subseteq> A) (within M A G s) p"
    by simp
  with IH(2) k show ?case using set_update_subset_insert[of ks i k] by auto
next
  case (run_waited tr u ks r disk)
  then have "within M A G s u" by auto
  moreover have "within M A G u (u\<lparr>nd_registry := r, nd_disk := disk\<rparr>)"
    using run_waited.hyps(2,3) by (simp add: confined_def)
  ultimately show ?case using run_waited by (auto intro: gain.rel_trans)
qed

end

section \<open>Replies\<close>

text \<open>What a program still has to do for its events to become one complete reply.\<close>

inductive answers :: "uuid \<Rightarrow> event list \<Rightarrow> (('r, 'g, 'p, 's) session, unit) prog \<Rightarrow> bool" for q where
  answers_ended: "complete_reply q out \<Longrightarrow> answers q out (Halt r)"
| answers_going: "body_events q out \<Longrightarrow>
    (\<And>s. sn_out s = out \<Longrightarrow> answers q (sn_out (snd (f s))) (fst (f s))) \<Longrightarrow> answers q out (Step f)"

inductive_cases answers_StepE: "answers q out (Step f)"
inductive_cases answers_HaltE: "answers q out (Halt r)"

lemma answers_step: "answers q out (Step f) \<Longrightarrow> sn_out s = out \<Longrightarrow> f s = (p, t) \<Longrightarrow> answers q (sn_out t) p"
  by (erule answers_StepE) (metis fst_conv snd_conv)

lemma answers_send:
  assumes "body_events q out" "ev_req_id e = q" "is_eos e"
  shows "answers q out (atomP (send e))"
  unfolding atomP_def using assms
  by (auto intro!: answers_going answers_ended complete_replyI simp: send_run)

lemma answers_orelse:
  assumes "repliesP q p" "body_events q out"
  shows "answers q out (orelseP p (\<lambda>e. atomP (send (event_error q (err_to_string e)))))"
  using assms
proof (induction arbitrary: out)
  case (repliesP_fail e)
  then show ?case by (simp add: answers_send)
next
  case (repliesP_Step f)
  let ?H = "\<lambda>e. atomP (send (event_error q (err_to_string e)))"
  have "answers q (sn_out (snd (f s))) (orelseP (fst (f s)) ?H)" if s: "sn_out s = out" for s
  proof -
    from repliesP_Step.IH[of s] obtain es where es: "body_events q es" and d:
      "(sn_out (snd (f s)) = sn_out s @ es \<and> (\<forall>out. body_events q out \<longrightarrow> answers q out (orelseP (fst (f s)) ?H))) \<or>
       (sn_out (snd (f s)) = sn_out s @ es @ [event_done q] \<and> (\<exists>u. fst (f s) = Halt (Inr u)))" by blast
    show ?thesis
    proof (rule disjE[OF d])
      assume "sn_out (snd (f s)) = sn_out s @ es \<and> (\<forall>out. body_events q out \<longrightarrow> answers q out (orelseP (fst (f s)) ?H))"
      with es s repliesP_Step.prems show ?thesis by simp
    next
      assume fin: "sn_out (snd (f s)) = sn_out s @ es @ [event_done q] \<and> (\<exists>u. fst (f s) = Halt (Inr u))"
      have "complete_reply q ((out @ es) @ [event_done q])"
        by (rule complete_replyI) (use es repliesP_Step.prems in simp_all)
      with fin s show ?thesis by (auto intro: answers_ended)
    qed
  qed
  with repliesP_Step.prems show ?case by (auto intro!: answers_going)
qed

lemma answers_serve: "answers (rq_req_id req) [] (serve_prog E default_dir req)"
  unfolding serve_prog_def
  by (auto intro!: answers_send answers_orelse repliesP_op)

lemma run_answers:
  assumes "run E default_dir rings attached s tr t ks" "k \<in> set ks"
  shows "answers (rq_req_id (tk_req k)) (tk_out k) (tk_prog k)"
  using assms
proof (induction arbitrary: k rule: run.induct)
  case (run_came tr u ks req connect dial now)
  then show ?case by (auto simp: new_task_def answers_serve)
next
  case (run_worked tr u ks i k' v)
  from run_worked.hyps(3) obtain f p where f: "tk_prog (ks ! i) = Step f" "f (u\<lparr>sn_out := tk_out (ks ! i)\<rparr>) = (p, v)"
    and k': "k' = (ks ! i)\<lparr>tk_out := sn_out v, tk_prog := p\<rparr>" by (auto simp: task_step_Some)
  have "answers (rq_req_id (tk_req (ks ! i))) (tk_out (ks ! i)) (Step f)"
    using run_worked.IH[of "ks ! i"] nth_mem[OF run_worked.hyps(2)] unfolding f(1)[symmetric] by blast
  from answers_step[OF this _ f(2)] have "answers (rq_req_id (tk_req (ks ! i))) (sn_out v) p" by simp
  with k' run_worked.prems run_worked.IH show ?case using set_update_subset_insert[of ks i k'] by auto
qed simp_all

section \<open>Every request ends\<close>

text \<open>One of the tasks makes a step, on whatever state.\<close>

definition any_step :: "('r, 'g, 'p, 's) task list \<Rightarrow> ('r, 'g, 'p, 's) task list \<Rightarrow> bool" where
  "any_step ks' ks \<longleftrightarrow> (\<exists>i k s t. i < length ks \<and> task_step (ks ! i) s = Some (k, t) \<and> ks' = ks[i := k])"

lemma any_step_progs: "any_step ks' ks \<Longrightarrow> list_step (map tk_prog ks') (map tk_prog ks)"
proof -
  assume "any_step ks' ks"
  then obtain i k s t f p where i: "i < length ks" "tk_prog (ks ! i) = Step f" "f (s\<lparr>sn_out := tk_out (ks ! i)\<rparr>) = (p, t)"
    "k = (ks ! i)\<lparr>tk_out := sn_out t, tk_prog := p\<rparr>" "ks' = ks[i := k]"
    unfolding any_step_def task_step_Some by blast
  then have "step_to p (map tk_prog ks ! i)" unfolding step_to_def by (metis fst_conv nth_map)
  with i show ?thesis unfolding list_step_def by (intro exI[of _ i] exI[of _ p]) (simp add: map_update)
qed

lemma wf_any_step: "wfp (any_step :: ('r, 'g, 'p, 's) task list \<Rightarrow> ('r, 'g, 'p, 's) task list \<Rightarrow> bool)"
proof -
  have "{(ks' :: ('r, 'g, 'p, 's) task list, ks). any_step ks' ks} \<subseteq> inv_image {(qs, ps). list_step qs ps} (map tk_prog)"
    using any_step_progs by auto
  moreover have "wf {(qs, ps). list_step (qs :: (('r, 'g, 'p, 's) session, unit) prog list) ps}"
    using wf_list_step by (simp add: wfp_def)
  ultimately have "wf {(ks' :: ('r, 'g, 'p, 's) task list, ks). any_step ks' ks}"
    using wf_subset[OF wf_inv_image] by blast
  then show ?thesis by (simp add: wfp_def)
qed

lemma run_to_end:
  assumes "run E default_dir rings attached s tr t ks"
  shows "\<exists>tr' t' ks'. run E default_dir rings attached s (tr @ tr') t' ks' \<and> map tk_req ks' = map tk_req ks
    \<and> (\<forall>k \<in> set ks'. \<exists>r. tk_prog k = Halt r)"
  using assms
proof (induction ks arbitrary: tr t rule: wfp_induct_rule[OF wf_any_step])
  case (1 ks)
  show ?case
  proof (cases "\<forall>k \<in> set ks. \<exists>r. tk_prog k = Halt r")
    case True
    with 1(2) show ?thesis by (intro exI[of _ "[]"] exI[of _ t] exI[of _ ks]) simp
  next
    case False
    then obtain i where i: "i < length ks" "task_step (ks ! i) t \<noteq> None"
      by (metis in_set_conv_nth task_step_None)
    then obtain k v where k: "task_step (ks ! i) t = Some (k, v)" by auto
    with i(1) have "any_step (ks[i := k]) ks" unfolding any_step_def by blast
    from 1(1)[OF this run_worked[OF 1(2) i(1) k]] obtain tr' t' ks' where
      "run E default_dir rings attached s ((tr @ [(t, Worked (rq_op (tk_req k)))]) @ tr') t' ks'"
      "map tk_req ks' = map tk_req (ks[i := k])" "\<forall>k \<in> set ks'. \<exists>r. tk_prog k = Halt r" by blast
    moreover have "map tk_req (ks[i := k]) = map tk_req ks"
      using task_step_req[OF k] i(1) by (simp add: map_update list_update_same_conv)
    ultimately show ?thesis by (metis append.assoc)
  qed
qed

section \<open>Requests that are not interrupted\<close>

lemma run_solo:
  assumes "run E default_dir rings attached s tr u ks" "i < length ks" "tk_prog (ks ! i) = p"
    and "solo p (u\<lparr>sn_out := tk_out (ks ! i)\<rparr>) = (r, v)"
  shows "\<exists>tr' w. run E default_dir rings attached s (tr @ tr') w (ks[i := (ks ! i)\<lparr>tk_out := sn_out v, tk_prog := Halt r\<rparr>])
    \<and> w\<lparr>sn_out := []\<rparr> = v\<lparr>sn_out := []\<rparr> \<and> set tr' \<subseteq> UNIV \<times> {Worked (rq_op (tk_req (ks ! i)))}"
  using assms
proof (induction p arbitrary: tr u ks)
  case (Halt r')
  then have v: "v = u\<lparr>sn_out := tk_out (ks ! i)\<rparr>" "r' = r" by simp_all
  with Halt have "ks[i := (ks ! i)\<lparr>tk_out := sn_out v, tk_prog := Halt r\<rparr>] = ks"
    by (simp add: list_update_same_conv)
  with Halt v show ?case by (intro exI[of _ "[]"] exI[of _ u]) simp
next
  case (Step f)
  obtain p w where f: "f (u\<lparr>sn_out := tk_out (ks ! i)\<rparr>) = (p, w)" by (cases "f (u\<lparr>sn_out := tk_out (ks ! i)\<rparr>)")
  let ?k = "(ks ! i)\<lparr>tk_out := sn_out w, tk_prog := p\<rparr>"
  have k: "task_step (ks ! i) u = Some (?k, w)" using f Step.prems(3) by (simp add: task_step_def)
  have "solo p w = (r, v)" using Step.prems(4) f by simp
  moreover have "(p, w) \<in> range f" using f by (metis rangeI)
  moreover note run_worked[OF Step.prems(1,2) k]
  ultimately obtain tr' x where "run E default_dir rings attached s ((tr @ [(u, Worked (rq_op (tk_req ?k)))]) @ tr') x
      ((ks[i := ?k])[i := ?k\<lparr>tk_out := sn_out v, tk_prog := Halt r\<rparr>])" "x\<lparr>sn_out := []\<rparr> = v\<lparr>sn_out := []\<rparr>"
    "set tr' \<subseteq> UNIV \<times> {Worked (rq_op (tk_req ?k))}"
    using Step.IH[of "(p, w)" p "tr @ [(u, Worked (rq_op (tk_req ?k)))]" w "ks[i := ?k]"] Step.prems(2) by auto
  then show ?case
    by (intro exI[of _ "(u, Worked (rq_op (tk_req ?k))) # tr'"] exI[of _ x]) simp
qed

text \<open>A request served at once: it comes, all its steps follow, and its reply is that of
  \<open>dispatch\<close>.\<close>

lemma run_dispatch:
  assumes "run E default_dir rings attached s tr u ks"
    and "dispatch (E\<lparr>en_now := now, en_dial := dial, en_connect := connect\<rparr>) default_dir req (u\<lparr>sn_out := []\<rparr>) = (t, stop)"
  shows "\<exists>tr' w p. run E default_dir rings attached s ((tr @ [(u, Came (rq_op req))]) @ tr') w
      (ks @ [\<lparr>tk_req = req, tk_out = sn_out t, tk_prog = Halt p\<rparr>])
    \<and> w\<lparr>sn_out := []\<rparr> = t\<lparr>sn_out := []\<rparr> \<and> set tr' \<subseteq> UNIV \<times> {Worked (rq_op req)}"
proof -
  let ?E = "E\<lparr>en_now := now, en_dial := dial, en_connect := connect\<rparr>"
  let ?k = "new_task ?E default_dir req"
  have c: "run E default_dir rings attached s (tr @ [(u, Came (rq_op req))]) u (ks @ [?k])"
    by (rule run_came[OF assms(1)])
  have "solo (serve_prog ?E default_dir req) (u\<lparr>sn_out := tk_out ((ks @ [?k]) ! length ks)\<rparr>) = (Inr (), t)"
    using uninterrupted[of ?E default_dir req "u\<lparr>sn_out := []\<rparr>"] assms(2) by (simp add: new_task_def)
  from run_solo[OF c _ _ this] show ?thesis by (simp add: new_task_def) blast
qed

text \<open>So the histories of one request after the other are among the runs.\<close>

lemma history_run:
  assumes "history E default_dir rings attached s tr t"
  shows "\<exists>tr' w ks. run E default_dir rings attached s tr' w ks \<and> w\<lparr>sn_out := []\<rparr> = t\<lparr>sn_out := []\<rparr>
    \<and> map (rq_op \<circ> tk_req) ks = concat (map (\<lambda>(_, m). case m of Served op \<Rightarrow> [op] | Elapsed \<Rightarrow> []) tr)
    \<and> (\<forall>k \<in> set ks. \<exists>r. tk_prog k = Halt r)"
  using assms
proof (induction rule: history.induct)
  case history_start
  then show ?case by (intro exI[of _ "[]"] exI[of _ s] exI[of _ "[]"]) (simp add: run_start)
next
  case (history_served tr u connect dial now req t stop)
  then obtain tr' w ks where w: "run E default_dir rings attached s tr' w ks" "w\<lparr>sn_out := []\<rparr> = u\<lparr>sn_out := []\<rparr>"
    "map (rq_op \<circ> tk_req) ks = concat (map (\<lambda>(_, m). case m of Served op \<Rightarrow> [op] | Elapsed \<Rightarrow> []) tr)"
    "\<forall>k \<in> set ks. \<exists>r. tk_prog k = Halt r" by blast
  from run_dispatch[OF w(1) history_served.hyps(2)[folded w(2)]] obtain tr2 w2 p where
    "run E default_dir rings attached s ((tr' @ [(w, Came (rq_op req))]) @ tr2) w2
      (ks @ [\<lparr>tk_req = req, tk_out = sn_out t, tk_prog = Halt p\<rparr>])" "w2\<lparr>sn_out := []\<rparr> = t\<lparr>sn_out := []\<rparr>" by blast
  with w(3,4) show ?case
    by (intro exI[of _ "(tr' @ [(w, Came (rq_op req))]) @ tr2"] exI[of _ w2]
        exI[of _ "ks @ [\<lparr>tk_req = req, tk_out = sn_out t, tk_prog = Halt p\<rparr>]"] conjI) (simp_all add: comp_def)
next
  case (history_elapsed tr u r disk)
  then obtain tr' w ks where w: "run E default_dir rings attached s tr' w ks" "w\<lparr>sn_out := []\<rparr> = u\<lparr>sn_out := []\<rparr>"
    "map (rq_op \<circ> tk_req) ks = concat (map (\<lambda>(_, m). case m of Served op \<Rightarrow> [op] | Elapsed \<Rightarrow> []) tr)"
    "\<forall>k \<in> set ks. \<exists>r. tk_prog k = Halt r" by blast
  from w(2) have reg: "nd_registry w = nd_registry u" by (metis session.select_convs(1) session.surjective session.update_convs(5))
  have "run E default_dir rings attached s (tr' @ [(w, Waited)]) (w\<lparr>nd_registry := r, nd_disk := disk\<rparr>) ks"
    using history_elapsed.hyps(2,3) by (intro run_waited[OF w(1)]) (simp_all add: reg)
  moreover have "w\<lparr>nd_registry := r, nd_disk := disk\<rparr>\<lparr>sn_out := []\<rparr> = u\<lparr>nd_registry := r, nd_disk := disk\<rparr>\<lparr>sn_out := []\<rparr>"
    using w(2) by (cases w; cases u) simp
  ultimately show ?case using w(3,4)
    by (intro exI[of _ "tr' @ [(w, Waited)]"] exI[of _ "w\<lparr>nd_registry := r, nd_disk := disk\<rparr>"] exI[of _ ks] conjI)
      (simp_all add: comp_def)
qed

section \<open>Properties\<close>

lemma sample_run:
  assumes "dispatch mem_env None \<lparr>rq_req_id = 0, rq_op = op\<rparr> sample_session = (t, stop)"
  shows "\<exists>tr w p. run mem_env None mem_rings mem_attached sample_session ((sample_session, Came op) # tr) w
      [\<lparr>tk_req = \<lparr>rq_req_id = 0, rq_op = op\<rparr>, tk_out = sn_out t, tk_prog = Halt p\<rparr>]
    \<and> w\<lparr>sn_out := []\<rparr> = t\<lparr>sn_out := []\<rparr> \<and> set tr \<subseteq> UNIV \<times> {Worked op}"
proof -
  from assms have "dispatch (mem_env\<lparr>en_now := 0, en_dial := sample_dial, en_connect := \<lambda>_. Inr mem_transfer\<rparr>) None
      \<lparr>rq_req_id = 0, rq_op = op\<rparr> (sample_session\<lparr>sn_out := []\<rparr>) = (t, stop)"
    by (simp only: mem_moment sample_fresh)
  from run_dispatch[OF run_start this] show ?thesis by simp
qed

definition came :: "('st \<times> happening) list \<Rightarrow> op set" where
  "came tr = {op. \<exists>u. (u, Came op) \<in> set tr}"

definition worked :: "('st \<times> happening) list \<Rightarrow> ('st \<times> op) set" where
  "worked tr = {(u, op). (u, Worked op) \<in> set tr}"

lemma confined_perm:
  assumes "confined rings attached gview pview M A G R s t" "perm \<in> perms_of (attached (nd_registry t) h n)"
  shows "perm \<in> perms_of (attached (nd_registry s) h n) \<or> perm = Read \<and> (h, n) \<in> A"
proof -
  from assms have "perm \<in> perms_of (attached (nd_registry s) h n) \<union> (if (h, n) \<in> A then {Read} else {})"
    unfolding confined_def by blast
  then show ?thesis by (auto split: if_splits)
qed

text \<open>
  C1: Access control under concurrency.  However the steps of any number of requests are
  interleaved, with memberships expiring and the disk changing in between: whoever may do
  something with a blob is in a ring that gives it, where the membership was there at the
  start or a request asked to add that very peer to that ring, and the permission was there
  at the start or is \<open>Read\<close> and an attach or import of that very blob to that ring was at
  work.  Every privilege was there or was granted by a request that named it and the peer.
\<close>
theorem concurrent_access_traceable:
  assumes "node_laws E rings attached gview gtview pview ptview"
    and "run E default_dir rings attached s tr t ks"
  shows "(allowed (rings (nd_registry t)) (attached (nd_registry t)) p h perm \<longrightarrow>
      (\<exists>n. (in_ring (rings (nd_registry s)) n p \<or> (\<exists>op \<in> came tr. (n, p) \<in> new_members E op)) \<and>
        (perm \<in> perms_of (attached (nd_registry s) h n) \<or>
          perm = Read \<and> (\<exists>(u, op) \<in> worked tr. (h, n) \<in> new_readers E op u)))) \<and>
    ((pr, p) \<in> grants_abs gview (nd_grants t) \<longrightarrow>
      (pr, p) \<in> grants_abs gview (nd_grants s) \<or> (\<exists>op \<in> came tr. (pr, p) \<in> new_grants E op))"
proof -
  let ?M = "\<Union>op \<in> came tr. new_members E op" and ?G = "\<Union>op \<in> came tr. new_grants E op"
  let ?A = "\<Union>(u, op) \<in> worked tr. new_readers E op u"
  have "\<forall>(u, m) \<in> set tr. (\<forall>op. m = Came op \<longrightarrow> new_members E op \<subseteq> ?M \<and> new_grants E op \<subseteq> ?G)
      \<and> (\<forall>op. m = Worked op \<longrightarrow> new_readers E op u \<subseteq> ?A)"
    by (auto simp: came_def worked_def)
  from node_laws.run_within[OF assms this] have w: "confined rings attached gview pview ?M ?A ?G UNIV s t" by blast
  have a: "perm \<in> perms_of (attached (nd_registry s) h n) \<or> perm = Read \<and> (h, n) \<in> ?A"
    if "perm \<in> perms_of (attached (nd_registry t) h n)" for n
    by (rule confined_perm[OF w that])
  have m: "in_ring (rings (nd_registry s)) n p \<or> (n, p) \<in> ?M" if "in_ring (rings (nd_registry t)) n p" for n
    using w that unfolding confined_def by blast
  have "(pr, p) \<in> grants_abs gview (nd_grants t) \<longrightarrow> (pr, p) \<in> grants_abs gview (nd_grants s) \<union> ?G"
    using w unfolding confined_def by blast
  moreover have "\<exists>n. (in_ring (rings (nd_registry s)) n p \<or> (n, p) \<in> ?M) \<and>
      (perm \<in> perms_of (attached (nd_registry s) h n) \<or> perm = Read \<and> (h, n) \<in> ?A)"
    if "allowed (rings (nd_registry t)) (attached (nd_registry t)) p h perm"
  proof -
    from that obtain n where "perm \<in> perms_of (attached (nd_registry t) h n)" "in_ring (rings (nd_registry t)) n p"
      unfolding allowed_iff by blast
    from a[OF this(1)] m[OF this(2)] show ?thesis by (intro exI[of _ n] conjI)
  qed
  ultimately show ?thesis by (simp add: case_prod_beta')
qed

lemma concurrent_access_traceable_witness:
  "\<exists>tr t ks. run mem_env None mem_rings mem_attached sample_session tr t ks
     \<and> allowed (mem_rings (nd_registry t)) (mem_attached (nd_registry t)) (EndpointId 6) 1 Read
     \<and> (\<exists>n. (in_ring (mem_rings (nd_registry sample_session)) n (EndpointId 6)
          \<or> (\<exists>op \<in> came tr. (n, EndpointId 6) \<in> new_members mem_env op)) \<and>
        (Read \<in> perms_of (mem_attached (nd_registry sample_session) 1 n)
          \<or> (\<exists>(u, op) \<in> worked tr. (1, n) \<in> new_readers mem_env op u)))"
proof -
  let ?op = "BlobAttach sample_target [] True"
  obtain t stop where t: "dispatch mem_env None \<lparr>rq_req_id = 0, rq_op = ?op\<rparr> sample_session = (t, stop)"
    by (cases "dispatch mem_env None \<lparr>rq_req_id = 0, rq_op = ?op\<rparr> sample_session")
  from sample_run[OF t] obtain tr w ks where
    r: "run mem_env None mem_rings mem_attached sample_session ((sample_session, Came ?op) # tr) w ks"
      "w\<lparr>sn_out := []\<rparr> = t\<lparr>sn_out := []\<rparr>" by blast
  from r(2) have "nd_registry w = nd_registry t" by (cases w; cases t) simp
  with sample_attach_open[OF t] have a: "allowed (mem_rings (nd_registry w)) (mem_attached (nd_registry w)) (EndpointId 6) 1 Read"
    by simp
  from concurrent_access_traceable[OF mem_node.node_laws_axioms r(1)] a
  have "\<exists>n. (in_ring (mem_rings (nd_registry sample_session)) n (EndpointId 6)
          \<or> (\<exists>op \<in> came ((sample_session, Came ?op) # tr). (n, EndpointId 6) \<in> new_members mem_env op)) \<and>
        (Read \<in> perms_of (mem_attached (nd_registry sample_session) 1 n)
          \<or> (\<exists>(u, op) \<in> worked ((sample_session, Came ?op) # tr). (1, n) \<in> new_readers mem_env op u))" by blast
  with r(1) a show ?thesis by blast
qed

text \<open>
  C8: However requests are interleaved, each has a reply of its own: while it is in progress
  its channel holds events of its id that do not end the reply, and once it has ended they
  are one complete reply, whose last and only last event is \<open>Done\<close> or \<open>Error\<close>.  No request
  can be kept from its end: from every state the requests in progress can be run to
  complete replies, and no schedule of their steps is infinite, whatever else changes the
  shared state in between.
\<close>
theorem concurrent_replies_complete:
  assumes "run E default_dir rings attached s tr t ks"
  shows "(\<forall>k \<in> set ks. case tk_prog k of Halt r \<Rightarrow> complete_reply (rq_req_id (tk_req k)) (tk_out k)
        | Step f \<Rightarrow> body_events (rq_req_id (tk_req k)) (tk_out k)) \<and>
    (\<exists>tr' t' ks'. run E default_dir rings attached s (tr @ tr') t' ks' \<and> map tk_req ks' = map tk_req ks \<and>
      (\<forall>k \<in> set ks'. complete_reply (rq_req_id (tk_req k)) (tk_out k))) \<and>
    wfp (any_step :: ('r, 'g, 'p, 's) task list \<Rightarrow> ('r, 'g, 'p, 's) task list \<Rightarrow> bool)"
proof (intro conjI ballI)
  fix k assume "k \<in> set ks"
  from run_answers[OF assms this] show "case tk_prog k of
      Halt r \<Rightarrow> complete_reply (rq_req_id (tk_req k)) (tk_out k) | Step f \<Rightarrow> body_events (rq_req_id (tk_req k)) (tk_out k)"
    by (auto elim: answers_HaltE answers_StepE split: prog.split)
next
  from run_to_end[OF assms] obtain tr' t' ks' where r: "run E default_dir rings attached s (tr @ tr') t' ks'"
    "map tk_req ks' = map tk_req ks" "\<forall>k \<in> set ks'. \<exists>r. tk_prog k = Halt r" by blast
  have "complete_reply (rq_req_id (tk_req k)) (tk_out k)" if k: "k \<in> set ks'" for k
  proof -
    from r(3) k obtain v where "tk_prog k = Halt v" by blast
    with run_answers[OF r(1) k] show ?thesis by (auto elim: answers_HaltE)
  qed
  with r(1,2) show "\<exists>tr' t' ks'. run E default_dir rings attached s (tr @ tr') t' ks' \<and> map tk_req ks' = map tk_req ks \<and>
      (\<forall>k \<in> set ks'. complete_reply (rq_req_id (tk_req k)) (tk_out k))" by blast
qed (rule wf_any_step)

lemma concurrent_replies_complete_witness:
  "\<exists>tr t ks. run mem_env None mem_rings mem_attached sample_session tr t ks
     \<and> map tk_req ks = [\<lparr>rq_req_id = 1, rq_op = RingList\<rparr>, \<lparr>rq_req_id = 2, rq_op = PeerRemove sample_id\<rparr>]
     \<and> (\<forall>k \<in> set ks. complete_reply (rq_req_id (tk_req k)) (tk_out k))"
proof -
  let ?r1 = "\<lparr>rq_req_id = 1, rq_op = RingList\<rparr>" and ?r2 = "\<lparr>rq_req_id = 2, rq_op = PeerRemove sample_id\<rparr>"
  have "\<exists>tr ks. run mem_env None mem_rings mem_attached sample_session tr sample_session ks \<and> map tk_req ks = [?r1, ?r2]"
    by (intro exI conjI) (rule run_came[where req = ?r2], rule run_came[where req = ?r1], rule run_start, simp add: new_task_def)
  then obtain tr ks where
    r: "run mem_env None mem_rings mem_attached sample_session tr sample_session ks" "map tk_req ks = [?r1, ?r2]"
    by (elim exE conjE)
  from concurrent_replies_complete[OF r(1)] r(2) show ?thesis by metis
qed

end
