(* ===== verification/Races.thy ===== *)
theory Races
  imports Interleaving
begin

text \<open>
  What two requests at once can do that no order of the two does.  \<open>PeerStore::ensure\<close>
  reads in one transaction and writes in another; a nickname set in between is overwritten.
\<close>

section \<open>The two requests one after the other\<close>

context node_laws
begin

lemma peer_add_nick:
  assumes "ir_parse_id (en_iroh E) str = Inr p"
  shows "\<exists>ps'. dispatch E default_dir \<lparr>rq_req_id = q, rq_op = PeerAdd str (Some nick)\<rparr> s
      = (s\<lparr>nd_peers := ps', sn_out := sn_out s @ [event_line q (''Peer '' @ ir_show_id (en_iroh E) p @ '' added ('' @ nick @ '')''),
           event_record q (JObj [(''peer_id'', JStr str), (''nickname'', json_opt JStr (Some nick))]), event_done q]\<rparr>, False)
    \<and> peers_abs pview ps' = (peers_abs pview (nd_peers s))(p \<mapsto> norm_nick (Some nick))"
proof -
  from ps.upsert[of p "Some nick" "nd_peers s"] obtain ps' where
    ps': "peers_upsert (en_peers E) p (Some nick) (nd_peers s) = Inr ps'"
      "peers_abs pview ps' = (peers_abs pview (nd_peers s))(p \<mapsto> norm_nick (Some nick))" by blast
  with assms show ?thesis
    by (intro exI[of _ ps'])
      (simp add: parse_peer_id_def dispatch_def peer_add_lines_def bindA_def thenA_def act_apply peersU_def updA_def send_run send_lines_run)
qed

lemma ring_add_keeps_nick:
  assumes "ir_parse_id (en_iroh E) str = Inr p" "ring \<noteq> OPEN_RING_NAME" "peers_abs pview (nd_peers s) p = Some nick"
    and "dispatch E default_dir \<lparr>rq_req_id = q, rq_op = RingAdd ring str ex\<rparr> s = (t, stop)"
  shows "peers_abs pview (nd_peers t) p = Some nick"
proof -
  obtain r u where run: "ring_add_lines E (ea_id (en_addr E)) ring str ex s = (r, u)"
    by (cases "ring_add_lines E (ea_id (en_addr E)) ring str ex s")
  have t: "nd_peers t = nd_peers u"
    using dispatch_state[OF assms(4)] send_ok_state[of "ring_add_lines E (ea_id (en_addr E)) ring str ex" s r u q] run
    by (cases "send_ok q (ring_add_lines E (ea_id (en_addr E)) ring str ex) s") simp
  show ?thesis
  proof (cases r)
    case (Inl e)
    with ring_add_fails[of "ea_id (en_addr E)" ring str ex s e u] run t assms(3) show ?thesis by simp
  next
    case (Inr lines)
    from ring_add_ok[OF run[unfolded Inr] assms(2)] assms(1,3) t show ?thesis by auto
  qed
qed

end

section \<open>The two requests at once\<close>

text \<open>Adding a peer to a ring, cut between the read and the write of \<open>ensure\<close>.\<close>

definition after_read ::
    "('r, 'g, 'gt, 'p, 'pt, 's) env \<Rightarrow> uuid \<Rightarrow> endpoint_id \<Rightarrow> ring \<Rightarrow> (('r, 'g, 'p, 's) session, unit) prog" where
  "after_read E q p ring = orelseP
     (bindP (thenP (atomP (peersU (peers_upsert (en_peers E) p None)))
         (retP [''Added '' @ ir_show_id (en_iroh E) p @ '' to ring '' @ ring]))
       (\<lambda>lines. thenP (atomP (send_lines q lines)) (atomP (send (event_done q)))))
     (\<lambda>e. atomP (send (event_error q (err_to_string e))))"

lemma run_one:
  assumes "run E default_dir rings attached s tr u [k]" "task_step k u = Some (k', v)"
  shows "\<exists>tr'. run E default_dir rings attached s tr' v [k']"
proof -
  have "task_step ([k] ! 0) u = Some (k', v)" using assms(2) by simp
  from run_worked[OF assms(1) _ this] show ?thesis by auto
qed

context node_laws
begin

lemma solo_after_read:
  "\<exists>ps'. solo (after_read E q p ring) s
      = (Inr (), s\<lparr>nd_peers := ps', sn_out := sn_out s @ [event_line q (''Added '' @ ir_show_id (en_iroh E) p @ '' to ring '' @ ring), event_done q]\<rparr>)
    \<and> peers_abs pview ps' = (peers_abs pview (nd_peers s))(p \<mapsto> None)"
proof -
  from ps.upsert[of p None "nd_peers s"] obtain ps' where
    "peers_upsert (en_peers E) p None (nd_peers s) = Inr ps'" "peers_abs pview ps' = (peers_abs pview (nd_peers s))(p \<mapsto> None)"
    by (auto simp: norm_nick_def)
  then show ?thesis
    by (intro exI[of _ ps']) (simp add: after_read_def solo_orelse solo_rules bindA_def thenA_def act_apply peersU_def
        updA_def send_run send_lines_run)
qed

lemma run_to_read:
  assumes "ir_parse_id (en_iroh E) str = Inr p" "p \<noteq> ea_id (en_addr E)" "ring \<noteq> OPEN_RING_NAME"
    and "rg_add_peer_to_ring (en_registry E) (nd_registry s) ring p None None = Inr r"
    and "peers_abs pview (nd_peers s) p = None"
  shows "\<exists>tr. run E default_dir rings attached s tr (s\<lparr>nd_registry := r, sn_out := []\<rparr>)
    [\<lparr>tk_req = \<lparr>rq_req_id = q, rq_op = RingAdd ring str None\<rparr>, tk_out = [], tk_prog = after_read E q p ring\<rparr>]"
proof -
  let ?E = "E\<lparr>en_now := en_now E, en_dial := en_dial E, en_connect := en_connect E\<rparr>"
  let ?req = "\<lparr>rq_req_id = q, rq_op = RingAdd ring str None\<rparr>"
  have E: "?E = E" by simp
  have came: "run E default_dir rings attached s ([] @ [(s, Came (rq_op ?req))]) s ([] @ [new_task ?E default_dir ?req])"
    by (rule run_came[OF run_start])
  let ?k = "new_task E default_dir ?req"
  let ?rest = "\<lambda>m. orelseP (bindP (thenP m (retP [''Added '' @ ir_show_id (en_iroh E) p @ '' to ring '' @ ring]))
      (\<lambda>lines. thenP (atomP (send_lines q lines)) (atomP (send (event_done q)))))
     (\<lambda>e. atomP (send (event_error q (err_to_string e))))"
  let ?k1 = "?k\<lparr>tk_prog := ?rest (ensure_prog E p)\<rparr>" and ?s1 = "s\<lparr>nd_registry := r, sn_out := []\<rparr>"
  have add: "task_step ?k s = Some (?k1, ?s1)"
    using assms(1-4) by (simp add: parse_peer_id_def task_step_def new_task_def serve_prog_def send_ok_prog_def ring_add_prog_def
        liftP_def thenP_def atomP_def registryU_run)
  have read: "rd_read = Inr None" if "rd_read = with_read (en_peers E) ''beginning peer ensure read'' ''opening peers table''
      (\<lambda>t. ctxs ''querying peer'' (rd_get (en_peers E) t (peer_key p))) (nd_peers s)" for rd_read
    using assms(5) unfolding that by (simp add: ps.get_ok peers_abs_None[symmetric])
  have look: "task_step ?k1 ?s1 = Some (?k1\<lparr>tk_prog := after_read E q p ring\<rparr>, ?s1)"
    by (simp add: task_step_def new_task_def ensure_prog_def after_read_def atomP_def thenP_def peersQ_def queryA_run
        read[OF refl])
  from came have "run E default_dir rings attached s [(s, Came (rq_op ?req))] s [?k]" by simp
  from run_one[OF this add] obtain tr' where "run E default_dir rings attached s tr' ?s1 [?k1]" by blast
  from run_one[OF this look] show ?thesis by (simp add: new_task_def)
qed

lemma serial_nick:
  assumes "ir_parse_id (en_iroh E) str = Inr p" "ring \<noteq> OPEN_RING_NAME" "nick \<noteq> []"
  shows "\<forall>(first, second) \<in> {(\<lparr>rq_req_id = qa, rq_op = RingAdd ring str ex\<rparr>, \<lparr>rq_req_id = qb, rq_op = PeerAdd str (Some nick)\<rparr>),
      (\<lparr>rq_req_id = qb, rq_op = PeerAdd str (Some nick)\<rparr>, \<lparr>rq_req_id = qa, rq_op = RingAdd ring str ex\<rparr>)}. \<forall>u a t b.
    dispatch E default_dir first s = (u, a) \<longrightarrow> dispatch E default_dir second (u\<lparr>sn_out := []\<rparr>) = (t, b) \<longrightarrow>
    peers_abs pview (nd_peers t) p = Some (Some nick)"
proof -
  have add: "peers_abs pview (nd_peers t) p = Some (Some nick)"
    if "dispatch E default_dir \<lparr>rq_req_id = q, rq_op = PeerAdd str (Some nick)\<rparr> v = (t, b)" for q v t b
  proof -
    from peer_add_nick[OF assms(1), of default_dir q nick v] that
    have "peers_abs pview (nd_peers t) = (peers_abs pview (nd_peers v))(p \<mapsto> norm_nick (Some nick))" by auto
    with assms(3) show ?thesis by (simp add: norm_nick_def)
  qed
  have keep: "peers_abs pview (nd_peers t) p = Some (Some nick)"
    if "peers_abs pview (nd_peers v) p = Some (Some nick)"
      "dispatch E default_dir \<lparr>rq_req_id = q, rq_op = RingAdd ring str ex\<rparr> (v\<lparr>sn_out := []\<rparr>) = (t, b)" for q v t b
    using ring_add_keeps_nick[OF assms(1,2) _ that(2)] that(1) by simp
  from add keep show ?thesis by blast
qed

lemma race_nick:
  assumes "ir_parse_id (en_iroh E) str = Inr p" "p \<noteq> ea_id (en_addr E)" "ring \<noteq> OPEN_RING_NAME"
    and "rg_add_peer_to_ring (en_registry E) (nd_registry s) ring p None None = Inr r"
    and "peers_abs pview (nd_peers s) p = None"
  shows "\<exists>tr t k1 k2. run E default_dir rings attached s tr t [k1, k2]
    \<and> tk_req k1 = \<lparr>rq_req_id = qa, rq_op = RingAdd ring str None\<rparr> \<and> tk_req k2 = \<lparr>rq_req_id = qb, rq_op = PeerAdd str (Some nick)\<rparr>
    \<and> last (tk_out k1) = event_done qa \<and> last (tk_out k2) = event_done qb \<and> peers_abs pview (nd_peers t) p = Some None"
proof -
  let ?E = "E\<lparr>en_now := en_now E, en_dial := en_dial E, en_connect := en_connect E\<rparr>"
  let ?add = "\<lparr>rq_req_id = qa, rq_op = RingAdd ring str None\<rparr>"
  let ?name = "\<lparr>rq_req_id = qb, rq_op = PeerAdd str (Some nick)\<rparr>"
  let ?k = "\<lparr>tk_req = ?add, tk_out = [], tk_prog = after_read E qa p ring\<rparr>"
  let ?s1 = "s\<lparr>nd_registry := r, sn_out := []\<rparr>"
  from run_to_read[OF assms, of default_dir qa] obtain tr where tr: "run E default_dir rings attached s tr ?s1 [?k]" by blast
  obtain t b where t: "dispatch E default_dir ?name (?s1\<lparr>sn_out := []\<rparr>) = (t, b)" by (cases "dispatch E default_dir ?name (?s1\<lparr>sn_out := []\<rparr>)")
  from peer_add_nick[OF assms(1), of default_dir qb nick "?s1\<lparr>sn_out := []\<rparr>"] t
  have named: "last (sn_out t) = event_done qb" by auto
  from t have "dispatch ?E default_dir ?name (?s1\<lparr>sn_out := []\<rparr>) = (t, b)" by simp
  from run_dispatch[OF tr this] obtain tr2 w x where w: "run E default_dir rings attached s tr2 w
      [?k, \<lparr>tk_req = ?name, tk_out = sn_out t, tk_prog = Halt x\<rparr>]" by auto
  from solo_after_read[of qa p ring "w\<lparr>sn_out := []\<rparr>"] obtain ps' where
    rest: "solo (after_read E qa p ring) (w\<lparr>sn_out := []\<rparr>)
      = (Inr (), w\<lparr>nd_peers := ps', sn_out := [event_line qa (''Added '' @ ir_show_id (en_iroh E) p @ '' to ring '' @ ring), event_done qa]\<rparr>)"
    and lost: "peers_abs pview ps' = (peers_abs pview (nd_peers w))(p \<mapsto> None)" by auto
  from run_solo[OF w, of 0 "after_read E qa p ring" "Inr ()"] rest obtain tr3 v where
    "run E default_dir rings attached s tr3 v [?k\<lparr>tk_out := [event_line qa (''Added '' @ ir_show_id (en_iroh E) p @ '' to ring '' @ ring),
        event_done qa], tk_prog := Halt (Inr ())\<rparr>, \<lparr>tk_req = ?name, tk_out = sn_out t, tk_prog = Halt x\<rparr>]"
    "v\<lparr>sn_out := []\<rparr> = w\<lparr>nd_peers := ps', sn_out := []\<rparr>" by auto
  moreover from this(2) have "nd_peers v = ps'" by (cases v; cases w) simp
  ultimately show ?thesis using lost named by fastforce
qed

end

text \<open>
  C22: Two requests at once: a \<open>ring add\<close> and a \<open>peer add\<close> with a nickname, for a peer that
  the address book does not know.  Whichever of the two is served first, the nickname is
  there when both are done.  Interleaved they can both succeed and leave the peer without
  a nickname: \<open>ensure\<close>, which must keep an existing nickname, looks and writes in two
  transactions, and its write overwrites what the other request wrote in between.
\<close>
theorem ring_add_loses_nickname:
  assumes "node_laws E rings attached gview gtview pview ptview"
    and "ir_parse_id (en_iroh E) str = Inr p" "p \<noteq> ea_id (en_addr E)" "ring \<noteq> OPEN_RING_NAME" "nick \<noteq> []"
    and "rg_add_peer_to_ring (en_registry E) (nd_registry s) ring p None None = Inr r"
    and "peers_abs pview (nd_peers s) p = None"
    and "add = \<lparr>rq_req_id = 1, rq_op = RingAdd ring str None\<rparr>"
    and "name = \<lparr>rq_req_id = 2, rq_op = PeerAdd str (Some nick)\<rparr>"
  shows "(\<forall>(first, second) \<in> {(add, name), (name, add)}. \<forall>u a t b.
        dispatch E default_dir first s = (u, a) \<longrightarrow> dispatch E default_dir second (u\<lparr>sn_out := []\<rparr>) = (t, b) \<longrightarrow>
        peers_abs pview (nd_peers t) p = Some (Some nick)) \<and>
    (\<exists>tr t k1 k2. run E default_dir rings attached s tr t [k1, k2] \<and> tk_req k1 = add \<and> tk_req k2 = name \<and>
        last (tk_out k1) = event_done 1 \<and> last (tk_out k2) = event_done 2 \<and>
        peers_abs pview (nd_peers t) p = Some None)"
  using node_laws.serial_nick[OF assms(1,2,4,5), of 1 None 2 default_dir s] node_laws.race_nick[OF assms(1-4,6,7), where nick = nick and qa = 1 and qb = 2 and default_dir = default_dir]
  unfolding assms(8,9) by blast

lemma ring_add_loses_nickname_witness:
  "\<exists>tr t k1 k2. run mem_env None mem_rings mem_attached sample_session tr t [k1, k2]
     \<and> last (tk_out k1) = event_done 1 \<and> last (tk_out k2) = event_done 2
     \<and> peers_abs map_of (nd_peers t) (EndpointId 6) = Some None"
proof -
  let ?str = "hex_encode (id_bytes (EndpointId 6))"
  have p: "ir_parse_id (en_iroh mem_env) ?str = Inr (EndpointId 6)" by (simp add: id_bytes_def)
  have o: "EndpointId 6 \<noteq> ea_id (en_addr mem_env)" "''friends'' \<noteq> OPEN_RING_NAME" "''bob'' \<noteq> []"
    by (simp_all add: sample_addr_def addr_new_def OPEN_RING_NAME_def)
  obtain r where r: "rg_add_peer_to_ring (en_registry mem_env) (nd_registry sample_session) ''friends'' (EndpointId 6) None None = Inr r"
    by (simp add: mem_registry_def)
  have k: "peers_abs map_of (nd_peers sample_session) (EndpointId 6) = None"
    by (simp add: sample_session_def sample_peers_def peers_abs_def)
  from ring_add_loses_nickname[OF mem_node.node_laws_axioms p o r k refl refl, of None] show ?thesis by blast
qed

end
