(* ===== verification/Banner.thy ===== *)
theory Banner
  imports Util
begin

text \<open>
  The startup banner (\<open>print_banner\<close> of \<open>src/src/util.rs\<close>) as the lines it prints.  Whether
  standard output takes colours is an argument.  The two drawings are ASCII, so their bytes
  are their columns.
\<close>

definition backslash :: string where "backslash = [CHR 0x5C]"

definition giraffe_lines :: "string list" where
  "giraffe_lines = [
     ''     .          .l'.        .     .     '',
     ''      .   . .  ..lO'..                 .'',
     ''               .,lod..   ....           '',
     ''      .        ..ooO:.....Oood...  .    '',
     ''. .          ....,0xoodxlllk...      .. '',
     ''  .     ....cdlollllllooo0.....  .    ..'',
     ''       ..,dlll . oK . oKKK:..           '',
     ''     ..clolll__l,NX__lloll0..      . .  '',
     ''  ...0olollooloooxKKKKooxlO..          .'',
     '' .ooloooKKKKXlooooXKxllKKKx..      .    '',
     ''..llxllollkKkOloKKKKKolXKKl..           '',
     ''..xddXkkkkO0olloKXXdlllloK:.. .  .   .  '',
     ''..olkkkNKoKKKlx'....ddKK0l:.       ..   '',
     '' .cxdoll0:.......  .lllodoc.      ... . '',
     ''  ......... .    . .cK0oKKl..    .....  '',
     ''         .         .,KKkKKc..   ......  '',
     ''                 . .:loxolc........... .'',
     ''      .        .   ..odKKl:..  .......  '',
     ''        .     ..   ..KXlKKO..  .......  '',
     ''                  ..'KKdlXo..  ....... .'']"

definition ringdrop_lines :: "string list" where
  "ringdrop_lines = [
     ''      _                 _                 '',
     ''     (_)               | |                '',
     '' _ __ _ _ __   __ _  __| |_ __ ___  _ __  '',
     ''| '__| | '_ '' @ backslash @ '' / _` |/ _` | '__/ _ '' @ backslash @ ''| '_ '' @ backslash @ '' '',
     ''| |  | | | | | (_| | (_| | | | (_) | |_) |'',
     ''|_|  |_|_| |_|'' @ backslash @ ''__, |'' @ backslash @ ''__,_|_|  '' @ backslash @ ''___/| .__/ '',
     ''               __/ |               | |    '',
     ''              |___/                |_|    '']"

definition TEXT_START :: nat where "TEXT_START = 6"
definition GIRAFFE_COLS :: nat where "GIRAFFE_COLS = 38"
definition YELLOW :: string where "YELLOW = ESC # ''[93m''"
definition RESET :: string where "RESET = ESC # ''[0m''"

text \<open>\<open>trim_end\<close> on ASCII text, and padding to a width.\<close>

definition trim_end :: "string \<Rightarrow> string" where
  "trim_end s = rev (dropWhile (\<lambda>c. c = CHR '' '') (rev s))"

definition pad_to :: "nat \<Rightarrow> string \<Rightarrow> string" where
  "pad_to n s = s @ replicate (n - length s) CHR '' ''"

definition banner_text :: "nat \<Rightarrow> string option" where
  "banner_text i = (if i < TEXT_START then None
     else if i - TEXT_START < length ringdrop_lines then Some (ringdrop_lines ! (i - TEXT_START)) else None)"

definition banner_line :: "bool \<Rightarrow> nat \<Rightarrow> string \<Rightarrow> string" where
  "banner_line colored i giraffe_line =
     (let giraffe_display = take (min (length giraffe_line) GIRAFFE_COLS) giraffe_line;
          padded = pad_to GIRAFFE_COLS (trim_end giraffe_display) in
      if colored then (case banner_text i of
          Some t \<Rightarrow> YELLOW @ padded @ RESET @ rainbow_line t
        | None \<Rightarrow> YELLOW @ giraffe_display @ RESET)
      else (case banner_text i of Some t \<Rightarrow> padded @ t | None \<Rightarrow> giraffe_display))"

definition print_banner :: "bool \<Rightarrow> string \<Rightarrow> string list" where
  "print_banner colored version =
     map (\<lambda>(i, l). banner_line colored i l) (enumerate 0 giraffe_lines)
     @ [[], (if colored then ''  '' @ YELLOW @ ''v'' @ version @ RESET else ''  v'' @ version), []]"

section \<open>The layout\<close>

text \<open>Every line of the drawing fits a terminal of 80 columns.\<close>

lemma drawing_widths:
  "\<forall>l \<in> set giraffe_lines. length l = 40" "\<forall>l \<in> set ringdrop_lines. length l \<le> 42"
  by (simp_all add: giraffe_lines_def ringdrop_lines_def backslash_def)

lemma banner_line_width:
  assumes "length l = 40"
  shows "length (banner_line False i l) \<le> 80"
proof -
  have trimmed: "length (trim_end s) \<le> length s" for s
    using length_dropWhile_le[of "\<lambda>c. c = CHR '' ''" "rev s"] by (simp add: trim_end_def)
  have pad: "length (pad_to 38 (trim_end (take 38 l))) = 38"
    using trimmed[of "take 38 l"] assms by (simp add: pad_to_def)
  have "length t \<le> 42" if "banner_text i = Some t" for t
    using that drawing_widths(2) by (auto simp: banner_text_def split: if_splits)
  with pad assms show ?thesis
    by (auto simp: banner_line_def GIRAFFE_COLS_def Let_def split: option.split)
qed

lemma banner_fits:
  assumes "length version \<le> 77"
  shows "\<forall>l \<in> set (print_banner False version). length l \<le> 80"
proof -
  have "length (banner_line False i l) \<le> 80" if "(i, l) \<in> set (enumerate 0 giraffe_lines)" for i l
    using that drawing_widths(1) by (intro banner_line_width) (auto simp: in_set_enumerate_eq)
  with assms show ?thesis by (auto simp: print_banner_def)
qed

section \<open>Colours\<close>

text \<open>Without its escape sequences the coloured banner is the plain one.\<close>

lemma strip_plain: "ESC \<notin> set s \<Longrightarrow> strip_ansi False (s @ rest) = s @ strip_ansi False rest"
  by (induction s) auto

lemma strip_codes: "strip_ansi False (YELLOW @ rest) = strip_ansi False rest" "strip_ansi False (RESET @ rest) = strip_ansi False rest"
  by (simp_all add: YELLOW_def RESET_def ESC_def)

lemma drawing_plain: "\<forall>l \<in> set giraffe_lines. ESC \<notin> set l" "\<forall>l \<in> set ringdrop_lines. ESC \<notin> set l"
  by (simp_all add: giraffe_lines_def ringdrop_lines_def backslash_def ESC_def)

lemma banner_line_colours:
  assumes "ESC \<notin> set l"
  shows "strip_ansi False (banner_line True i l) = banner_line False i l"
proof -
  have "set (trim_end s) \<subseteq> set s" for s
    unfolding trim_end_def by (metis set_dropWhileD set_rev subsetI)
  then have "ESC \<notin> set (trim_end (take n l))" for n using assms set_take_subset[of n l] by blast
  then have padded: "ESC \<notin> set (pad_to GIRAFFE_COLS (trim_end (take n l)))" for n
    by (auto simp: pad_to_def ESC_def)
  have shown: "ESC \<notin> set (take n l)" for n using assms set_take_subset[of n l] by blast
  show ?thesis
  proof (cases "banner_text i")
    case None
    with strip_plain[OF shown, of _ RESET] strip_codes(2)[of "[]"] show ?thesis
      by (simp add: banner_line_def Let_def strip_codes)
  next
    case (Some t)
    then have "ESC \<notin> set t" using drawing_plain(2) by (auto simp: banner_text_def split: if_splits)
    with Some show ?thesis
      by (simp add: banner_line_def Let_def strip_codes strip_plain[OF padded] rainbow_line_strip)
  qed
qed

end
