(* ===== verification/Lifecycle.thy ===== *)
theory Lifecycle
  imports Protocol
begin

text \<open>
  The event loop of the daemon (\<open>DaemonServer::run\<close> of \<open>src/src/daemon/server/mod.rs\<close>) as a
  step relation: connections are accepted as tasks of a \<open>JoinSet\<close>; each reads one
  request and starts a detached task for the operation, which holds a reference to the
  node; a shutdown request wakes the loop, which drains the connection tasks for at most
  30 seconds, aborts the rest, and takes the node out of its reference count.
\<close>

section \<open>States\<close>

text \<open>A connection waits for its request or forwards events; an operation is running, or has
  dropped its sender and is about to drop its reference to the node.\<close>

datatype conn = Reading | Forwarding

datatype job = Running op | Sent

datatype phase = Accepting | Draining | Aborting | Unwrapping | Closing
  | Ended "unit result" | AcceptFailed | Panicked

text \<open>The task of a connection and that of its operation carry the same number.\<close>

record server =
  sv_phase :: phase
  sv_conns :: "(nat \<times> conn) list"
  sv_jobs :: "(nat \<times> job) list"
  sv_permit :: bool
  sv_next :: nat

definition server_start :: server where
  "server_start = \<lparr>sv_phase = Accepting, sv_conns = [], sv_jobs = [], sv_permit = False, sv_next = 0\<rparr>"

fun final_phase :: "phase \<Rightarrow> bool" where
  "final_phase (Ended _) = True"
| "final_phase AcceptFailed = True"
| "final_phase Panicked = True"
| "final_phase _ = False"

definition without :: "nat \<Rightarrow> (nat \<times> 'a) list \<Rightarrow> (nat \<times> 'a) list" where
  "without i xs = filter (\<lambda>x. fst x \<noteq> i) xs"

section \<open>Steps\<close>

inductive sv_step :: "server \<Rightarrow> server \<Rightarrow> bool" where
  accept: "sv_phase s = Accepting \<Longrightarrow>
    sv_step s (s\<lparr>sv_conns := (sv_next s, Reading) # sv_conns s, sv_next := Suc (sv_next s)\<rparr>)"
| accept_error: "sv_phase s = Accepting \<Longrightarrow> sv_step s (s\<lparr>sv_phase := AcceptFailed, sv_conns := []\<rparr>)"
| notice: "sv_phase s = Accepting \<Longrightarrow> sv_permit s \<Longrightarrow> sv_step s (s\<lparr>sv_phase := Draining, sv_permit := False\<rparr>)"
| refuse: "\<not> final_phase (sv_phase s) \<Longrightarrow> (i, Reading) \<in> set (sv_conns s) \<Longrightarrow>
    sv_step s (s\<lparr>sv_conns := without i (sv_conns s)\<rparr>)"
| request: "\<not> final_phase (sv_phase s) \<Longrightarrow> (i, Reading) \<in> set (sv_conns s) \<Longrightarrow>
    sv_step s (s\<lparr>sv_conns := (i, Forwarding) # without i (sv_conns s), sv_jobs := (i, Running op) # sv_jobs s\<rparr>)"
| finish: "\<not> final_phase (sv_phase s) \<Longrightarrow> (i, Running op) \<in> set (sv_jobs s) \<Longrightarrow>
    sv_step s (s\<lparr>sv_jobs := (i, Sent) # without i (sv_jobs s), sv_permit := (sv_permit s \<or> op = Shutdown)\<rparr>)"
| release: "\<not> final_phase (sv_phase s) \<Longrightarrow> (i, Sent) \<in> set (sv_jobs s) \<Longrightarrow>
    sv_step s (s\<lparr>sv_jobs := without i (sv_jobs s)\<rparr>)"
| end_of_stream: "\<not> final_phase (sv_phase s) \<Longrightarrow> (i, Forwarding) \<in> set (sv_conns s) \<Longrightarrow>
    (\<And>op. (i, Running op) \<notin> set (sv_jobs s)) \<Longrightarrow> sv_step s (s\<lparr>sv_conns := without i (sv_conns s)\<rparr>)"
| hang_up: "\<not> final_phase (sv_phase s) \<Longrightarrow> (i, Forwarding) \<in> set (sv_conns s) \<Longrightarrow>
    sv_step s (s\<lparr>sv_conns := without i (sv_conns s)\<rparr>)"
| drained: "sv_phase s = Draining \<Longrightarrow> sv_conns s = [] \<Longrightarrow> sv_step s (s\<lparr>sv_phase := Unwrapping\<rparr>)"
| time_out: "sv_phase s = Draining \<Longrightarrow> sv_step s (s\<lparr>sv_phase := Aborting\<rparr>)"
| abort: "sv_phase s = Aborting \<Longrightarrow> (i, c) \<in> set (sv_conns s) \<Longrightarrow>
    sv_step s (s\<lparr>sv_conns := without i (sv_conns s)\<rparr>)"
| aborted: "sv_phase s = Aborting \<Longrightarrow> sv_conns s = [] \<Longrightarrow> sv_step s (s\<lparr>sv_phase := Unwrapping\<rparr>)"
| unwrap: "sv_phase s = Unwrapping \<Longrightarrow> sv_jobs s = [] \<Longrightarrow> sv_step s (s\<lparr>sv_phase := Closing\<rparr>)"
| panic: "sv_phase s = Unwrapping \<Longrightarrow> sv_jobs s \<noteq> [] \<Longrightarrow> sv_step s (s\<lparr>sv_phase := Panicked\<rparr>)"
| node_shutdown: "sv_phase s = Closing \<Longrightarrow> sv_step s (s\<lparr>sv_phase := Ended r\<rparr>)"

inductive_cases sv_stepE [elim]: "sv_step s t"

abbreviation sv_steps :: "server \<Rightarrow> server \<Rightarrow> bool" where
  "sv_steps \<equiv> sv_step\<^sup>*\<^sup>*"

definition reachable :: "server \<Rightarrow> bool" where
  "reachable s \<longleftrightarrow> sv_steps server_start s"

lemma reachable_start: "reachable server_start"
  by (simp add: reachable_def)

lemma reachable_step: "reachable s \<Longrightarrow> sv_step s t \<Longrightarrow> reachable t"
  unfolding reachable_def by (rule rtranclp.rtrancl_into_rtrancl)

lemma reachable_induct [consumes 1, case_names start step]:
  assumes "reachable s" "P server_start" "\<And>s t. reachable s \<Longrightarrow> P s \<Longrightarrow> sv_step s t \<Longrightarrow> P t"
  shows "P s"
  using assms(1) unfolding reachable_def
  by (induction rule: rtranclp_induct) (use assms(2,3) in \<open>auto simp: reachable_def\<close>)

section \<open>The invariant\<close>

definition numbered :: "server \<Rightarrow> bool" where
  "numbered s \<longleftrightarrow> distinct (map fst (sv_conns s)) \<and> distinct (map fst (sv_jobs s))
     \<and> (\<forall>i c. (i, c) \<in> set (sv_conns s) \<longrightarrow> i < sv_next s) \<and> (\<forall>i j. (i, j) \<in> set (sv_jobs s) \<longrightarrow> i < sv_next s)
     \<and> (\<forall>i j. (i, Reading) \<in> set (sv_conns s) \<longrightarrow> (i, j) \<notin> set (sv_jobs s))"

fun phase_ok :: "server \<Rightarrow> bool" where
  "phase_ok s \<longleftrightarrow> (case sv_phase s of
     Accepting \<Rightarrow> True | Draining \<Rightarrow> True | Aborting \<Rightarrow> True
   | Closing \<Rightarrow> sv_conns s = [] \<and> sv_jobs s = []
   | Ended _ \<Rightarrow> sv_conns s = [] \<and> sv_jobs s = []
   | Panicked \<Rightarrow> sv_conns s = [] \<and> sv_jobs s \<noteq> []
   | _ \<Rightarrow> sv_conns s = [])"

lemma without_simps [simp]: "without i [] = []" "set (without i xs) = {x \<in> set xs. fst x \<noteq> i}"
  "fst ` {x \<in> set xs. fst x \<noteq> i} = fst ` set xs - {i}"
  by (auto simp: without_def)

lemma distinct_without: "distinct (map fst xs) \<Longrightarrow> distinct (map fst (without i xs))"
  unfolding without_def by (rule distinct_map_filter)

lemma phase_ok_step: "sv_step s t \<Longrightarrow> phase_ok s \<Longrightarrow> phase_ok t"
  by (induction rule: sv_step.induct) (auto split: phase.splits)

lemma numbered_step: "sv_step s t \<Longrightarrow> numbered s \<Longrightarrow> numbered t"
proof (induction rule: sv_step.induct)
  case (accept s)
  then show ?case by (fastforce simp: numbered_def intro: less_SucI)
next
  case (request s i op)
  then show ?case by (fastforce simp: numbered_def distinct_without)
next
  case (finish s i op)
  then show ?case by (fastforce simp: numbered_def distinct_without)
qed (auto simp: numbered_def distinct_without)

lemma reachable_phase_ok: "reachable s \<Longrightarrow> phase_ok s"
  by (induction rule: reachable_induct) (simp add: server_start_def, rule phase_ok_step)

lemma reachable_numbered: "reachable s \<Longrightarrow> numbered s"
  by (induction rule: reachable_induct) (simp add: server_start_def numbered_def, rule numbered_step)

section \<open>Winding down\<close>

text \<open>Once the loop has left its first phase, the steps that remain are bounded.\<close>

fun conn_weight :: "conn \<Rightarrow> nat" where
  "conn_weight Reading = 4"
| "conn_weight Forwarding = 1"

fun job_weight :: "job \<Rightarrow> nat" where
  "job_weight (Running _) = 2"
| "job_weight Sent = 1"

fun phase_weight :: "phase \<Rightarrow> nat" where
  "phase_weight Accepting = 5"
| "phase_weight Draining = 4"
| "phase_weight Aborting = 3"
| "phase_weight Unwrapping = 2"
| "phase_weight Closing = 1"
| "phase_weight _ = 0"

definition weight :: "server \<Rightarrow> nat" where
  "weight s = sum_list (map (conn_weight \<circ> snd) (sv_conns s)) + sum_list (map (job_weight \<circ> snd) (sv_jobs s))
     + phase_weight (sv_phase s)"

lemma sum_without:
  fixes f :: "nat \<times> 'a \<Rightarrow> nat"
  shows "(i, x) \<in> set xs \<Longrightarrow> sum_list (map f (without i xs)) + f (i, x) \<le> sum_list (map f xs)"
proof (induction xs)
  case (Cons y ys)
  have le: "sum_list (map f (without i ys)) \<le> sum_list (map f ys)"
    unfolding without_def by (induction ys) auto
  show ?case
  proof (cases "y = (i, x)")
    case True
    with le show ?thesis by (simp add: without_def)
  next
    case False
    with Cons show ?thesis by (auto simp: without_def)
  qed
qed simp

text \<open>The loop goes through its phases in one direction.\<close>

instantiation phase :: preorder
begin

definition less_eq_phase :: "phase \<Rightarrow> phase \<Rightarrow> bool" where
  "less_eq_phase p q \<longleftrightarrow> phase_weight q \<le> phase_weight p"

definition less_phase :: "phase \<Rightarrow> phase \<Rightarrow> bool" where
  "less_phase p q \<longleftrightarrow> phase_weight q < phase_weight p"

instance by standard (auto simp: less_eq_phase_def less_phase_def)

end

lemma phase_forward: "sv_step s t \<Longrightarrow> sv_phase s \<le> sv_phase t"
  by (induction rule: sv_step.induct) (auto simp: less_eq_phase_def)

lemma phases_forward: "sv_steps s t \<Longrightarrow> sv_phase s \<le> sv_phase t"
  by (induction rule: rtranclp_induct) (auto dest: phase_forward intro: order_trans)

lemma after_accepting: "Accepting < p \<longleftrightarrow> p \<noteq> Accepting"
  by (cases p) (simp_all add: less_phase_def)

lemma sv_step_not_accepting: "sv_step s t \<Longrightarrow> sv_phase s \<noteq> Accepting \<Longrightarrow> sv_phase t \<noteq> Accepting"
  using phase_forward less_le_trans after_accepting by blast

lemma sv_step_weight: "sv_step s t \<Longrightarrow> sv_phase s \<noteq> Accepting \<Longrightarrow> weight t < weight s"
proof (induction rule: sv_step.induct)
  case (refuse s i)
  then show ?case using sum_without[of i Reading "sv_conns s" "conn_weight \<circ> snd"] by (simp add: weight_def)
next
  case (request s i op)
  then show ?case using sum_without[of i Reading "sv_conns s" "conn_weight \<circ> snd"] by (simp add: weight_def)
next
  case (finish s i op)
  then show ?case using sum_without[of i "Running op" "sv_jobs s" "job_weight \<circ> snd"] by (simp add: weight_def)
next
  case (release s i)
  then show ?case using sum_without[of i Sent "sv_jobs s" "job_weight \<circ> snd"] by (simp add: weight_def)
next
  case (end_of_stream s i)
  then show ?case using sum_without[of i Forwarding "sv_conns s" "conn_weight \<circ> snd"] by (simp add: weight_def)
next
  case (hang_up s i)
  then show ?case using sum_without[of i Forwarding "sv_conns s" "conn_weight \<circ> snd"] by (simp add: weight_def)
next
  case (abort s i c)
  have "0 < conn_weight c" by (cases c) simp_all
  with abort show ?case using sum_without[of i c "sv_conns s" "conn_weight \<circ> snd"] by (simp add: weight_def)
qed (auto simp: weight_def)

lemma sv_steps_bounded: "(sv_step ^^ k) s t \<Longrightarrow> sv_phase s \<noteq> Accepting \<Longrightarrow> k + weight t \<le> weight s \<and> sv_phase t \<noteq> Accepting"
proof (induction k arbitrary: t)
  case 0
  then show ?case by simp
next
  case (Suc k)
  then obtain u where u: "(sv_step ^^ k) s u" "sv_step u t" by auto
  with Suc.IH Suc.prems(2) have ih: "k + weight u \<le> weight s" "sv_phase u \<noteq> Accepting" by blast+
  with sv_step_weight[OF u(2)] sv_step_not_accepting[OF u(2)] show ?case by simp
qed

lemma sv_progress: "\<not> final_phase (sv_phase s) \<Longrightarrow> \<exists>t. sv_step s t"
proof (cases "sv_phase s")
  case Accepting
  then show ?thesis by (blast intro: sv_step.accept)
next
  case Draining
  then show ?thesis by (blast intro: sv_step.time_out)
next
  case Aborting
  then show ?thesis
    by (cases "sv_conns s") (use sv_step.aborted in blast, metis list.set_intros(1) prod.collapse sv_step.abort)
next
  case Unwrapping
  then show ?thesis by (cases "sv_jobs s = []") (blast intro: sv_step.unwrap sv_step.panic)+
next
  case Closing
  then show ?thesis by (blast intro: sv_step.node_shutdown)
qed auto

section \<open>A shutdown request is not lost\<close>

lemma permit_kept_step:
  "sv_step s t \<Longrightarrow> sv_permit s \<or> sv_phase s \<noteq> Accepting \<Longrightarrow> sv_permit t \<or> sv_phase t \<noteq> Accepting"
  by (induction rule: sv_step.induct) auto

lemma permit_kept: "sv_steps s t \<Longrightarrow> sv_permit s \<or> sv_phase s \<noteq> Accepting \<Longrightarrow> sv_permit t \<or> sv_phase t \<noteq> Accepting"
  by (induction rule: rtranclp_induct) (auto dest: permit_kept_step)

text \<open>From the end of the shutdown operation on, whenever the loop looks it can leave.\<close>

lemma shutdown_not_lost:
  assumes "(i, Running Shutdown) \<in> set (sv_jobs s)"
    and "sv_steps (s\<lparr>sv_jobs := (i, Sent) # without i (sv_jobs s), sv_permit := True\<rparr>) t" "sv_phase t = Accepting"
  shows "sv_step t (t\<lparr>sv_phase := Draining, sv_permit := False\<rparr>)"
  using permit_kept[OF assms(2)] assms(3) by (auto intro: sv_step.notice)

section \<open>Giving up on the drain\<close>

lemma abort_all: "sv_phase s = Aborting \<Longrightarrow> \<exists>t. sv_steps s t \<and> sv_phase t = Aborting \<and> sv_conns t = [] \<and> sv_jobs t = sv_jobs s"
proof (induction "length (sv_conns s)" arbitrary: s rule: less_induct)
  case less
  show ?case
  proof (cases "sv_conns s")
    case Nil
    with less.prems show ?thesis by blast
  next
    case (Cons ic rest)
    obtain i c where ic: "ic = (i, c)" by (cases ic)
    let ?s = "s\<lparr>sv_conns := without i (sv_conns s)\<rparr>"
    have step: "sv_step s ?s" using less.prems Cons ic by (intro sv_step.abort[of s i c]) simp_all
    have "length (sv_conns ?s) < length (sv_conns s)"
      using Cons ic by (simp add: without_def le_imp_less_Suc)
    from less.hyps[OF this] less.prems obtain t where
      "sv_steps ?s t" "sv_phase t = Aborting" "sv_conns t = []" "sv_jobs t = sv_jobs s" by auto
    with step show ?thesis by (meson converse_rtranclp_into_rtranclp)
  qed
qed

lemma final_stuck: "final_phase (sv_phase s) \<Longrightarrow> \<nexists>t. sv_step s t"
  by (auto elim: sv_step.cases)

section \<open>A run\<close>

text \<open>One client asks for the shutdown and the loop closes the node.\<close>

definition srv :: "phase \<Rightarrow> (nat \<times> conn) list \<Rightarrow> (nat \<times> job) list \<Rightarrow> bool \<Rightarrow> nat \<Rightarrow> server" where
  "srv ph cs js p n = \<lparr>sv_phase = ph, sv_conns = cs, sv_jobs = js, sv_permit = p, sv_next = n\<rparr>"

lemma reachable_draining: "reachable (srv Draining [(0, Forwarding)] [(0, Sent)] False 1)"
proof -
  have a: "sv_step server_start (srv Accepting [(0, Reading)] [] False 1)"
    using sv_step.accept[of server_start] by (simp add: server_start_def srv_def)
  have b: "sv_step (srv Accepting [(0, Reading)] [] False 1) (srv Accepting [(0, Forwarding)] [(0, Running Shutdown)] False 1)"
    using sv_step.request[of "srv Accepting [(0, Reading)] [] False 1" 0 Shutdown] by (simp add: srv_def without_def)
  have c: "sv_step (srv Accepting [(0, Forwarding)] [(0, Running Shutdown)] False 1) (srv Accepting [(0, Forwarding)] [(0, Sent)] True 1)"
    using sv_step.finish[of "srv Accepting [(0, Forwarding)] [(0, Running Shutdown)] False 1" 0 Shutdown]
    by (simp add: srv_def without_def)
  have d: "sv_step (srv Accepting [(0, Forwarding)] [(0, Sent)] True 1) (srv Draining [(0, Forwarding)] [(0, Sent)] False 1)"
    using sv_step.notice[of "srv Accepting [(0, Forwarding)] [(0, Sent)] True 1"] by (simp add: srv_def)
  show ?thesis by (rule reachable_step[OF reachable_step[OF reachable_step[OF reachable_step[OF reachable_start a] b] c] d])
qed

lemma reachable_closing: "reachable (srv Closing [] [] False 1)"
proof -
  have a: "sv_step (srv Draining [(0, Forwarding)] [(0, Sent)] False 1) (srv Draining [(0, Forwarding)] [] False 1)"
    using sv_step.release[of "srv Draining [(0, Forwarding)] [(0, Sent)] False 1" 0] by (simp add: srv_def without_def)
  have b: "sv_step (srv Draining [(0, Forwarding)] [] False 1) (srv Draining [] [] False 1)"
    using sv_step.end_of_stream[of "srv Draining [(0, Forwarding)] [] False 1" 0] by (simp add: srv_def without_def)
  have c: "sv_step (srv Draining [] [] False 1) (srv Unwrapping [] [] False 1)"
    using sv_step.drained[of "srv Draining [] [] False 1"] by (simp add: srv_def)
  have d: "sv_step (srv Unwrapping [] [] False 1) (srv Closing [] [] False 1)"
    using sv_step.unwrap[of "srv Unwrapping [] [] False 1"] by (simp add: srv_def)
  show ?thesis by (rule reachable_step[OF reachable_step[OF reachable_step[OF reachable_step[OF reachable_draining a] b] c] d])
qed

section \<open>Properties\<close>

text \<open>
  C28: The node is shut down only when nobody uses it any more: in every reachable state in
  which \<open>Node::shutdown\<close> runs or has run, there is no connection and no operation left, and
  that state was not reached by a panic.
\<close>
theorem node_shutdown_exclusive:
  assumes "reachable s" "sv_phase s = Closing \<or> sv_phase s = Ended r"
  shows "sv_conns s = [] \<and> sv_jobs s = [] \<and> (\<forall>t. sv_step s t \<longrightarrow> sv_conns t = [] \<and> sv_jobs t = [])"
proof -
  have idle: "sv_conns u = [] \<and> sv_jobs u = []" if "reachable u" "sv_phase u = Closing \<or> (\<exists>r. sv_phase u = Ended r)" for u
    using reachable_phase_ok[OF that(1)] that(2) by auto
  have "sv_phase t = Closing \<or> (\<exists>r. sv_phase t = Ended r)" if "sv_step s t" for t
    using that assms(2) by (cases rule: sv_step.cases) auto
  with idle reachable_step[OF assms(1)] assms show ?thesis by blast
qed

theorem node_shutdown_exclusive_witness:
  "reachable (srv Closing [] [] False 1) \<and> sv_step (srv Closing [] [] False 1) (srv (Ended (Inr ())) [] [] False 1)
    \<and> sv_jobs (srv (Ended (Inr ())) [] [] False 1) = []"
proof -
  have step: "sv_step (srv Closing [] [] False 1) (srv (Ended (Inr ())) [] [] False 1)"
    using sv_step.node_shutdown[of "srv Closing [] [] False 1" "Inr ()"] by (simp add: srv_def)
  have "sv_phase (srv Closing [] [] False 1) = Closing \<or> sv_phase (srv Closing [] [] False 1) = Ended (Inr ())"
    by (simp add: srv_def)
  from node_shutdown_exclusive[OF reachable_closing this] step reachable_closing show ?thesis by blast
qed



text \<open>
  C30: The drain covers the connections only: an operation still at work when the loop drains
  (its client has gone, or it needs more than the 30 seconds) can make the daemon panic
  instead of shutting the node down, after which the node's stores are never flushed.
\<close>
theorem drain_can_panic:
  assumes "reachable s" "sv_phase s = Draining" "sv_jobs s \<noteq> []"
  shows "\<exists>t. sv_steps s t \<and> sv_phase t = Panicked \<and> sv_jobs t = sv_jobs s \<and> (\<nexists>u. sv_step t u)"
proof -
  have t0: "sv_step s (s\<lparr>sv_phase := Aborting\<rparr>)" using assms(2) by (rule sv_step.time_out)
  obtain u where u: "sv_steps (s\<lparr>sv_phase := Aborting\<rparr>) u" "sv_phase u = Aborting" "sv_conns u = []" "sv_jobs u = sv_jobs s"
    using abort_all[of "s\<lparr>sv_phase := Aborting\<rparr>"] by auto
  have t1: "sv_step u (u\<lparr>sv_phase := Unwrapping\<rparr>)" using u(2,3) by (rule sv_step.aborted)
  have t2: "sv_step (u\<lparr>sv_phase := Unwrapping\<rparr>) (u\<lparr>sv_phase := Panicked\<rparr>)"
    using sv_step.panic[of "u\<lparr>sv_phase := Unwrapping\<rparr>"] assms(3) u(4) by simp
  have "sv_steps s (u\<lparr>sv_phase := Panicked\<rparr>)"
    using t0 u(1) t1 t2 by (meson converse_rtranclp_into_rtranclp rtranclp.rtrancl_into_rtrancl)
  moreover have "\<nexists>v. sv_step (u\<lparr>sv_phase := Panicked\<rparr>) v" using final_stuck by simp
  ultimately show ?thesis using u(4) by (intro exI[of _ "u\<lparr>sv_phase := Panicked\<rparr>"]) simp
qed

theorem drain_can_panic_witness:
  "\<exists>t. reachable t \<and> sv_phase t = Panicked"
proof -
  have "sv_phase (srv Draining [(0, Forwarding)] [(0, Sent)] False 1) = Draining"
    "sv_jobs (srv Draining [(0, Forwarding)] [(0, Sent)] False 1) \<noteq> []" by (simp_all add: srv_def)
  from drain_can_panic[OF reachable_draining this] obtain t
    where "sv_steps (srv Draining [(0, Forwarding)] [(0, Sent)] False 1) t" "sv_phase t = Panicked" by blast
  with reachable_draining show ?thesis unfolding reachable_def by (meson rtranclp_trans)
qed

end
