(* ===== verification/Startup.thy ===== *)
theory Startup
  imports Config LocalStore Banner Lifecycle
begin

text \<open>
  Starting and stopping a node (\<open>Node::start\<close>, \<open>Node::shutdown\<close> of \<open>src/src/core/node.rs\<close>),
  binding the daemon's socket (\<open>DaemonServer::bind\<close>) and the foreground daemon that puts them
  together (\<open>run_serve\<close> of \<open>src/src/cli/command/daemon.rs\<close>).  What the networking crates do is a
  parameter that may fail at every step; the order of the steps is what is modelled, so the
  steps that were taken are recorded.
\<close>

datatype relay_mode = RelayDefault | RelayCustom string

datatype startup_step =
    CreatedDir string
  | Probed string
  | BoundEndpoint relay_mode
  | LoadedBlobs string string
  | SpawnedRouter
  | WentOnline
  | RouterDown
  | FlushedBlobs
  | OpenedRegistry string
  | Listening u16
  | Served

record ('s, 'db) startup =
  up_fs :: 's
  up_dir :: "'db data_dir"
  up_log :: "startup_step list"
  up_out :: "string list"

record ('k, 'db, 'tx) startup_env =
  su_create_dir_all :: "string \<Rightarrow> string + unit"
  su_probe :: "string \<Rightarrow> string + unit"
  su_bind :: "relay_mode \<Rightarrow> 'k \<Rightarrow> string + unit"
  su_load_blobs :: "string \<Rightarrow> string \<Rightarrow> string + unit"
  su_files :: "('db, 'tx) redb_files"
  su_open_registry :: "string \<Rightarrow> string + unit"
  su_listen :: "u16 \<Rightarrow> string + u16"
  su_router_shutdown :: "string + unit"
  su_sync_db :: "string + unit"

record 'k node =
  no_key :: 'k
  no_relay :: relay_mode

definition did :: "startup_step \<Rightarrow> (('s, 'db) startup, unit) act" where
  "did x = modA (\<lambda>s. s\<lparr>up_log := up_log s @ [x]\<rparr>)"

text \<open>A fallible step of a crate, recorded when it succeeds.\<close>

definition stepped :: "'a result \<Rightarrow> startup_step \<Rightarrow> (('s, 'db) startup, 'a) act" where
  "stepped r x = bindA (liftA r) (\<lambda>a. thenA (did x) (ret a))"

definition dirA :: "('db data_dir, 'a) act \<Rightarrow> (('s, 'db) startup, 'a) act" where
  "dirA m s = (case m (up_dir s) of (r, d) \<Rightarrow> (r, s\<lparr>up_dir := d\<rparr>))"

section \<open>The node\<close>

definition node_relay_mode :: "('k, 'db, 'tx) startup_env \<Rightarrow> string option \<Rightarrow> (('s, 'db) startup, relay_mode) act" where
  "node_relay_mode E relay_url = (case relay_url of
     None \<Rightarrow> ret RelayDefault
   | Some url \<Rightarrow>
       thenA (stepped (ctxs (''relay probe failed for '' @ url @ '' '' @ em_dash @ '' check relay_url in config.json'')
           (su_probe E (url @ ''ping''))) (Probed (url @ ''ping'')))
         (ret (RelayCustom url)))"

definition node_start ::
    "('k, 'db, 'tx) startup_env \<Rightarrow> string \<Rightarrow> 'k config \<Rightarrow> (('s, 'db) startup, 'k node) act" where
  "node_start E data_dir cfg =
     thenA (stepped (lift_err (su_create_dir_all E data_dir)) (CreatedDir data_dir))
    (bindA (node_relay_mode E (cfg_relay_url cfg)) (\<lambda>relay_mode.
     thenA (stepped (ctxs ''binding iroh endpoint'' (su_bind E relay_mode (cfg_secret_key cfg))) (BoundEndpoint relay_mode))
    (let blobs_dir = path_join data_dir ''blobs''; db_path = path_join blobs_dir ''blobs.db'' in
     thenA (stepped (ctxs ''loading FsStore'' (su_load_blobs E db_path blobs_dir)) (LoadedBlobs db_path blobs_dir))
    (thenA (dirA (local_store_open (su_files E)))
    (thenA (did SpawnedRouter)
    (thenA (did WentOnline)
      (ret \<lparr>no_key = cfg_secret_key cfg, no_relay = relay_mode\<rparr>)))))))"

definition node_shutdown_run :: "('k, 'db, 'tx) startup_env \<Rightarrow> (('s, 'db) startup, unit) act" where
  "node_shutdown_run E =
     thenA (stepped (lift_err (su_router_shutdown E)) RouterDown)
       (stepped (ctxs ''flushing blob store to disk'' (su_sync_db E)) FlushedBlobs)"

section \<open>The daemon\<close>

text \<open>\<open>bind\<close> gives the port the listener is at, which \<open>local_port\<close> reports.\<close>

definition server_bind :: "('k, 'db, 'tx) startup_env \<Rightarrow> u16 \<Rightarrow> (('s, 'db) startup, u16) act" where
  "server_bind E port =
     bindA (liftA (lift_err (map_sum (\<lambda>e. ''cannot bind to port '' @ show_nat (unat port) @ '': '' @ e) id (su_listen E port))))
       (\<lambda>actual. thenA (did (Listening actual)) (ret actual))"

text \<open>How the event loop of \<open>Lifecycle\<close> ended decides whether the node is shut down.\<close>

fun serve_end :: "('k, 'db, 'tx) startup_env \<Rightarrow> phase \<Rightarrow> (('s, 'db) startup, unit) act" where
  "serve_end E (Ended _) = node_shutdown_run E"
| "serve_end E AcceptFailed = fail (anyhow_msg ''accept failed'')"
| "serve_end E _ = fail (anyhow_msg ''all connection tasks completed'')"

definition configA :: "string \<Rightarrow> ('s, 'a) act \<Rightarrow> (('s, 'db) startup, 'a) act" where
  "configA c m s = (case m (up_fs s) of (r, fs) \<Rightarrow> (ctx c r, s\<lparr>up_fs := fs\<rparr>))"

definition run_serve ::
    "json_text \<Rightarrow> 'k identity \<Rightarrow> 's config_fs \<Rightarrow> 'k \<Rightarrow> ('k, 'db, 'tx) startup_env \<Rightarrow> bool \<Rightarrow> string \<Rightarrow> phase \<Rightarrow> string
     \<Rightarrow> (('s, 'db) startup, unit) act" where
  "run_serve J K F new_key E colored version outcome data_dir =
     thenA (modA (\<lambda>s. s\<lparr>up_out := up_out s @ print_banner colored version\<rparr>))
    (bindA (configA ''loading config'' (load_or_create J K F new_key data_dir)) (\<lambda>cfg.
     thenA (stepped (ctxs ''opening registry'' (su_open_registry E (path_join data_dir ''registry.redb'')))
       (OpenedRegistry (path_join data_dir ''registry.redb'')))
    (bindA (node_start E data_dir cfg) (\<lambda>node.
     thenA (server_bind E (cfg_daemon_port cfg))
    (thenA (did Served)
      (serve_end E outcome))))))"

section \<open>A relay that cannot be reached\<close>

text \<open>A configured relay is probed before anything is bound or opened.\<close>

lemma start_fails_fast:
  assumes "su_create_dir_all E d = Inr ()" "cfg_relay_url cfg = Some url" "su_probe E (url @ ''ping'') = Inl e"
  shows "node_start E d cfg s = (Inl (Anyhow (''relay probe failed for '' @ url @ '' '' @ em_dash
      @ '' check relay_url in config.json'') [e]), s\<lparr>up_log := up_log s @ [CreatedDir d]\<rparr>)"
  using assms
  by (simp add: node_start_def node_relay_mode_def stepped_def did_def thenA_def bindA_def act_apply)

section \<open>When the blob store is flushed\<close>

definition flush_unless :: "('s, 'db) startup \<Rightarrow> ('s, 'db) startup \<Rightarrow> bool" where
  "flush_unless s t \<longleftrightarrow> (FlushedBlobs \<in> set (up_log t) \<longrightarrow> FlushedBlobs \<in> set (up_log s))"

interpretation flushing: act_preorder flush_unless
  by unfold_locales (auto simp: flush_unless_def)

lemma quiet_did: "x \<noteq> FlushedBlobs \<Longrightarrow> stays flush_unless (did x)"
  by (auto simp: stays_def flush_unless_def did_def modA_def)

lemma quiet_stepped: "x \<noteq> FlushedBlobs \<Longrightarrow> stays flush_unless (stepped r x)"
  unfolding stepped_def by (intro flushing.stays_rules quiet_did)

lemma quiet_lifts: "stays flush_unless (dirA m)" "stays flush_unless (configA c n)"
  by (auto simp: stays_def flush_unless_def dirA_def configA_def split: prod.split)

lemma quiet_out: "stays flush_unless (modA (\<lambda>s. s\<lparr>up_out := f s\<rparr>))"
  by (simp add: stays_def flush_unless_def modA_def)

lemmas quiet_rules = flushing.stays_rules quiet_did quiet_stepped quiet_lifts quiet_out

lemma quiet_start: "stays flush_unless (node_start E d cfg)"
proof -
  have "stays flush_unless (node_relay_mode E url)" for url
    unfolding node_relay_mode_def by (intro quiet_rules) simp_all
  then show ?thesis unfolding node_start_def Let_def by (intro quiet_rules) simp_all
qed

lemma quiet_end: "\<nexists>r. outcome = Ended r \<Longrightarrow> stays flush_unless (serve_end E outcome)"
  by (cases outcome) (auto intro: flushing.stays_pure)

text \<open>Only a loop that ended in the ordinary way leads to a flush: a panic, a failed accept, and
  a port that is taken leave the node without its shutdown.\<close>

lemma flush_needs_ordinary_end:
  assumes "run_serve J K F k E colored version outcome d s = (res, t)" "\<nexists>r. outcome = Ended r"
    "FlushedBlobs \<notin> set (up_log s)"
  shows "FlushedBlobs \<notin> set (up_log t)"
proof -
  have bind: "stays flush_unless (server_bind E port)" for port
    unfolding server_bind_def by (intro quiet_rules) simp_all
  have "stays flush_unless (run_serve J K F k E colored version outcome d)"
    unfolding run_serve_def by (intro quiet_rules quiet_start quiet_end[OF assms(2)] bind) simp_all
  from flushing.stays_state[OF this assms(1)] assms(3) show ?thesis by (simp add: flush_unless_def)
qed

end
