(* ===== verification/Spec2Isabelle.thy ===== *)
theory Spec2Isabelle
  imports CliEffects AccessMachine Races Startup
begin

text \<open>
  A verification development for ringdrop, a peer-to-peer file transfer program: files are
  imported into a content-addressed store, attached to rings of peers, described by share
  tickets, and downloaded by the peers that the rings admit.  A daemon owns the node; the
  command line \<open>rdrop\<close> talks to it over a local socket.

  \<^bold>\<open>Parts of the program and their theories\<close>

  \<^item> Shared: \<open>Prelude\<close> has errors with context (\<open>anyhow\<close>), results, stateful actions that may
    fail and the locale \<open>act_preorder\<close> on relations an action stays in; \<open>Bytes\<close> and \<open>Strings\<close>
    have words as bytes, UTF-8 and decimal text; \<open>Paths\<close> has \<open>std::path\<close>; \<open>Util\<close> and \<open>Banner\<close>
    are \<open>src/src/util.rs\<close>.
  \<^item> Stores of the node: \<open>Redb\<close> is the interface of the embedded database with its laws,
    \<open>Grants\<close> (\<open>core/grants.rs\<close>) and \<open>Peers\<close> (\<open>core/peers.rs\<close>) are the stores over it, and
    \<open>LocalStore\<close> with \<open>Migration\<close> is the opening and the one-time migration of their files
    (\<open>local_store.rs\<close>), where every durable step may be the last one.
  \<^item> Access: \<open>Registry\<close> is the interface of the ring registry, \<open>Iroh\<close> that of peer ids and
    hashes, \<open>Ticket\<close> is \<open>core/ticket.rs\<close>.
  \<^item> The node (\<open>core/node.rs\<close>): \<open>Node\<close> has import, listing, deletion and tickets, \<open>Catalog\<close> the
    catalog protocol at both ends (\<open>core/protocol/catalog.rs\<close>), \<open>Receiver\<close> the download
    (\<open>core/protocol/rings.rs\<close> and \<open>download_impl\<close>), \<open>Startup\<close> its start and shutdown.
  \<^item> The daemon (\<open>daemon/\<close>): \<open>Protocol\<close> has requests and events, \<open>Serde\<close> and \<open>Wire\<close> their JSON,
    \<open>Handlers\<close>, \<open>RingHandlers\<close>, \<open>BlobHandlers\<close> and \<open>ReceiveHandler\<close> the operations, \<open>Server\<close>
    the dispatch, \<open>Connection\<close> one connection with the client at its other end, \<open>Membership\<close>
    the effect of the membership operations on all stores together, \<open>Histories\<close> the requests
    of a daemon's life one after the other, and \<open>Lifecycle\<close> the event loop with its drain as
    a step relation.  \<open>Frames\<close> says which operations leave which stores alone.  \<open>Sharing\<close>
    joins the daemon with the catalog and with the migration.
  \<^item> Concurrency: \<open>Programs\<close> has operations as trees of atomic steps, \<open>Interruptible\<close> the
    handlers that change the access state as such programs, one step per call of a store,
    \<open>Interleaving\<close> the daemon with any number of requests in progress, \<open>Races\<close> what two
    requests at once can do that no order of them does.
  \<^item> The specification: \<open>AccessMachine\<close> has an abstract machine of rings, attachments, grants
    and the address book, without stores, errors and events, which the operations implement.
  \<^item> The command line: \<open>Config\<close> is \<open>config.rs\<close>, \<open>Cli\<close> the commands (\<open>cli/\<close>), \<open>CliEffects\<close> what
    they achieve together with the daemon.

  \<^bold>\<open>How state corresponds\<close>

  The session of a request (\<open>Handlers.session\<close>) holds the registry, the two stores, the disk
  and the events sent so far, as a handler sees them through \<open>&Node\<close> and its channel.  A
  handler is an action: it returns a result and the session it leaves, also when it fails.
  Every early return, \<open>?\<close> and \<open>bail!\<close> of the source is a branch.  A machine integer has its
  width wherever it can wrap or be out of range (sizes, counters, expiry seconds, ports,
  progress indices); a \<open>SystemTime\<close> is in nanoseconds with the range check of its \<open>i64\<close>
  seconds.  A history (\<open>Histories.history\<close>) is a list of the requests served with the
  sessions they found; between two of them the clock moves, memberships expire and the disk
  may change.  Every input of a connection makes such a moment or leaves the state alone
  (\<open>history_connection\<close>).  A run (\<open>Interleaving.run\<close>) is finer: requests are tasks with a
  program and an event channel each, and any of them makes the next step on the shared
  stores.  Histories are the runs in which no task is interrupted (\<open>history_run\<close>).  The event loop is the record \<open>Lifecycle.server\<close>, with one step per scheduling
  point of the source.

  \<^bold>\<open>What is not under src/\<close>

  The crates are parameters: records of the operations that the program calls (\<open>redb\<close>,
  \<open>registry\<close>, \<open>iroh\<close>, \<open>fs_store\<close>, \<open>transfer\<close>, \<open>os\<close>, \<open>json_text\<close>, \<open>uuid_text\<close>, \<open>identity\<close>,
  \<open>config_fs\<close>), with the documented behaviour as the assumptions of a locale of its own.
  Each locale is interpreted on an executable instance (an in-memory database, registry and
  disk; hexadecimal ids; a stack machine that prints and reads JSON), and the witnesses are
  evaluated there.

  \<^bold>\<open>What the lemmas show\<close>

  \<^item> The daemon over time: \<open>Histories\<close> bounds what one request may change by what it names
    (\<open>confined\<close>, proved of every operation, also where it fails) and lifts that to histories:
    access and privileges are traceable to the request that gave them, a removed peer stays
    out, ring members stay in the address book.  It also shows the interleaving of two
    requests that breaks the last.  \<open>Sharing\<close> follows a blob from its import to the catalogs
    of the ring's members and from its removal out of all of them, and an address book from
    the old files through the migration and every later request.
  \<^item> Concurrency: run in one go the programs are the handlers (\<open>uninterrupted_dispatch\<close>).
    Under every interleaving access is traceable, each request has one complete reply of its
    own, and none can be kept from its end.  What histories guarantee beyond that is lost to
    races: \<open>peer_remove_race\<close>, \<open>detach_overwrites_concurrent_changes\<close> and
    \<open>ring_add_loses_nickname\<close> show how.
  \<^item> Access control: \<open>Catalog\<close> (what a peer is sent depends only on what it may read; without
    the grant it is one byte), \<open>Node\<close> (the listing), \<open>Membership\<close> and \<open>BlobHandlers\<close> (the exact
    effect of adding and removing members, peers and attachments).
  \<^item> Refinement: every operation of the daemon makes the step of \<open>AccessMachine\<close> that its
    arguments denote when it succeeds; when it fails it changes nothing but attachments of
    the one blob it works on, and those only within \<open>confined\<close>.
    \<open>BlobHandlers\<close> has what such a step sequence does when another request comes between.
    \<open>Grants\<close> and \<open>Peers\<close> implement a set and a map under any sequence of operations; \<open>Connection\<close> shows that the client sees the daemon's reply and nothing else;
    \<open>Catalog\<close> that the two ends of the catalog agree.
  \<^item> Data: tickets, requests and events survive their text forms; requests are read from their
    known fields in any order; durations, sizes and remaining times are printed and read
    within stated bounds.
  \<^item> Crash safety: wherever the migration stops nothing is lost and the next start completes
    it; the identity of a node does not change once it has been made.
  \<^item> The daemon's life: the node is shut down only when nobody uses it, the steps after the
    end of the accept loop are bounded by \<open>Lifecycle.weight\<close>, a shutdown request is not lost,
    and the drain does not cover operations whose client has gone, which can end in a panic
    that skips the flush (\<open>Startup.flush_needs_ordinary_end\<close>).

  \<^bold>\<open>Bounds\<close>

  No definition runs on fuel: loops are structural recursions over the lists they traverse,
  or recursions with a measure (UTF-8 decoding, path components, trimming).  \<open>trim_left\<close>
  and \<open>trim_right\<close> in \<open>Paths\<close> count down from the length of the text, which each of their
  steps shortens.  \<open>Cli.poll\<close> has the source's 30 attempts.

  \<^bold>\<open>Not modelled\<close>

  The text of error messages of \<open>serde\<close> is abbreviated; the order of the members of a JSON
  object that a handler records is the program's, and nesting is not limited (the program's
  values nest three deep, \<open>serde_json\<close> reads 128 levels).  Time-outs and retries of the
  network, the accept side of the ring protocol and garbage collection are in the crates.
  Parsing of the command line is \<open>clap\<close>'s; the constraints that the attributes declare are
  \<open>Cli.clap_accepts\<close>.  In a run each call of the registry, each transaction and each call of
  the blob store is one step, as the crates promise; an operation that changes no access
  state (listings, receive) is one step as a whole, so its answer is a snapshot.  The event
  channel of a request holds 32 events and its sender waits while the client does not read;
  a step that sends stands for one that has room.  Set-up of logging, module declarations (\<open>lib.rs\<close>, \<open>main.rs\<close>,
  \<open>core/mod.rs\<close>) and the tests have no logic of their own to model.
\<close>

section \<open>A command, the daemon and back\<close>

text \<open>
  C6: A command that is one request, end to end: the configuration names the port, the
  request crosses the socket as JSON, the daemon carries it out, and the command prints
  exactly the lines of the daemon's reply; it succeeds when the operation does and
  otherwise fails with the operation's message.
\<close>
theorem cli_request_end_to_end:
  assumes "wire J U" and codec: "ce_codec X = json_codec J U" and "utf8_op op"
    and config: "load_config X data_dir c = (Inr cfg, c1)"
    and daemon: "ce_connect X (cs_tries c1) (cfg_daemon_port cfg) = Inr (daemon_at E (json_codec J U) default_dir s)"
    and reply: "dispatch E default_dir \<lparr>rq_req_id = ce_uuid X (cs_tries c1), rq_op = op\<rparr> (s\<lparr>sn_out := []\<rparr>) = (s', stop)"
    and short: "\<And>l. ic_show_request (json_codec J U) \<lparr>rq_req_id = ce_uuid X (cs_tries c1), rq_op = op\<rparr> = Inr l \<Longrightarrow>
      length l \<le> MAX_LINE_BYTES"
    and fits: "\<And>e. e \<in> set (sn_out s') \<Longrightarrow> sendable (json_codec J U) e"
  shows "\<exists>c2. run_request X data_dir op c
      = (op_result op (fst (handle_op E default_dir (ce_uuid X (cs_tries c1)) op (s\<lparr>sn_out := []\<rparr>))), c2)
    \<and> cs_out c2 = cs_out c1 @ List.map_filter (\<lambda>e. event_text (ev_kind e)) (sn_out s')
    \<and> cs_sent c2 = cs_sent c1 @ [op] \<and> cs_fs c2 = cs_fs c1"
proof -
  obtain l where l: "ic_show_request (json_codec J U) \<lparr>rq_req_id = ce_uuid X (cs_tries c1), rq_op = op\<rparr> = Inr l"
    using assms(3) by (auto simp: op_fields_prints json_codec_def request_to_json_def)
  have run: "client_run (json_codec J U) addr (Inr (daemon_at E (json_codec J U) default_dir s)) (ce_uuid X (cs_tries c1)) op
    = (List.map_filter (\<lambda>e. event_text (ev_kind e)) (sn_out s'),
       op_result op (fst (handle_op E default_dir (ce_uuid X (cs_tries c1)) op (s\<lparr>sn_out := []\<rparr>))))" for addr
    by (rule ipc_laws.client_run_daemon[OF wire.json_codec_laws[OF assms(1)] l short[OF l] reply]) (rule fits)
  have client: "daemon_client X data_dir c = (Inr (cfg_daemon_port cfg), c1)"
    using config by (simp add: daemon_client_def act_simps)
  have "run_request X data_dir op c = runA X (cfg_daemon_port cfg) op c1"
    unfolding run_request_def by (rule bindA_run(1), rule client)
  then show ?thesis unfolding runA_def codec daemon run by simp
qed

definition joined_cli :: "(string \<rightharpoonup> string, bytes32) cli_env" where
  "joined_cli = sample_cli\<lparr>ce_uuid := (\<lambda>_. 3),
     ce_connect := (\<lambda>_ _. Inr (daemon_at mem_env (json_codec stack_json raw_uuid) None sample_session))\<rparr>"

lemma stack_str_length: "length (stack_str t) = 1 + 2 * length t"
  by (simp add: stack_str_def length_concat comp_def sum_list_triv)

lemma joined_simps [simp]: "ce_codec joined_cli = json_codec stack_json raw_uuid" "ce_uuid joined_cli n = 3"
  "ce_connect joined_cli n port = Inr (daemon_at mem_env (json_codec stack_json raw_uuid) None sample_session)"
  by (simp_all add: joined_cli_def sample_cli_def)

theorem cli_request_end_to_end_witness:
  "\<exists>c2. run_request joined_cli ''/home/a'' (PeerRemove ''zz'') (fresh_cli (\<lambda>_. None))
      = (bail ''invalid peer id: invalid hex'', c2) \<and> cs_sent c2 = [PeerRemove ''zz'']"
proof -
  let ?c = "fresh_cli (\<lambda>_. None) :: (string \<rightharpoonup> string) cli_state"
  obtain cfg c1 where load: "load_config joined_cli ''/home/a'' ?c = (Inr cfg, c1)" and c1: "cs_sent c1 = []"
    by (simp add: load_config_def load_or_create_def Let_def bindA_def thenA_def foreignA_def act_apply map_fs_def
        hex_identity_def config_to_json_def se_opt_path_def config_path_def path_join_def joined_cli_def sample_cli_def fresh_cli_def)
  let ?req = "\<lparr>rq_req_id = 3, rq_op = PeerRemove ''zz''\<rparr>" and ?s = "sample_session\<lparr>sn_out := []\<rparr>"
  have d: "dispatch mem_env None ?req ?s = (?s\<lparr>sn_out := [event_error 3 ''invalid peer id: invalid hex'']\<rparr>, False)"
    by (simp add: dispatch_def bad_peer_run send_run bail_def anyhow_msg_def err_to_string_def del: handle_op.simps)
  have id: "length (ut_show raw_uuid 3) = 16" by (simp add: raw_uuid_def)
  have short: "length l \<le> MAX_LINE_BYTES" if "ic_show_request (json_codec stack_json raw_uuid) ?req = Inr l" for l
    using that id by (auto simp: json_codec_def request_to_json_def stack_json_def stack_str_length MAX_LINE_BYTES_def)
  have "sendable (json_codec stack_json raw_uuid) (event_error 3 t)" if "length t \<le> 100" for t
    using that id by (simp add: sendable_def json_codec_def event_to_json_def event_error_def stack_json_def stack_str_length
        MAX_LINE_BYTES_def)
  then have fits: "sendable (json_codec stack_json raw_uuid) e"
    if "e \<in> set (sn_out (?s\<lparr>sn_out := [event_error 3 ''invalid peer id: invalid hex'']\<rparr>))" for e
    using that by simp
  have "utf8_op (PeerRemove ''zz'')" by (simp add: utf8_op_def)
  from cli_request_end_to_end[OF stack_wire.wire_axioms joined_simps(1) this load joined_simps(3), unfolded joined_simps,
      OF d short fits] c1
  show ?thesis by (auto simp: op_result_def bad_peer_run bail_def anyhow_msg_def err_to_string_def simp del: handle_op.simps)
qed

end
